(* ===== verification/Prelude.thy ===== *)
theory Prelude
  imports Main "HOL-Library.Word" "HOL-Library.Signed_Division"
begin

text \<open>
  Shared vocabulary of the development: the machine integers of the C++ code, the
  hazards (undefined behaviour and uncaught exceptions) that a C++ statement may run
  into, the sequencing combinator of fallible computations, checked signed arithmetic,
  vector accesses, and generic lemmas about them.

  \<^item> \<open>std::int64_t\<close> is \<open>64 word\<close>, read as signed with \<open>sint\<close>;
    \<open>static_cast<std::size_t>\<close> of such a value is \<open>unat\<close>.
  \<^item> \<open>std::size_t\<close> and \<open>std::uint64_t\<close> counters are \<open>nat\<close>; sums whose operands a
    guest program controls are taken modulo \<open>2 ^ 64\<close> by \<open>size_add\<close> and \<open>size_mult\<close>.
  \<^item> Every C++ operation whose behaviour the standard leaves undefined, and every
    exception the code does not catch, is the left injection of a sum.
\<close>

named_theorems handler_defs \<open>definitions of the instruction handlers\<close>
named_theorems state_defs \<open>definitions of the state-changing helpers\<close>

section \<open>Machine integers\<close>

type_synonym i64 = "64 word"
type_synonym u64 = "64 word"
type_synonym u8 = "8 word"

definition int64_fits :: "int \<Rightarrow> bool" where
  "int64_fits z \<longleftrightarrow> - (2 ^ 63) \<le> z \<and> z < 2 ^ 63"

lemma sint_i64_bounds: "- (2 ^ 63) \<le> sint (x :: i64)" "sint (x :: i64) < 2 ^ 63"
  using sint_ge [of x] sint_lt [of x] by simp_all

lemma int64_fits_sint [simp]: "int64_fits (sint (x :: i64))"
  by (simp add: int64_fits_def sint_i64_bounds del: power_numeral)

lemma signed_take_bit_fits: "int64_fits z \<Longrightarrow> signed_take_bit 63 z = z"
  by (rule signed_take_bit_int_eq_self) (simp_all add: int64_fits_def)

lemma sint_of_int_fits: "int64_fits z \<Longrightarrow> sint (word_of_int z :: i64) = z"
  by (simp add: sint_sbintrunc' signed_take_bit_fits)

lemma sint_of_int_eq_fits: "x = word_of_int z \<Longrightarrow> int64_fits z \<Longrightarrow> sint (x :: i64) = z"
  by (simp only: sint_of_int_fits)

lemma sint_add_fits:
  assumes "int64_fits (sint a + sint b)"
  shows "sint (a + b :: i64) = sint a + sint b"
  using _ assms by (rule sint_of_int_eq_fits) (simp add: scast_id)

lemma sint_sub_fits:
  assumes "int64_fits (sint a - sint b)"
  shows "sint (a - b :: i64) = sint a - sint b"
  using _ assms by (rule sint_of_int_eq_fits) (simp add: scast_id)

lemma sint_mult_fits:
  assumes "int64_fits (sint a * sint b)"
  shows "sint (a * b :: i64) = sint a * sint b"
  using _ assms by (rule sint_of_int_eq_fits) (simp add: scast_id)

lemma unat_i64_bound: "unat (x :: i64) < 2 ^ 64"
  using unsigned_less [where 'b = 64 and 'a = nat, of x] by simp

lemma unat_of_sint_nonneg: "0 \<le> sint (x :: i64) \<Longrightarrow> unat x = nat (sint x)"
proof -
  assume h: "0 \<le> sint x"
  have "uint x = sint x mod 2 ^ 64"
    using uint_sint [of x] by (simp add: take_bit_eq_mod)
  also have "\<dots> = sint x"
    using h sint_i64_bounds(2) [of x] by (intro mod_pos_pos_trivial) simp_all
  finally show ?thesis by (simp add: unat_eq_nat_uint)
qed

lemma sint_of_nat_small: "n < 2 ^ 63 \<Longrightarrow> sint (of_nat n :: i64) = int n"
  using sint_of_int_fits [of "int n"] by (simp add: int64_fits_def)

lemma unat_of_nat_small: "n < 2 ^ 64 \<Longrightarrow> unat (of_nat n :: i64) = n"
  by (simp add: unat_of_nat take_bit_eq_mod)

definition size_add :: "nat \<Rightarrow> nat \<Rightarrow> nat" where
  "size_add m n = (m + n) mod 2 ^ 64"

definition size_mult :: "nat \<Rightarrow> nat \<Rightarrow> nat" where
  "size_mult m n = (m * n) mod 2 ^ 64"

lemma size_add_small: "m + n < 2 ^ 64 \<Longrightarrow> size_add m n = m + n"
  by (simp add: size_add_def)

lemma size_mult_small: "m * n < 2 ^ 64 \<Longrightarrow> size_mult m n = m * n"
  by (simp add: size_mult_def)

section \<open>Hazards and sequencing\<close>

datatype hazard =
    RegisterIndex   \<comment> \<open>\<open>std::array::operator[]\<close> outside the register file\<close>
  | MemoryIndex     \<comment> \<open>\<open>std::vector::operator[]\<close> outside guest memory\<close>
  | VectorIndex     \<comment> \<open>\<open>std::vector::operator[]\<close> outside a tensor's shape or data\<close>
  | SignedOverflow  \<comment> \<open>a signed 64-bit result that does not fit\<close>
  | InvalidArgument \<comment> \<open>uncaught \<open>std::invalid_argument\<close>\<close>
  | OutOfRange      \<comment> \<open>uncaught \<open>std::out_of_range\<close>\<close>
  | LengthError     \<comment> \<open>uncaught \<open>std::length_error\<close>\<close>

definition ebind :: "'e + 'a \<Rightarrow> ('a \<Rightarrow> 'e + 'b) \<Rightarrow> 'e + 'b" where
  "ebind m k = (case m of Inl e \<Rightarrow> Inl e | Inr x \<Rightarrow> k x)"

lemma ebind_Inl [simp]: "ebind (Inl e) k = Inl e"
  by (simp add: ebind_def)

lemma ebind_Inr [simp]: "ebind (Inr x) k = k x"
  by (simp add: ebind_def)

lemma ebind_assoc: "ebind (ebind m k) l = ebind m (\<lambda>x. ebind (k x) l)"
  by (cases m) simp_all

lemma ebind_eq_Inr: "ebind m k = Inr y \<longleftrightarrow> (\<exists>x. m = Inr x \<and> k x = Inr y)"
  by (cases m) simp_all

lemma ebind_eq_Inl: "ebind m k = Inl e \<longleftrightarrow> m = Inl e \<or> (\<exists>x. m = Inr x \<and> k x = Inl e)"
  by (cases m) auto

lemma ebind_if: "ebind (if b then m else n) k = (if b then ebind m k else ebind n k)"
  by simp

fun emap :: "('a \<Rightarrow> 'e + 'b) \<Rightarrow> 'a list \<Rightarrow> 'e + 'b list" where
  "emap f [] = Inr []"
| "emap f (x # xs) = ebind (f x) (\<lambda>y. ebind (emap f xs) (\<lambda>ys. Inr (y # ys)))"

lemma emap_length: "emap f xs = Inr ys \<Longrightarrow> length ys = length xs"
  by (induction xs arbitrary: ys) (auto simp: ebind_eq_Inr)

lemma emap_nth: "emap f xs = Inr ys \<Longrightarrow> i < length xs \<Longrightarrow> f (xs ! i) = Inr (ys ! i)"
proof (induction xs arbitrary: ys i)
  case Nil
  then show ?case by simp
next
  case (Cons x xs)
  then show ?case by (cases i) (auto simp: ebind_eq_Inr)
qed

lemma emap_Inl: "emap f xs = Inl e \<Longrightarrow> \<exists>x\<in>set xs. f x = Inl e"
  by (induction xs) (auto simp: ebind_eq_Inl)

lemma emap_all_Inr: "(\<And>x. x \<in> set xs \<Longrightarrow> f x = Inr (g x)) \<Longrightarrow> emap f xs = Inr (map g xs)"
  by (induction xs) auto

fun efold :: "('b \<Rightarrow> 'a \<Rightarrow> 'e + 'b) \<Rightarrow> 'b \<Rightarrow> 'a list \<Rightarrow> 'e + 'b" where
  "efold f y [] = Inr y"
| "efold f y (x # xs) = ebind (f y x) (\<lambda>y'. efold f y' xs)"

lemma efold_append: "efold f y (xs @ ys) = ebind (efold f y xs) (\<lambda>z. efold f z ys)"
  by (induction xs arbitrary: y) (simp_all add: ebind_assoc)

text \<open>An invariant of the accumulator that every step keeps holds for the result.\<close>

lemma efold_invariant:
  assumes "P y" "efold f y xs = Inr z"
    and "\<And>y x y'. x \<in> set xs \<Longrightarrow> P y \<Longrightarrow> f y x = Inr y' \<Longrightarrow> P y'"
  shows "P z"
  using assms
proof (induction xs arbitrary: y)
  case Nil
  then show ?case by simp
next
  case (Cons x xs)
  from Cons.prems(2) obtain y' where y': "f y x = Inr y'" "efold f y' xs = Inr z"
    by (auto simp: ebind_eq_Inr)
  have "P y'" using Cons.prems(1,3) y'(1) by (meson list.set_intros(1))
  then show ?case
    using y'(2) Cons.prems(3) by (intro Cons.IH) auto
qed

text \<open>Where the invariant excludes a hazard in every step, the loop does not meet it.\<close>

lemma efold_hazard:
  assumes "P y" "efold f y xs = Inl h"
    and "\<And>y x y'. x \<in> set xs \<Longrightarrow> P y \<Longrightarrow> f y x = Inr y' \<Longrightarrow> P y'"
  shows "\<exists>y x. P y \<and> x \<in> set xs \<and> f y x = Inl h"
  using assms
proof (induction xs arbitrary: y)
  case Nil
  then show ?case by simp
next
  case (Cons x xs)
  show ?case
  proof (cases "f y x")
    case (Inl e)
    with Cons.prems(1,2) show ?thesis by auto
  next
    case (Inr y')
    with Cons.prems have "P y'" "efold f y' xs = Inl h"
      by (auto simp: ebind_eq_Inl)
    have "\<exists>y x. P y \<and> x \<in> set xs \<and> f y x = Inl h"
      by (rule Cons.IH [OF \<open>P y'\<close> \<open>efold f y' xs = Inl h\<close>]) (rule Cons.prems(3) [OF list.set_intros(2)])
    then show ?thesis by auto
  qed
qed

section \<open>Checked signed arithmetic\<close>

text \<open>
  Overflow of signed addition, subtraction, multiplication and negation, and the
  quotient or remainder of the least value by \<open>-1\<close>, are undefined in C++. Division
  truncates towards zero.
\<close>

definition sadd :: "i64 \<Rightarrow> i64 \<Rightarrow> hazard + i64" where
  "sadd a b = (if int64_fits (sint a + sint b) then Inr (a + b) else Inl SignedOverflow)"

definition ssub :: "i64 \<Rightarrow> i64 \<Rightarrow> hazard + i64" where
  "ssub a b = (if int64_fits (sint a - sint b) then Inr (a - b) else Inl SignedOverflow)"

definition smul :: "i64 \<Rightarrow> i64 \<Rightarrow> hazard + i64" where
  "smul a b = (if int64_fits (sint a * sint b) then Inr (a * b) else Inl SignedOverflow)"

definition sneg :: "i64 \<Rightarrow> hazard + i64" where
  "sneg a = (if int64_fits (- sint a) then Inr (- a) else Inl SignedOverflow)"

definition squot :: "i64 \<Rightarrow> i64 \<Rightarrow> hazard + i64" where
  "squot a b = (if int64_fits (sint a sdiv sint b)
                then Inr (word_of_int (sint a sdiv sint b)) else Inl SignedOverflow)"

definition srem :: "i64 \<Rightarrow> i64 \<Rightarrow> hazard + i64" where
  "srem a b = (if int64_fits (sint a sdiv sint b)
               then Inr (word_of_int (sint a smod sint b)) else Inl SignedOverflow)"

lemma sadd_Inr: "sadd a b = Inr c \<Longrightarrow> sint c = sint a + sint b"
  by (auto simp: sadd_def sint_add_fits split: if_splits)

lemma ssub_Inr: "ssub a b = Inr c \<Longrightarrow> sint c = sint a - sint b"
  by (auto simp: ssub_def sint_sub_fits split: if_splits)

lemma smul_Inr: "smul a b = Inr c \<Longrightarrow> sint c = sint a * sint b"
  by (auto simp: smul_def sint_mult_fits split: if_splits)

lemma sneg_Inr: "sneg a = Inr c \<Longrightarrow> sint c = - sint a"
  using sint_sub_fits [of 0 a] by (auto simp: sneg_def split: if_splits)

lemma squot_Inr: "squot a b = Inr c \<Longrightarrow> sint c = sint a sdiv sint b"
  by (auto simp: squot_def sint_of_int_fits split: if_splits)

lemma arith_Inl:
  "sadd a b = Inl h \<Longrightarrow> h = SignedOverflow" "ssub a b = Inl h \<Longrightarrow> h = SignedOverflow"
  "smul a b = Inl h \<Longrightarrow> h = SignedOverflow" "sneg a = Inl h \<Longrightarrow> h = SignedOverflow"
  "squot a b = Inl h \<Longrightarrow> h = SignedOverflow" "srem a b = Inl h \<Longrightarrow> h = SignedOverflow"
  by (auto simp: sadd_def ssub_def smul_def sneg_def squot_def srem_def split: if_splits)

section \<open>Vector accesses\<close>

definition vread :: "hazard \<Rightarrow> 'a list \<Rightarrow> nat \<Rightarrow> hazard + 'a" where
  "vread h xs i = (if i < length xs then Inr (xs ! i) else Inl h)"

definition vwrite :: "hazard \<Rightarrow> 'a list \<Rightarrow> nat \<Rightarrow> 'a \<Rightarrow> hazard + 'a list" where
  "vwrite h xs i x = (if i < length xs then Inr (xs[i := x]) else Inl h)"

lemma vread_in [simp]: "i < length xs \<Longrightarrow> vread h xs i = Inr (xs ! i)"
  by (simp add: vread_def)

lemma vwrite_in [simp]: "i < length xs \<Longrightarrow> vwrite h xs i x = Inr (xs[i := x])"
  by (simp add: vwrite_def)

lemma vread_out [simp]: "\<not> i < length xs \<Longrightarrow> vread h xs i = Inl h"
  by (simp add: vread_def)

lemma vwrite_out [simp]: "\<not> i < length xs \<Longrightarrow> vwrite h xs i x = Inl h"
  by (simp add: vwrite_def)

lemma vread_eq_Inr: "vread h xs i = Inr x \<longleftrightarrow> i < length xs \<and> x = xs ! i"
  by (auto simp: vread_def)

lemma vwrite_eq_Inr: "vwrite h xs i x = Inr ys \<longleftrightarrow> i < length xs \<and> ys = xs[i := x]"
  by (auto simp: vwrite_def)

end
