(* ===== verification/Tisc.thy ===== *)
theory Tisc
  imports Prelude
begin

text \<open>
  TISC programs (\<open>include/t81/tisc/opcodes.hpp\<close>, \<open>include/t81/tisc/program.hpp\<close>):
  opcodes, instructions, programs.

  \<open>Opcode\<close> is an enumeration over \<open>std::uint8_t\<close>, so a host can build a value that
  is no enumerator (\<open>static_cast<Opcode>(99)\<close>). Such a byte is \<open>IllegalOpcode b\<close>;
  \<open>opcode_of_byte\<close> is the cast, and never yields \<open>IllegalOpcode\<close> on an enumerator's
  byte.
\<close>

datatype (plugins only: size) opcode =
    Nop | Halt | LoadImm | Load | Store | Add | Sub | Mul | Div | Mod | Jump |
    JumpIfZero | Mov | Inc | Dec | Cmp | Push | Pop | JumpIfNotZero | Call | Ret | Trap |
    Neg | JumpIfNegative | JumpIfPositive | I2F | F2I | I2Frac | Frac2I | FAdd | FSub |
    FMul | FDiv | FracAdd | FracSub | FracMul | FracDiv | Less | LessEqual | Greater |
    GreaterEqual | Equal | NotEqual | StackAlloc | StackFree | HeapAlloc | HeapFree |
    TNot | TAnd | TOr | TXor | AxRead | AxSet | AxVerify | TVecAdd | TMatMul | TTenDot |
    TVecMul | TTranspose | TExp | TSqrt | TSiLU | TSoftmax | TRMSNorm | TRoPE |
    ChkShape | WeightsLoad | SetF | MakeOptionSome | MakeOptionNone | MakeResultOk |
    MakeResultErr | OptionIsSome | OptionUnwrap | ResultIsOk | ResultUnwrapOk |
    ResultUnwrapErr | MakeEnumVariant | MakeEnumVariantPayload | EnumIsVariant |
    EnumUnwrapPayload | IllegalOpcode u8

primrec opcode_byte :: "opcode \<Rightarrow> u8" where
  "opcode_byte Nop = 0"
| "opcode_byte Halt = 1"
| "opcode_byte LoadImm = 2"
| "opcode_byte Load = 3"
| "opcode_byte Store = 4"
| "opcode_byte Add = 5"
| "opcode_byte Sub = 6"
| "opcode_byte Mul = 7"
| "opcode_byte Div = 8"
| "opcode_byte Mod = 9"
| "opcode_byte Jump = 10"
| "opcode_byte JumpIfZero = 11"
| "opcode_byte Mov = 12"
| "opcode_byte Inc = 13"
| "opcode_byte Dec = 14"
| "opcode_byte Cmp = 15"
| "opcode_byte Push = 16"
| "opcode_byte Pop = 17"
| "opcode_byte JumpIfNotZero = 18"
| "opcode_byte Call = 19"
| "opcode_byte Ret = 20"
| "opcode_byte Trap = 21"
| "opcode_byte Neg = 22"
| "opcode_byte JumpIfNegative = 23"
| "opcode_byte JumpIfPositive = 24"
| "opcode_byte I2F = 25"
| "opcode_byte F2I = 26"
| "opcode_byte I2Frac = 27"
| "opcode_byte Frac2I = 28"
| "opcode_byte FAdd = 29"
| "opcode_byte FSub = 30"
| "opcode_byte FMul = 31"
| "opcode_byte FDiv = 32"
| "opcode_byte FracAdd = 33"
| "opcode_byte FracSub = 34"
| "opcode_byte FracMul = 35"
| "opcode_byte FracDiv = 36"
| "opcode_byte Less = 37"
| "opcode_byte LessEqual = 38"
| "opcode_byte Greater = 39"
| "opcode_byte GreaterEqual = 40"
| "opcode_byte Equal = 41"
| "opcode_byte NotEqual = 42"
| "opcode_byte StackAlloc = 43"
| "opcode_byte StackFree = 44"
| "opcode_byte HeapAlloc = 45"
| "opcode_byte HeapFree = 46"
| "opcode_byte TNot = 47"
| "opcode_byte TAnd = 48"
| "opcode_byte TOr = 49"
| "opcode_byte TXor = 50"
| "opcode_byte AxRead = 51"
| "opcode_byte AxSet = 52"
| "opcode_byte AxVerify = 53"
| "opcode_byte TVecAdd = 54"
| "opcode_byte TMatMul = 55"
| "opcode_byte TTenDot = 56"
| "opcode_byte TVecMul = 57"
| "opcode_byte TTranspose = 58"
| "opcode_byte TExp = 59"
| "opcode_byte TSqrt = 60"
| "opcode_byte TSiLU = 61"
| "opcode_byte TSoftmax = 62"
| "opcode_byte TRMSNorm = 63"
| "opcode_byte TRoPE = 64"
| "opcode_byte ChkShape = 65"
| "opcode_byte WeightsLoad = 66"
| "opcode_byte SetF = 67"
| "opcode_byte MakeOptionSome = 68"
| "opcode_byte MakeOptionNone = 69"
| "opcode_byte MakeResultOk = 70"
| "opcode_byte MakeResultErr = 71"
| "opcode_byte OptionIsSome = 72"
| "opcode_byte OptionUnwrap = 73"
| "opcode_byte ResultIsOk = 74"
| "opcode_byte ResultUnwrapOk = 75"
| "opcode_byte ResultUnwrapErr = 76"
| "opcode_byte MakeEnumVariant = 77"
| "opcode_byte MakeEnumVariantPayload = 78"
| "opcode_byte EnumIsVariant = 79"
| "opcode_byte EnumUnwrapPayload = 80"
| "opcode_byte (IllegalOpcode b) = b"

definition enumerators :: "opcode list" where
  "enumerators = [
    Nop, Halt, LoadImm, Load, Store, Add, Sub, Mul, Div, Mod, Jump, JumpIfZero, Mov, Inc,
    Dec, Cmp, Push, Pop, JumpIfNotZero, Call, Ret, Trap, Neg, JumpIfNegative,
    JumpIfPositive, I2F, F2I, I2Frac, Frac2I, FAdd, FSub, FMul, FDiv, FracAdd, FracSub,
    FracMul, FracDiv, Less, LessEqual, Greater, GreaterEqual, Equal, NotEqual,
    StackAlloc, StackFree, HeapAlloc, HeapFree, TNot, TAnd, TOr, TXor, AxRead, AxSet,
    AxVerify, TVecAdd, TMatMul, TTenDot, TVecMul, TTranspose, TExp, TSqrt, TSiLU,
    TSoftmax, TRMSNorm, TRoPE, ChkShape, WeightsLoad, SetF, MakeOptionSome,
    MakeOptionNone, MakeResultOk, MakeResultErr, OptionIsSome, OptionUnwrap, ResultIsOk,
    ResultUnwrapOk, ResultUnwrapErr, MakeEnumVariant, MakeEnumVariantPayload,
    EnumIsVariant, EnumUnwrapPayload]"

definition opcode_of_byte :: "u8 \<Rightarrow> opcode" where
  "opcode_of_byte b =
     (if unat b < length enumerators then enumerators ! unat b else IllegalOpcode b)"

record insn =
  opcode_of :: opcode
  arg_a :: i64
  arg_b :: i64
  arg_c :: i64

record program =
  insns :: "insn list"
  axion_policy_text :: string

abbreviation mk_insn :: "opcode \<Rightarrow> i64 \<Rightarrow> i64 \<Rightarrow> i64 \<Rightarrow> insn" where
  "mk_insn oc x y z \<equiv> \<lparr>opcode_of = oc, arg_a = x, arg_b = y, arg_c = z\<rparr>"

text \<open>The register operands, as \<open>static_cast<std::size_t>\<close> reads them.\<close>

abbreviation idx_a :: "insn \<Rightarrow> nat" where "idx_a i \<equiv> unat (arg_a i)"
abbreviation idx_b :: "insn \<Rightarrow> nat" where "idx_b i \<equiv> unat (arg_b i)"
abbreviation idx_c :: "insn \<Rightarrow> nat" where "idx_c i \<equiv> unat (arg_c i)"

lemma length_enumerators [simp]: "length enumerators = 81"
  by (simp add: enumerators_def)

lemma distinct_enumerators: "distinct enumerators"
  by (simp add: enumerators_def)

text \<open>Every opcode is an enumerator or an illegal byte.\<close>

lemma opcode_enumerated: "oc \<in> set enumerators \<or> (\<exists>b. oc = IllegalOpcode b)"
  by (cases oc) (simp_all add: enumerators_def)

text \<open>The cast inverts the numbering of the enumerators.\<close>

lemma opcode_byte_enumerators: "map opcode_byte enumerators = map of_nat [0..<81]"
  by (simp add: enumerators_def upt_rec)

lemma opcode_byte_nth: "i < 81 \<Longrightarrow> opcode_byte (enumerators ! i) = of_nat i"
  using arg_cong [OF opcode_byte_enumerators, of "\<lambda>xs. xs ! i"] by simp

lemma opcode_of_byte_opcode_byte:
  assumes "oc \<in> set enumerators"
  shows "opcode_of_byte (opcode_byte oc) = oc"
proof -
  from assms obtain i where i: "i < 81" "oc = enumerators ! i"
    by (auto simp: in_set_conv_nth)
  then have "unat (opcode_byte oc) = i"
    by (simp add: opcode_byte_nth unat_of_nat take_bit_eq_mod)
  with i show ?thesis by (simp add: opcode_of_byte_def)
qed

section \<open>Order and equality of opcodes\<close>

text \<open>
  Opcodes are ordered by their byte, illegal bytes after the enumerators; equality is
  decided on these ranks.
\<close>

definition opcode_rank :: "opcode \<Rightarrow> nat" where
  "opcode_rank oc =
     (case oc of IllegalOpcode b \<Rightarrow> 81 + unat b | _ \<Rightarrow> unat (opcode_byte oc))"

lemma opcode_rank_enumerator:
  "oc \<in> set enumerators \<Longrightarrow> opcode_rank oc = unat (opcode_byte oc)"
  by (auto simp: opcode_rank_def enumerators_def)

lemma opcode_byte_less: "oc \<in> set enumerators \<Longrightarrow> unat (opcode_byte oc) < 81"
  by (auto simp: in_set_conv_nth opcode_byte_nth unat_of_nat take_bit_eq_mod)

lemma opcode_rank_inject [simp]: "opcode_rank x = opcode_rank y \<longleftrightarrow> x = y"
proof
  assume eq: "opcode_rank x = opcode_rank y"
  consider "x \<in> set enumerators" "y \<in> set enumerators"
    | b where "x = IllegalOpcode b" | b where "y = IllegalOpcode b"
    using opcode_enumerated [of x] opcode_enumerated [of y] by blast
  then show "x = y"
  proof cases
    case 1
    with eq have "opcode_byte x = opcode_byte y"
      by (simp add: opcode_rank_enumerator unsigned_word_eqI)
    with 1 show ?thesis by (metis opcode_of_byte_opcode_byte)
  next
    case (2 b)
    with eq opcode_enumerated [of y] show ?thesis
      using opcode_byte_less [of y] by (auto simp: opcode_rank_enumerator) (auto simp: opcode_rank_def intro: unsigned_word_eqI)
  next
    case (3 b)
    with eq opcode_enumerated [of x] show ?thesis
      using opcode_byte_less [of x] by (auto simp: opcode_rank_enumerator) (auto simp: opcode_rank_def intro: unsigned_word_eqI)
  qed
qed simp

instantiation opcode :: equal
begin

definition equal_opcode :: "opcode \<Rightarrow> opcode \<Rightarrow> bool" where
  "equal_opcode x y \<longleftrightarrow> opcode_rank x = opcode_rank y"

instance
  by standard (simp add: equal_opcode_def)

end

instantiation opcode :: linorder
begin

definition less_eq_opcode :: "opcode \<Rightarrow> opcode \<Rightarrow> bool" where
  "less_eq_opcode x y \<longleftrightarrow> opcode_rank x \<le> opcode_rank y"

definition less_opcode :: "opcode \<Rightarrow> opcode \<Rightarrow> bool" where
  "less_opcode x y \<longleftrightarrow> opcode_rank x < opcode_rank y"

instance
  by standard (auto simp: less_eq_opcode_def less_opcode_def)

end

end
