(* ===== verification/State.thy ===== *)
theory State
  imports Tisc
begin

text \<open>
  The machine state (\<open>include/t81/vm/state.hpp\<close>, \<open>include/t81/vm/traps.hpp\<close>): traps,
  value tags, memory segments and layout, trace entries, trap payloads, the value pools,
  and the record \<open>State\<close> itself with its default value.
\<close>

section \<open>Traps and tags\<close>

text \<open>\<open>Trap::None\<close> is \<open>NoTrap\<close>.\<close>

datatype trap =
    NoTrap | DecodeFault | TypeFault | BoundsFault | StackFault | DivisionFault
  | SecurityFault | ShapeFault | TrapInstruction

fun trap_code :: "trap \<Rightarrow> int" where
  "trap_code NoTrap = 0"
| "trap_code DecodeFault = 1"
| "trap_code TypeFault = 2"
| "trap_code BoundsFault = 3"
| "trap_code StackFault = 4"
| "trap_code DivisionFault = 5"
| "trap_code SecurityFault = 6"
| "trap_code ShapeFault = 7"
| "trap_code TrapInstruction = 8"

fun trap_to_string :: "trap \<Rightarrow> string" where
  "trap_to_string NoTrap = ''None''"
| "trap_to_string DecodeFault = ''DecodeFault''"
| "trap_to_string TypeFault = ''TypeFault''"
| "trap_to_string BoundsFault = ''BoundsFault''"
| "trap_to_string StackFault = ''StackFault''"
| "trap_to_string DivisionFault = ''DivisionFault''"
| "trap_to_string SecurityFault = ''SecurityFault''"
| "trap_to_string ShapeFault = ''ShapeFault''"
| "trap_to_string TrapInstruction = ''TrapInstruction''"

datatype value_tag =
    IntTag | TensorHandle | ShapeHandle | WeightsTensorHandle | OptionHandle
  | ResultHandle | EnumHandle

fun tag_code :: "value_tag \<Rightarrow> nat" where
  "tag_code IntTag = 0"
| "tag_code TensorHandle = 1"
| "tag_code ShapeHandle = 2"
| "tag_code WeightsTensorHandle = 3"
| "tag_code OptionHandle = 4"
| "tag_code ResultHandle = 5"
| "tag_code EnumHandle = 6"

fun tag_to_string :: "value_tag \<Rightarrow> string" where
  "tag_to_string IntTag = ''Int''"
| "tag_to_string TensorHandle = ''TensorHandle''"
| "tag_to_string ShapeHandle = ''ShapeHandle''"
| "tag_to_string WeightsTensorHandle = ''WeightsTensorHandle''"
| "tag_to_string OptionHandle = ''OptionHandle''"
| "tag_to_string ResultHandle = ''ResultHandle''"
| "tag_to_string EnumHandle = ''EnumHandle''"

section \<open>Memory segments and layout\<close>

datatype segment_kind = UnknownSeg | CodeSeg | StackSeg | HeapSeg | TensorSeg | MetaSeg

fun segment_code :: "segment_kind \<Rightarrow> nat" where
  "segment_code UnknownSeg = 0"
| "segment_code CodeSeg = 1"
| "segment_code StackSeg = 2"
| "segment_code HeapSeg = 3"
| "segment_code TensorSeg = 4"
| "segment_code MetaSeg = 5"

fun segment_to_string :: "segment_kind \<Rightarrow> string" where
  "segment_to_string CodeSeg = ''code''"
| "segment_to_string StackSeg = ''stack''"
| "segment_to_string HeapSeg = ''heap''"
| "segment_to_string TensorSeg = ''tensor''"
| "segment_to_string MetaSeg = ''meta''"
| "segment_to_string UnknownSeg = ''unknown''"

record mem_segment =
  seg_start :: nat
  seg_limit :: nat

definition seg_valid :: "mem_segment \<Rightarrow> bool" where
  "seg_valid s \<longleftrightarrow> seg_limit s > seg_start s"

definition seg_contains :: "mem_segment \<Rightarrow> nat \<Rightarrow> bool" where
  "seg_contains s addr \<longleftrightarrow> seg_valid s \<and> addr \<ge> seg_start s \<and> addr < seg_limit s"

lemma seg_contains_iff: "seg_contains s addr \<longleftrightarrow> seg_start s \<le> addr \<and> addr < seg_limit s"
  by (auto simp: seg_contains_def seg_valid_def)

record mem_layout =
  code_seg :: mem_segment
  stack_seg :: mem_segment
  heap_seg :: mem_segment
  tensor_seg :: mem_segment
  meta_seg :: mem_segment

definition total_size :: "mem_layout \<Rightarrow> nat" where
  "total_size l = seg_limit (meta_seg l)"

section \<open>Values, traces, payloads\<close>

record flags =
  flag_zero :: bool
  flag_negative :: bool
  flag_positive :: bool

record axion_event =
  ev_opcode :: opcode
  ev_reason :: string

record policy =
  tier :: int

record option_value =
  ov_has_value :: bool
  ov_tag :: value_tag
  ov_payload :: i64

record result_value =
  rv_is_ok :: bool
  rv_tag :: value_tag
  rv_payload :: i64

record enum_value =
  en_variant_id :: i64
  en_has_payload :: bool
  en_tag :: value_tag
  en_payload :: i64

record tensor_value =
  shape :: "i64 list"
  tdata :: "i64 list"

record trace_entry =
  te_pc :: nat
  te_opcode :: opcode
  te_write_reg :: "nat option"
  te_write_value :: "i64 option"
  te_write_tag :: "value_tag option"
  te_trap :: "trap option"

record trap_payload =
  tp_trap :: trap
  tp_pc :: nat
  tp_opcode :: opcode
  tp_a :: i64
  tp_b :: i64
  tp_c :: i64
  tp_segment :: segment_kind
  tp_detail :: string

section \<open>The state\<close>

record state =
  pc :: nat
  halted :: bool
  registers :: "i64 list"
  register_tags :: "value_tag list"
  memory :: "i64 list"
  trace :: "trace_entry list"
  axion_log :: "axion_event list"
  flags_of :: flags
  layout :: mem_layout
  sp :: nat
  heap_ptr :: nat
  stack_frames :: "(nat \<times> nat) list"
  heap_frames :: "(nat \<times> nat) list"
  option_pool :: "option_value list"
  result_pool :: "result_value list"
  enum_pool :: "enum_value list"
  tensor_pool :: "tensor_value list"
  shape_pool :: "i64 list list"
  last_trap_payload :: "trap_payload option"
  policy_of :: "policy option"
  gc_cycles :: nat

text \<open>The vectors of frames grow at the end, as \<open>push_back\<close> does.\<close>

definition register_count :: nat where
  "register_count = 243"

definition default_segment :: mem_segment where
  "default_segment = \<lparr>seg_start = 0, seg_limit = 0\<rparr>"

definition default_state :: state where
  "default_state =
    \<lparr>pc = 0, halted = False, registers = replicate register_count 0,
     register_tags = replicate register_count IntTag, memory = [], trace = [],
     axion_log = [],
     flags_of = \<lparr>flag_zero = False, flag_negative = False, flag_positive = False\<rparr>,
     layout = \<lparr>code_seg = default_segment, stack_seg = default_segment,
       heap_seg = default_segment, tensor_seg = default_segment,
       meta_seg = default_segment\<rparr>,
     sp = 0, heap_ptr = 0, stack_frames = [], heap_frames = [], option_pool = [],
     result_pool = [], enum_pool = [], tensor_pool = [], shape_pool = [],
     last_trap_payload = None, policy_of = None, gc_cycles = 0\<rparr>"

lemma length_register_count [simp]: "register_count = 243"
  by (simp add: register_count_def)

text \<open>The codes are injective, so each code names one value.\<close>

lemma trap_code_inject [simp]: "trap_code s = trap_code t \<longleftrightarrow> s = t"
  by (cases s; cases t) simp_all

lemma tag_code_inject [simp]: "tag_code s = tag_code t \<longleftrightarrow> s = t"
  by (cases s; cases t) simp_all

lemma segment_code_inject [simp]: "segment_code s = segment_code t \<longleftrightarrow> s = t"
  by (cases s; cases t) simp_all

lemma trap_to_string_inject: "trap_to_string s = trap_to_string t \<longleftrightarrow> s = t"
  by (cases s; cases t) simp_all

lemma trap_code_nonneg: "0 \<le> trap_code t"
  by (cases t) simp_all

end
