(* ===== verification/Validator.thy ===== *)
theory Validator
  imports State
begin

text \<open>
  Static validation of a program before it runs (\<open>src/vm/validator.cpp\<close>): every opcode
  is an enumerator, every register operand an instruction uses names one of the 243
  registers, every static jump target is an instruction of the program.
\<close>

definition valid_reg :: "i64 \<Rightarrow> bool" where
  "valid_reg i \<longleftrightarrow> sint i \<ge> 0 \<and> unat i < register_count"

definition valid_opcode :: "opcode \<Rightarrow> bool" where
  "valid_opcode oc = (case oc of IllegalOpcode b \<Rightarrow> False | _ \<Rightarrow> True)"

text \<open>
  The operand check of one instruction in a program of \<open>n\<close> instructions, one arm per
  case label of the switch, in its order. The switch has no default: an illegal byte has
  already been refused.
\<close>

definition operands_ok :: "nat \<Rightarrow> insn \<Rightarrow> bool" where
  "operands_ok n i =
    (case opcode_of i of
     LoadImm \<Rightarrow> valid_reg (arg_a i)
     | Load \<Rightarrow> valid_reg (arg_a i)
     | Store \<Rightarrow> valid_reg (arg_b i)
     | Div \<Rightarrow> valid_reg (arg_a i) \<and> valid_reg (arg_b i) \<and> valid_reg (arg_c i)
     | Mod \<Rightarrow> valid_reg (arg_a i) \<and> valid_reg (arg_b i) \<and> valid_reg (arg_c i)
     | Add \<Rightarrow> valid_reg (arg_a i) \<and> valid_reg (arg_b i) \<and> valid_reg (arg_c i)
     | Sub \<Rightarrow> valid_reg (arg_a i) \<and> valid_reg (arg_b i) \<and> valid_reg (arg_c i)
     | Mul \<Rightarrow> valid_reg (arg_a i) \<and> valid_reg (arg_b i) \<and> valid_reg (arg_c i)
     | FAdd \<Rightarrow> valid_reg (arg_a i) \<and> valid_reg (arg_b i) \<and> valid_reg (arg_c i)
     | FSub \<Rightarrow> valid_reg (arg_a i) \<and> valid_reg (arg_b i) \<and> valid_reg (arg_c i)
     | FMul \<Rightarrow> valid_reg (arg_a i) \<and> valid_reg (arg_b i) \<and> valid_reg (arg_c i)
     | FDiv \<Rightarrow> valid_reg (arg_a i) \<and> valid_reg (arg_b i) \<and> valid_reg (arg_c i)
     | FracAdd \<Rightarrow> valid_reg (arg_a i) \<and> valid_reg (arg_b i) \<and> valid_reg (arg_c i)
     | FracSub \<Rightarrow> valid_reg (arg_a i) \<and> valid_reg (arg_b i) \<and> valid_reg (arg_c i)
     | FracMul \<Rightarrow> valid_reg (arg_a i) \<and> valid_reg (arg_b i) \<and> valid_reg (arg_c i)
     | FracDiv \<Rightarrow> valid_reg (arg_a i) \<and> valid_reg (arg_b i) \<and> valid_reg (arg_c i)
     | Less \<Rightarrow> valid_reg (arg_a i) \<and> valid_reg (arg_b i) \<and> valid_reg (arg_c i)
     | LessEqual \<Rightarrow> valid_reg (arg_a i) \<and> valid_reg (arg_b i) \<and> valid_reg (arg_c i)
     | Greater \<Rightarrow> valid_reg (arg_a i) \<and> valid_reg (arg_b i) \<and> valid_reg (arg_c i)
     | GreaterEqual \<Rightarrow> valid_reg (arg_a i) \<and> valid_reg (arg_b i) \<and> valid_reg (arg_c i)
     | Equal \<Rightarrow> valid_reg (arg_a i) \<and> valid_reg (arg_b i) \<and> valid_reg (arg_c i)
     | NotEqual \<Rightarrow> valid_reg (arg_a i) \<and> valid_reg (arg_b i) \<and> valid_reg (arg_c i)
     | TAnd \<Rightarrow> valid_reg (arg_a i) \<and> valid_reg (arg_b i) \<and> valid_reg (arg_c i)
     | TOr \<Rightarrow> valid_reg (arg_a i) \<and> valid_reg (arg_b i) \<and> valid_reg (arg_c i)
     | TXor \<Rightarrow> valid_reg (arg_a i) \<and> valid_reg (arg_b i) \<and> valid_reg (arg_c i)
     | TVecAdd \<Rightarrow> valid_reg (arg_a i) \<and> valid_reg (arg_b i) \<and> valid_reg (arg_c i)
     | TMatMul \<Rightarrow> valid_reg (arg_a i) \<and> valid_reg (arg_b i) \<and> valid_reg (arg_c i)
     | TTenDot \<Rightarrow> valid_reg (arg_a i) \<and> valid_reg (arg_b i) \<and> valid_reg (arg_c i)
     | TVecMul \<Rightarrow> valid_reg (arg_a i) \<and> valid_reg (arg_b i) \<and> valid_reg (arg_c i)
     | ChkShape \<Rightarrow> valid_reg (arg_a i) \<and> valid_reg (arg_b i) \<and> valid_reg (arg_c i)
     | MakeOptionSome \<Rightarrow> valid_reg (arg_a i) \<and> valid_reg (arg_b i)
     | MakeResultOk \<Rightarrow> valid_reg (arg_a i) \<and> valid_reg (arg_b i)
     | MakeResultErr \<Rightarrow> valid_reg (arg_a i) \<and> valid_reg (arg_b i)
     | OptionIsSome \<Rightarrow> valid_reg (arg_a i) \<and> valid_reg (arg_b i)
     | OptionUnwrap \<Rightarrow> valid_reg (arg_a i) \<and> valid_reg (arg_b i)
     | ResultIsOk \<Rightarrow> valid_reg (arg_a i) \<and> valid_reg (arg_b i)
     | ResultUnwrapOk \<Rightarrow> valid_reg (arg_a i) \<and> valid_reg (arg_b i)
     | ResultUnwrapErr \<Rightarrow> valid_reg (arg_a i) \<and> valid_reg (arg_b i)
     | MakeEnumVariantPayload \<Rightarrow> valid_reg (arg_a i) \<and> valid_reg (arg_b i)
     | EnumIsVariant \<Rightarrow> valid_reg (arg_a i) \<and> valid_reg (arg_b i)
     | EnumUnwrapPayload \<Rightarrow> valid_reg (arg_a i) \<and> valid_reg (arg_b i)
     | TTranspose \<Rightarrow> valid_reg (arg_a i) \<and> valid_reg (arg_b i)
     | TExp \<Rightarrow> valid_reg (arg_a i) \<and> valid_reg (arg_b i)
     | TSqrt \<Rightarrow> valid_reg (arg_a i) \<and> valid_reg (arg_b i)
     | TSiLU \<Rightarrow> valid_reg (arg_a i) \<and> valid_reg (arg_b i)
     | TSoftmax \<Rightarrow> valid_reg (arg_a i) \<and> valid_reg (arg_b i)
     | TRMSNorm \<Rightarrow> valid_reg (arg_a i) \<and> valid_reg (arg_b i)
     | TRoPE \<Rightarrow> valid_reg (arg_a i) \<and> valid_reg (arg_b i)
     | TNot \<Rightarrow> valid_reg (arg_a i) \<and> valid_reg (arg_b i)
     | Cmp \<Rightarrow> valid_reg (arg_a i) \<and> valid_reg (arg_b i)
     | Mov \<Rightarrow> valid_reg (arg_a i) \<and> valid_reg (arg_b i)
     | Inc \<Rightarrow> valid_reg (arg_a i)
     | Dec \<Rightarrow> valid_reg (arg_a i)
     | Push \<Rightarrow> valid_reg (arg_a i)
     | Pop \<Rightarrow> valid_reg (arg_a i)
     | Neg \<Rightarrow> valid_reg (arg_a i)
     | Call \<Rightarrow> valid_reg (arg_a i)
     | I2F \<Rightarrow> valid_reg (arg_a i)
     | F2I \<Rightarrow> valid_reg (arg_a i)
     | I2Frac \<Rightarrow> valid_reg (arg_a i)
     | Frac2I \<Rightarrow> valid_reg (arg_a i)
     | StackAlloc \<Rightarrow> valid_reg (arg_a i)
     | StackFree \<Rightarrow> valid_reg (arg_a i)
     | HeapAlloc \<Rightarrow> valid_reg (arg_a i)
     | HeapFree \<Rightarrow> valid_reg (arg_a i)
     | MakeOptionNone \<Rightarrow> valid_reg (arg_a i)
     | MakeEnumVariant \<Rightarrow> valid_reg (arg_a i)
     | AxRead \<Rightarrow> valid_reg (arg_a i)
     | AxVerify \<Rightarrow> valid_reg (arg_a i)
     | WeightsLoad \<Rightarrow> valid_reg (arg_a i)
     | AxSet \<Rightarrow> valid_reg (arg_a i) \<and> valid_reg (arg_b i)
     | SetF \<Rightarrow> valid_reg (arg_a i) \<and> valid_reg (arg_b i)
     | Jump \<Rightarrow> \<not> (sint (arg_a i) < 0 \<or> unat (arg_a i) \<ge> n)
     | JumpIfZero \<Rightarrow> \<not> (sint (arg_a i) < 0 \<or> unat (arg_a i) \<ge> n)
     | JumpIfNotZero \<Rightarrow> \<not> (sint (arg_a i) < 0 \<or> unat (arg_a i) \<ge> n)
     | JumpIfNegative \<Rightarrow> \<not> (sint (arg_a i) < 0 \<or> unat (arg_a i) \<ge> n)
     | JumpIfPositive \<Rightarrow> \<not> (sint (arg_a i) < 0 \<or> unat (arg_a i) \<ge> n)
     | Nop \<Rightarrow> True
     | Halt \<Rightarrow> True
     | Ret \<Rightarrow> True
     | Trap \<Rightarrow> True
     | IllegalOpcode b \<Rightarrow> True)"

definition validate_insn :: "nat \<Rightarrow> insn \<Rightarrow> trap option" where
  "validate_insn n i =
     (if \<not> valid_opcode (opcode_of i) then Some DecodeFault
      else if \<not> operands_ok n i then Some DecodeFault
      else None)"

fun validate_insns :: "nat \<Rightarrow> insn list \<Rightarrow> trap option" where
  "validate_insns n [] = None"
| "validate_insns n (i # is) =
     (case validate_insn n i of Some t \<Rightarrow> Some t | None \<Rightarrow> validate_insns n is)"

definition validate_program :: "program \<Rightarrow> trap option" where
  "validate_program p = validate_insns (length (insns p)) (insns p)"

section \<open>Characterisation\<close>

definition insn_ok :: "nat \<Rightarrow> insn \<Rightarrow> bool" where
  "insn_ok n i \<longleftrightarrow> valid_opcode (opcode_of i) \<and> operands_ok n i"

lemma valid_opcode_iff: "valid_opcode oc \<longleftrightarrow> oc \<in> set enumerators"
  by (cases oc) (simp_all add: valid_opcode_def enumerators_def)

lemma validate_insn_None [simp]: "validate_insn n i = None \<longleftrightarrow> insn_ok n i"
  by (simp add: validate_insn_def insn_ok_def)

lemma validate_insn_Some: "validate_insn n i = Some t \<longleftrightarrow> \<not> insn_ok n i \<and> t = DecodeFault"
  by (auto simp: validate_insn_def insn_ok_def)

lemma validate_insns_None [simp]: "validate_insns n is = None \<longleftrightarrow> list_all (insn_ok n) is"
  by (induction "is") (auto simp: validate_insn_Some split: option.splits)

lemma validate_insns_Some:
  "validate_insns n is = Some t \<longleftrightarrow> \<not> list_all (insn_ok n) is \<and> t = DecodeFault"
  by (induction "is") (auto simp: validate_insn_Some split: option.splits)

lemma validate_program_None:
  "validate_program p = None \<longleftrightarrow> list_all (insn_ok (length (insns p))) (insns p)"
  by (simp add: validate_program_def)

lemma validate_program_Some:
  "validate_program p = Some t \<longleftrightarrow>
     \<not> list_all (insn_ok (length (insns p))) (insns p) \<and> t = DecodeFault"
  by (simp add: validate_program_def validate_insns_Some)

lemma validate_program_eval:
  "validate_program p =
     (if list_all (insn_ok (length (insns p))) (insns p) then None else Some DecodeFault)"
  by (simp add: validate_program_None validate_program_Some)

lemmas insn_ok_eval = insn_ok_def valid_opcode_def operands_ok_def valid_reg_def

lemma valid_reg_less: "valid_reg x \<Longrightarrow> unat x < 243"
  by (simp add: valid_reg_def)

end
