(* ===== verification/Cxx_Text.thy ===== *)
theory Cxx_Text
  imports Prelude
begin

text \<open>
  The text facilities of the C++ standard library that the loaders, the summary and the
  command line use, in the C locale: character classes, \<open>std::to_string\<close>,
  \<open>std::stoi\<close>, \<open>std::stoll\<close>, \<open>std::stoull\<close>, formatted extraction of integers and words
  from a stream, \<open>std::getline\<close>, \<open>std::string::find\<close>, and a backtracking matcher for the
  fragment of ECMAScript regular expressions that occurs in the source (characters,
  optional characters, greedy classes, one capture group), with the leftmost match of
  \<open>std::regex_search\<close>.
\<close>

section \<open>Characters\<close>

abbreviation code :: "char \<Rightarrow> nat" where "code c \<equiv> of_char c"

definition isspace :: "char \<Rightarrow> bool" where
  "isspace c \<longleftrightarrow> code c = 32 \<or> 9 \<le> code c \<and> code c \<le> 13"

definition isdigit :: "char \<Rightarrow> bool" where
  "isdigit c \<longleftrightarrow> 48 \<le> code c \<and> code c \<le> 57"

definition toupper :: "char \<Rightarrow> char" where
  "toupper c = (if 97 \<le> code c \<and> code c \<le> 122 then char_of (code c - 32) else c)"

definition newline :: char where
  "newline = char_of (10 :: nat)"

section \<open>Printing integers\<close>

definition digit_char :: "nat \<Rightarrow> char" where
  "digit_char d = char_of (48 + d)"

fun show_nat :: "nat \<Rightarrow> string" where
  "show_nat n = (if n < 10 then [digit_char n]
                 else show_nat (n div 10) @ [digit_char (n mod 10)])"

declare show_nat.simps [simp del]

definition show_int :: "int \<Rightarrow> string" where
  "show_int z = (if z < 0 then CHR ''-'' # show_nat (nat (- z)) else show_nat (nat z))"

section \<open>Reading integers\<close>

fun digits_value :: "nat \<Rightarrow> string \<Rightarrow> nat" where
  "digits_value v [] = v"
| "digits_value v (c # cs) = digits_value (10 * v + (code c - 48)) cs"

definition take_sign :: "string \<Rightarrow> bool \<times> string" where
  "take_sign s = (case s of
      [] \<Rightarrow> (False, [])
    | c # cs \<Rightarrow> if c = CHR ''-'' then (True, cs) else if c = CHR ''+'' then (False, cs)
               else (False, s))"

text \<open>White space, an optional sign, the longest run of digits, and what follows.\<close>

definition scan_int :: "string \<Rightarrow> bool \<times> string \<times> string" where
  "scan_int s = (let (neg, u) = take_sign (dropWhile isspace s)
                 in (neg, takeWhile isdigit u, dropWhile isdigit u))"

definition signed_value :: "bool \<Rightarrow> string \<Rightarrow> int" where
  "signed_value neg ds = (if neg then - int (digits_value 0 ds) else int (digits_value 0 ds))"

definition stoi :: "string \<Rightarrow> hazard + int" where
  "stoi s = (let (neg, ds, rest) = scan_int s; v = signed_value neg ds
             in if ds = [] then Inl InvalidArgument
                else if - (2 ^ 31) \<le> v \<and> v < 2 ^ 31 then Inr v else Inl OutOfRange)"

definition stoll :: "string \<Rightarrow> hazard + i64" where
  "stoll s = (let (neg, ds, rest) = scan_int s; v = signed_value neg ds
              in if ds = [] then Inl InvalidArgument
                 else if int64_fits v then Inr (word_of_int v) else Inl OutOfRange)"

text \<open>A minus sign negates the unsigned result modulo \<open>2 ^ 64\<close>.\<close>

definition stoull :: "string \<Rightarrow> hazard + u64" where
  "stoull s = (let (neg, ds, rest) = scan_int s; n = digits_value 0 ds
               in if ds = [] then Inl InvalidArgument
                  else if n < 2 ^ 64 then Inr (if neg then - of_nat n else of_nat n)
                  else Inl OutOfRange)"

text \<open>
  \<open>iss >> v\<close> for a signed 64-bit variable that holds \<open>v0\<close>. A stream is its remaining
  characters and whether an extraction has failed; a failed stream leaves the variable
  alone; no digits store \<open>0\<close> and fail; a value out of range stores the nearest limit
  and fails.
\<close>

type_synonym istream = "string \<times> bool"

definition extract_i64 :: "istream \<Rightarrow> i64 \<Rightarrow> i64 \<times> istream" where
  "extract_i64 st v0 =
     (case st of (s, failed) \<Rightarrow>
        if failed then (v0, s, True)
        else (let (neg, ds, rest) = scan_int s; v = signed_value neg ds
              in if ds = [] then (0, rest, True)
                 else if int64_fits v then (word_of_int v, rest, False)
                 else (if v < 0 then word_of_int (- (2 ^ 63)) else word_of_int (2 ^ 63 - 1),
                       rest, True)))"

definition extract_word :: "string \<Rightarrow> string \<times> string" where
  "extract_word s = (let t = dropWhile isspace s
                     in (takeWhile (\<lambda>c. \<not> isspace c) t, dropWhile (\<lambda>c. \<not> isspace c) t))"

section \<open>Lines and substrings\<close>

text \<open>The lines \<open>std::getline\<close> delivers: no final empty line after a last newline.\<close>

function getlines :: "string \<Rightarrow> string list" where
  "getlines s = (if s = [] then []
                 else takeWhile (\<lambda>c. c \<noteq> newline) s
                      # getlines (drop 1 (dropWhile (\<lambda>c. c \<noteq> newline) s)))"
  by pat_completeness auto
termination
proof (relation "measure length", simp, simp)
  fix s :: string
  assume "s \<noteq> []"
  moreover have "length (dropWhile (\<lambda>c. c \<noteq> newline) s) \<le> length s"
    by (rule length_dropWhile_le)
  ultimately show "length (dropWhile (\<lambda>c. c \<noteq> newline) s) - Suc 0 < length s"
    by (cases s) auto
qed

declare getlines.simps [simp del]

fun find_sub :: "string \<Rightarrow> string \<Rightarrow> nat option" where
  "find_sub pat [] = (if pat = [] then Some 0 else None)"
| "find_sub pat (c # cs) =
     (if take (length pat) (c # cs) = pat then Some 0 else map_option Suc (find_sub pat cs))"

fun find_char :: "char \<Rightarrow> string \<Rightarrow> nat option" where
  "find_char x [] = None"
| "find_char x (c # cs) = (if c = x then Some 0 else map_option Suc (find_char x cs))"

section \<open>Regular expressions\<close>

datatype re_item =
    RChar char                      \<comment> \<open>the character\<close>
  | ROpt char                       \<comment> \<open>the character, or nothing\<close>
  | RStar "char \<Rightarrow> bool"           \<comment> \<open>zero or more of a class, greedy\<close>
  | RPlus "char \<Rightarrow> bool"           \<comment> \<open>one or more of a class, greedy\<close>
  | RBeg                            \<comment> \<open>start of the capture group\<close>
  | REnd                            \<comment> \<open>end of the capture group\<close>

definition feed :: "string option \<Rightarrow> char \<Rightarrow> string option" where
  "feed g c = map_option (\<lambda>cap. cap @ [c]) g"

text \<open>
  \<open>re_match is s g r\<close> matches the items at the start of \<open>s\<close>; \<open>g\<close> is the text of the
  open group, \<open>r\<close> that of the closed one. The result is the captured text.
\<close>

fun re_match :: "re_item list \<Rightarrow> string \<Rightarrow> string option \<Rightarrow> string \<Rightarrow> string option" where
  "re_match [] s g r = Some r"
| "re_match (RBeg # is) s g r = re_match is s (Some []) r"
| "re_match (REnd # is) s g r = re_match is s None (case g of Some cap \<Rightarrow> cap | None \<Rightarrow> r)"
| "re_match (RChar c # is) [] g r = None"
| "re_match (RChar c # is) (x # xs) g r =
     (if x = c then re_match is xs (feed g x) r else None)"
| "re_match (ROpt c # is) [] g r = re_match is [] g r"
| "re_match (ROpt c # is) (x # xs) g r =
     (if x = c then (case re_match is xs (feed g x) r of
          Some res \<Rightarrow> Some res | None \<Rightarrow> re_match is (x # xs) g r)
      else re_match is (x # xs) g r)"
| "re_match (RStar p # is) [] g r = re_match is [] g r"
| "re_match (RStar p # is) (x # xs) g r =
     (if p x then (case re_match (RStar p # is) xs (feed g x) r of
          Some res \<Rightarrow> Some res | None \<Rightarrow> re_match is (x # xs) g r)
      else re_match is (x # xs) g r)"
| "re_match (RPlus p # is) [] g r = None"
| "re_match (RPlus p # is) (x # xs) g r =
     (if p x then re_match (RStar p # is) xs (feed g x) r else None)"

fun re_search :: "re_item list \<Rightarrow> string \<Rightarrow> string option" where
  "re_search is [] = re_match is [] None []"
| "re_search is (x # xs) =
     (case re_match is (x # xs) None [] of Some res \<Rightarrow> Some res | None \<Rightarrow> re_search is xs)"

end
