(* ===== verification/Loader.thy ===== *)
theory Loader
  imports Validator Cxx_Text
begin

text \<open>
  Building the initial state from a program (\<open>src/vm/loader.cpp\<close>): the policy tier is
  read from the policy text with the expression \<open>\(tier\s+([0-9]+)\)\<close>, the five memory
  segments are laid out one after the other behind the code, and the validator's verdict
  becomes the preload trap.
\<close>

section \<open>Policy text\<close>

definition tier_re :: "re_item list" where
  "tier_re = map RChar ''(tier'' @ [RPlus isspace, RBeg, RPlus isdigit, REnd, RChar (CHR '')'')]"

definition parse_policy :: "string \<Rightarrow> state \<Rightarrow> hazard + state" where
  "parse_policy text s =
     (case re_search tier_re text of
        None \<Rightarrow> Inr s
      | Some digits \<Rightarrow> ebind (stoi digits) (\<lambda>t. Inr (s\<lparr>policy_of := Some \<lparr>tier = t\<rparr>\<rparr>)))"

section \<open>Layout\<close>

definition default_stack_size :: nat where "default_stack_size = 256"
definition default_heap_size :: nat where "default_heap_size = 768"
definition default_tensor_size :: nat where "default_tensor_size = 256"
definition default_meta_size :: nat where "default_meta_size = 256"

definition initial_layout :: "nat \<Rightarrow> mem_layout" where
  "initial_layout n =
    (let code = \<lparr>seg_start = 0, seg_limit = n\<rparr>;
         stack = \<lparr>seg_start = seg_limit code, seg_limit = seg_limit code + default_stack_size\<rparr>;
         heap = \<lparr>seg_start = seg_limit stack, seg_limit = seg_limit stack + default_heap_size\<rparr>;
         tensor = \<lparr>seg_start = seg_limit heap, seg_limit = seg_limit heap + default_tensor_size\<rparr>;
         meta = \<lparr>seg_start = seg_limit tensor, seg_limit = seg_limit tensor + default_meta_size\<rparr>
     in \<lparr>code_seg = code, stack_seg = stack, heap_seg = heap, tensor_seg = tensor,
         meta_seg = meta\<rparr>)"

section \<open>The image\<close>

record loaded_program =
  lp_program :: program
  lp_initial_state :: state
  lp_preload_trap :: "trap option"

definition load_program_image :: "program \<Rightarrow> hazard + loaded_program" where
  "load_program_image p =
    (let lay = initial_layout (length (insns p));
         s = default_state\<lparr>layout := lay, memory := replicate (total_size lay) 0,
               sp := seg_limit (stack_seg lay), heap_ptr := seg_start (heap_seg lay)\<rparr>
     in ebind (parse_policy (axion_policy_text p) s)
          (\<lambda>s'. Inr \<lparr>lp_program = p, lp_initial_state = s',
                      lp_preload_trap = validate_program p\<rparr>))"

lemmas segment_sizes = default_stack_size_def default_heap_size_def default_tensor_size_def
  default_meta_size_def

text \<open>The layout in numbers; \<open>stack_base\<close> to \<open>meta_end\<close> name its boundaries.\<close>

lemma initial_layout_simps [simp]:
  "code_seg (initial_layout n) = \<lparr>seg_start = 0, seg_limit = n\<rparr>"
  "stack_seg (initial_layout n) = \<lparr>seg_start = n, seg_limit = n + 256\<rparr>"
  "heap_seg (initial_layout n) = \<lparr>seg_start = n + 256, seg_limit = n + 1024\<rparr>"
  "tensor_seg (initial_layout n) = \<lparr>seg_start = n + 1024, seg_limit = n + 1280\<rparr>"
  "meta_seg (initial_layout n) = \<lparr>seg_start = n + 1280, seg_limit = n + 1536\<rparr>"
  "total_size (initial_layout n) = n + 1536"
  by (simp_all add: initial_layout_def segment_sizes total_size_def)

lemma parse_policy_Inr:
  "parse_policy text s = Inr s' \<Longrightarrow> \<exists>po. s' = s\<lparr>policy_of := po\<rparr>"
  by (auto simp: parse_policy_def ebind_eq_Inr split: option.splits
      intro: exI [of _ "policy_of s"])

end
