(* ===== verification/Interpreter.thy ===== *)
theory Interpreter
  imports Loader
begin

text \<open>
  The interpreter object (class \<open>Interpreter\<close> of \<open>src/vm/vm.cpp\<close>): its fields, and the
  private helpers the instruction handlers call. A handler returns \<open>Inl h\<close> when the C++
  code would run into the hazard \<open>h\<close>, and otherwise the new object and the value of
  \<open>std::expected<void, Trap>\<close>: \<open>None\<close> for success, \<open>Some t\<close> for the trap \<open>t\<close>.
\<close>

record interp =
  prog :: program
  vm :: state
  preload_trap :: "trap option"
  steps :: nat
  call_stack :: "nat list"
  cur_write_reg :: "nat option"
  cur_write_value :: "i64 option"
  cur_write_tag :: "value_tag option"

type_synonym step_result = "hazard + interp \<times> trap option"

definition gc_interval :: nat where
  "gc_interval = 64"

abbreviation upd_vm :: "(state \<Rightarrow> state) \<Rightarrow> interp \<Rightarrow> interp" where
  "upd_vm f it \<equiv> it\<lparr>vm := f (vm it)\<rparr>"

section \<open>Registers and flags\<close>

definition reg :: "interp \<Rightarrow> nat \<Rightarrow> hazard + i64" where
  "reg it i = vread RegisterIndex (registers (vm it)) i"

definition reg_tag :: "interp \<Rightarrow> nat \<Rightarrow> hazard + value_tag" where
  "reg_tag it i = vread RegisterIndex (register_tags (vm it)) i"

definition put_reg :: "nat \<Rightarrow> i64 \<Rightarrow> interp \<Rightarrow> hazard + interp" where
  "put_reg i v it = ebind (vwrite RegisterIndex (registers (vm it)) i v)
     (\<lambda>rs. Inr (upd_vm (\<lambda>s. s\<lparr>registers := rs\<rparr>) it))"

definition put_tag :: "nat \<Rightarrow> value_tag \<Rightarrow> interp \<Rightarrow> hazard + interp" where
  "put_tag i t it = ebind (vwrite RegisterIndex (register_tags (vm it)) i t)
     (\<lambda>ts. Inr (upd_vm (\<lambda>s. s\<lparr>register_tags := ts\<rparr>) it))"

definition set_register_value :: "nat \<Rightarrow> i64 \<Rightarrow> value_tag \<Rightarrow> interp \<Rightarrow> hazard + interp" where
  "set_register_value i v t it =
     ebind (put_reg i v it) (\<lambda>it1. ebind (put_tag i t it1) (\<lambda>it2.
       Inr (it2\<lparr>cur_write_reg := Some i, cur_write_value := Some v, cur_write_tag := Some t\<rparr>)))"

definition set_flags :: "i64 \<Rightarrow> interp \<Rightarrow> interp" where
  "set_flags v = upd_vm (\<lambda>s. s\<lparr>flags_of :=
     \<lparr>flag_zero = (v = 0), flag_negative = (sint v < 0), flag_positive = (sint v > 0)\<rparr>\<rparr>)"

definition bump_pc :: "interp \<Rightarrow> interp" where
  "bump_pc = upd_vm (\<lambda>s. s\<lparr>pc := pc s + 1\<rparr>)"

definition set_pc :: "nat \<Rightarrow> interp \<Rightarrow> interp" where
  "set_pc n = upd_vm (\<lambda>s. s\<lparr>pc := n\<rparr>)"

section \<open>Memory\<close>

definition segment_of :: "mem_layout \<Rightarrow> nat \<Rightarrow> segment_kind" where
  "segment_of l addr =
     (if seg_contains (code_seg l) addr then CodeSeg
      else if seg_contains (stack_seg l) addr then StackSeg
      else if seg_contains (heap_seg l) addr then HeapSeg
      else if seg_contains (tensor_seg l) addr then TensorSeg
      else if seg_contains (meta_seg l) addr then MetaSeg
      else UnknownSeg)"

definition valid_mem :: "state \<Rightarrow> i64 \<Rightarrow> bool" where
  "valid_mem s i =
     (if sint i < 0 then False
      else if unat i \<ge> length (memory s) then False
      else segment_of (layout s) (unat i) \<noteq> UnknownSeg)"

definition mem_read :: "interp \<Rightarrow> nat \<Rightarrow> hazard + i64" where
  "mem_read it addr = vread MemoryIndex (memory (vm it)) addr"

definition mem_write :: "nat \<Rightarrow> i64 \<Rightarrow> interp \<Rightarrow> hazard + interp" where
  "mem_write addr v it = ebind (vwrite MemoryIndex (memory (vm it)) addr v)
     (\<lambda>m. Inr (upd_vm (\<lambda>s. s\<lparr>memory := m\<rparr>) it))"

text \<open>\<open>push_register\<close> and \<open>pop_register\<close> return \<open>None\<close> where the code returns \<open>false\<close>.\<close>

definition push_register :: "nat \<Rightarrow> interp \<Rightarrow> hazard + interp option" where
  "push_register i it =
     (let s = vm it in
      if sp s = 0 \<or> sp s - 1 < seg_start (stack_seg (layout s)) then Inr None
      else let it1 = upd_vm (\<lambda>s. s\<lparr>sp := sp s - 1\<rparr>) it in
        ebind (reg it1 i) (\<lambda>v. ebind (mem_write (sp (vm it1)) v it1) (\<lambda>it2. Inr (Some it2))))"

definition pop_register :: "nat \<Rightarrow> interp \<Rightarrow> hazard + interp option" where
  "pop_register i it =
     (let s = vm it in
      if sp s \<ge> seg_limit (stack_seg (layout s)) then Inr None
      else ebind (mem_read it (sp s)) (\<lambda>v. ebind (put_reg i v it) (\<lambda>it1.
        ebind (put_tag i IntTag it1) (\<lambda>it2.
          Inr (Some (upd_vm (\<lambda>s. s\<lparr>sp := sp s + 1\<rparr>) it2))))))"

section \<open>The event log\<close>

definition log_event :: "opcode \<Rightarrow> string \<Rightarrow> interp \<Rightarrow> interp" where
  "log_event oc reason =
     upd_vm (\<lambda>s. s\<lparr>axion_log := axion_log s @ [\<lparr>ev_opcode = oc, ev_reason = reason\<rparr>]\<rparr>)"

definition log_segment_event :: "opcode \<Rightarrow> segment_kind \<Rightarrow> interp \<Rightarrow> interp" where
  "log_segment_event oc kind it =
     (if kind = UnknownSeg then it
      else log_event oc (''segment access '' @ segment_to_string kind) it)"

definition log_bounds_fault :: "opcode \<Rightarrow> segment_kind \<Rightarrow> i64 \<Rightarrow> string \<Rightarrow> interp \<Rightarrow> interp" where
  "log_bounds_fault oc segment addr action it =
     log_event oc (''bounds fault segment='' @ segment_to_string segment @
       '' addr='' @ show_int (sint addr) @ '' action='' @ action) it"

definition axion_denied :: "state \<Rightarrow> bool" where
  "axion_denied s = (case policy_of s of None \<Rightarrow> False | Some p \<Rightarrow> tier p = 0)"

definition log_axion_guard ::
  "opcode \<Rightarrow> string \<Rightarrow> segment_kind \<Rightarrow> i64 \<Rightarrow> bool \<Rightarrow> i64 option \<Rightarrow> interp \<Rightarrow> interp" where
  "log_axion_guard oc label segment addr denied val it =
     log_event oc (label @ '' segment='' @ segment_to_string segment @
       '' addr='' @ show_int (sint addr) @
       (case val of None \<Rightarrow> [] | Some v \<Rightarrow> '' value='' @ show_int (sint v)) @
       (if denied then '' deny=tier0'' else '' allow'')) it"

section \<open>Traces and traps\<close>

definition current_opcode :: "interp \<Rightarrow> opcode" where
  "current_opcode it =
     (if pc (vm it) < length (insns (prog it)) then opcode_of (insns (prog it) ! pc (vm it))
      else Nop)"

definition push_trace :: "opcode \<Rightarrow> nat \<Rightarrow> trap option \<Rightarrow> interp \<Rightarrow> interp" where
  "push_trace oc pc0 t it = upd_vm (\<lambda>s. s\<lparr>trace := trace s @
     [\<lparr>te_pc = pc0, te_opcode = oc, te_write_reg = cur_write_reg it,
       te_write_value = cur_write_value it, te_write_tag = cur_write_tag it, te_trap = t\<rparr>]\<rparr>) it"

definition trace_ok :: "opcode \<Rightarrow> nat \<Rightarrow> interp \<Rightarrow> step_result" where
  "trace_ok oc pc0 it = Inr (push_trace oc pc0 None it, None)"

definition fault_operands :: "program \<Rightarrow> opcode \<Rightarrow> nat \<Rightarrow> i64 \<times> i64 \<times> i64" where
  "fault_operands p oc pc0 =
     (if pc0 < length (insns p) \<and> opcode_of (insns p ! pc0) = oc
      then (arg_a (insns p ! pc0), arg_b (insns p ! pc0), arg_c (insns p ! pc0))
      else (0, 0, 0))"

definition raise_trap ::
  "trap \<Rightarrow> opcode \<Rightarrow> nat \<Rightarrow> segment_kind \<Rightarrow> string \<Rightarrow> interp \<Rightarrow> step_result" where
  "raise_trap t oc pc0 segment detail it =
     (case fault_operands (prog it) oc pc0 of (a, b, c) \<Rightarrow>
        let it1 = upd_vm (\<lambda>s. s\<lparr>last_trap_payload := Some
              \<lparr>tp_trap = t, tp_pc = pc0, tp_opcode = oc, tp_a = a, tp_b = b, tp_c = c,
               tp_segment = segment, tp_detail = detail\<rparr>\<rparr>) it;
            it2 = push_trace oc pc0 (Some t) it1
        in Inr (it2\<lparr>preload_trap := None\<rparr>, Some t))"

abbreviation trap_plain :: "trap \<Rightarrow> opcode \<Rightarrow> nat \<Rightarrow> interp \<Rightarrow> step_result" where
  "trap_plain t oc pc0 it \<equiv> raise_trap t oc pc0 UnknownSeg [] it"

section \<open>The usual end of a handler\<close>

text \<open>\<open>++state_.pc; return trace_ok(insn.opcode, pc);\<close>\<close>

definition next_ok :: "opcode \<Rightarrow> nat \<Rightarrow> interp \<Rightarrow> step_result" where
  "next_ok oc pc0 it = trace_ok oc pc0 (bump_pc it)"

text \<open>
  \<open>set_register_value(insn.a, v, tag); set_flags(state_.registers[insn.a]);\<close> and the
  usual end.
\<close>

definition commit :: "insn \<Rightarrow> nat \<Rightarrow> i64 \<Rightarrow> value_tag \<Rightarrow> interp \<Rightarrow> step_result" where
  "commit i pc0 v tag it =
     ebind (set_register_value (idx_a i) v tag it) (\<lambda>it1.
     ebind (reg it1 (idx_a i)) (\<lambda>w.
       next_ok (opcode_of i) pc0 (set_flags w it1)))"

lemmas register_defs = reg_def reg_tag_def put_reg_def put_tag_def set_register_value_def

lemmas state_op_defs = set_flags_def bump_pc_def set_pc_def log_event_def
  log_segment_event_def log_bounds_fault_def log_axion_guard_def push_trace_def

declare state_op_defs [state_defs]

lemma reg_in [simp]: "i < length (registers (vm it)) \<Longrightarrow> reg it i = Inr (registers (vm it) ! i)"
  by (simp add: reg_def)

lemma reg_tag_in [simp]:
  "i < length (register_tags (vm it)) \<Longrightarrow> reg_tag it i = Inr (register_tags (vm it) ! i)"
  by (simp add: reg_tag_def)

lemma set_register_value_in [simp]:
  assumes "i < length (registers (vm it))" "i < length (register_tags (vm it))"
  shows "set_register_value i v t it =
    Inr (it\<lparr>vm := (vm it)\<lparr>registers := (registers (vm it))[i := v],
                         register_tags := (register_tags (vm it))[i := t]\<rparr>,
            cur_write_reg := Some i, cur_write_value := Some v, cur_write_tag := Some t\<rparr>)"
  using assms by (simp add: register_defs)

end
