(* ===== verification/Exec_Scalar.thy ===== *)
theory Exec_Scalar
  imports Interpreter
begin

text \<open>
  The scalar instructions of \<open>Interpreter::step\<close>: immediate loads, arithmetic, moves,
  increments, comparison, negation, balanced-ternary logic, conversions and relations.
  One definition per case group of the switch; \<open>i\<close> is the instruction and \<open>pc0\<close> the
  local \<open>pc\<close>.
\<close>

definition exec_load_imm :: "insn \<Rightarrow> nat \<Rightarrow> interp \<Rightarrow> step_result" where
  "exec_load_imm i pc0 it =
     ebind (set_register_value (idx_a i) (arg_b i) IntTag it) (\<lambda>it1.
       next_ok (opcode_of i) pc0 (set_flags (arg_b i) it1))"

definition is_division :: "opcode \<Rightarrow> bool" where
  "is_division oc \<longleftrightarrow> oc = Div \<or> oc = Mod \<or> oc = FDiv \<or> oc = FracDiv"

definition arith_result :: "opcode \<Rightarrow> i64 \<Rightarrow> i64 \<Rightarrow> hazard + i64" where
  "arith_result oc lhs rhs =
    (case oc of
       Add \<Rightarrow> sadd lhs rhs | FAdd \<Rightarrow> sadd lhs rhs | FracAdd \<Rightarrow> sadd lhs rhs
     | Sub \<Rightarrow> ssub lhs rhs | FSub \<Rightarrow> ssub lhs rhs | FracSub \<Rightarrow> ssub lhs rhs
     | Mul \<Rightarrow> smul lhs rhs | FMul \<Rightarrow> smul lhs rhs | FracMul \<Rightarrow> smul lhs rhs
     | Div \<Rightarrow> squot lhs rhs | FDiv \<Rightarrow> squot lhs rhs | FracDiv \<Rightarrow> squot lhs rhs
     | Mod \<Rightarrow> srem lhs rhs
     | _ \<Rightarrow> Inr 0)"

definition exec_arith :: "insn \<Rightarrow> nat \<Rightarrow> interp \<Rightarrow> step_result" where
  "exec_arith i pc0 it =
     ebind (reg it (idx_b i)) (\<lambda>lhs. ebind (reg it (idx_c i)) (\<lambda>rhs.
       if is_division (opcode_of i) \<and> rhs = 0
       then raise_trap DivisionFault (opcode_of i) pc0 UnknownSeg ''division by zero'' it
       else ebind (arith_result (opcode_of i) lhs rhs) (\<lambda>res.
         ebind (set_register_value (idx_a i) res IntTag it) (\<lambda>it1.
           next_ok (opcode_of i) pc0 (set_flags res it1)))))"

text \<open>\<open>Mov\<close>, and the conversions \<open>I2F\<close>, \<open>F2I\<close>, \<open>I2Frac\<close>, \<open>Frac2I\<close>, which are moves.\<close>

definition exec_mov :: "insn \<Rightarrow> nat \<Rightarrow> interp \<Rightarrow> step_result" where
  "exec_mov i pc0 it =
     ebind (reg it (idx_b i)) (\<lambda>v. ebind (reg_tag it (idx_b i)) (\<lambda>t. commit i pc0 v t it))"

definition exec_convert :: "insn \<Rightarrow> nat \<Rightarrow> interp \<Rightarrow> step_result" where
  "exec_convert i pc0 it =
     ebind (reg it (idx_b i)) (\<lambda>v. ebind (reg_tag it (idx_b i)) (\<lambda>t. commit i pc0 v t it))"

text \<open>\<open>Inc\<close> and \<open>Dec\<close> write the register directly and record no write in the trace.\<close>

definition exec_inc :: "insn \<Rightarrow> nat \<Rightarrow> interp \<Rightarrow> step_result" where
  "exec_inc i pc0 it =
     ebind (reg it (idx_a i)) (\<lambda>v. ebind (sadd v 1) (\<lambda>v'.
     ebind (put_reg (idx_a i) v' it) (\<lambda>it1. ebind (put_tag (idx_a i) IntTag it1) (\<lambda>it2.
     ebind (reg it2 (idx_a i)) (\<lambda>w. next_ok (opcode_of i) pc0 (set_flags w it2))))))"

definition exec_dec :: "insn \<Rightarrow> nat \<Rightarrow> interp \<Rightarrow> step_result" where
  "exec_dec i pc0 it =
     ebind (reg it (idx_a i)) (\<lambda>v. ebind (ssub v 1) (\<lambda>v'.
     ebind (put_reg (idx_a i) v' it) (\<lambda>it1. ebind (put_tag (idx_a i) IntTag it1) (\<lambda>it2.
     ebind (reg it2 (idx_a i)) (\<lambda>w. next_ok (opcode_of i) pc0 (set_flags w it2))))))"

definition exec_cmp :: "insn \<Rightarrow> nat \<Rightarrow> interp \<Rightarrow> step_result" where
  "exec_cmp i pc0 it =
     ebind (reg it (idx_a i)) (\<lambda>lhs. ebind (reg it (idx_b i)) (\<lambda>rhs.
     ebind (ssub lhs rhs) (\<lambda>d. next_ok (opcode_of i) pc0 (set_flags d it))))"

definition exec_neg :: "insn \<Rightarrow> nat \<Rightarrow> interp \<Rightarrow> step_result" where
  "exec_neg i pc0 it =
     ebind (reg it (idx_b i)) (\<lambda>v. ebind (sneg v) (\<lambda>v'. commit i pc0 v' IntTag it))"

section \<open>Balanced-ternary logic\<close>

definition clamp_trit :: "i64 \<Rightarrow> i64" where
  "clamp_trit v = (if sint v > 1 then 1 else if sint v < - 1 then - 1 else v)"

definition exec_tnot :: "insn \<Rightarrow> nat \<Rightarrow> interp \<Rightarrow> step_result" where
  "exec_tnot i pc0 it =
     ebind (reg it (idx_b i)) (\<lambda>v. ebind (sneg (clamp_trit v)) (\<lambda>t. commit i pc0 t IntTag it))"

definition trit_result :: "opcode \<Rightarrow> i64 \<Rightarrow> i64 \<Rightarrow> hazard + i64" where
  "trit_result oc lhs rhs =
     (if oc = TAnd then Inr (if sint lhs < sint rhs then lhs else rhs)
      else if oc = TOr then Inr (if sint lhs > sint rhs then lhs else rhs)
      else ebind (ssub lhs rhs) (\<lambda>d.
        let d1 = (if sint d > 1 then - 1 else d)
        in Inr (if sint d1 < - 1 then 1 else d1)))"

definition exec_trit :: "insn \<Rightarrow> nat \<Rightarrow> interp \<Rightarrow> step_result" where
  "exec_trit i pc0 it =
     ebind (reg it (idx_b i)) (\<lambda>l. ebind (reg it (idx_c i)) (\<lambda>r.
     ebind (trit_result (opcode_of i) (clamp_trit l) (clamp_trit r)) (\<lambda>res.
       commit i pc0 res IntTag it)))"

section \<open>Relations and scalar moves\<close>

definition relation_result :: "opcode \<Rightarrow> i64 \<Rightarrow> i64 \<Rightarrow> bool" where
  "relation_result oc lhs rhs =
    (case oc of
       Less \<Rightarrow> sint lhs < sint rhs
     | LessEqual \<Rightarrow> sint lhs \<le> sint rhs
     | Greater \<Rightarrow> sint lhs > sint rhs
     | GreaterEqual \<Rightarrow> sint lhs \<ge> sint rhs
     | Equal \<Rightarrow> lhs = rhs
     | NotEqual \<Rightarrow> lhs \<noteq> rhs
     | _ \<Rightarrow> False)"

definition exec_relation :: "insn \<Rightarrow> nat \<Rightarrow> interp \<Rightarrow> step_result" where
  "exec_relation i pc0 it =
     ebind (reg it (idx_b i)) (\<lambda>lhs. ebind (reg it (idx_c i)) (\<lambda>rhs.
       commit i pc0 (if relation_result (opcode_of i) lhs rhs then 1 else 0) IntTag it))"

definition exec_setf :: "insn \<Rightarrow> nat \<Rightarrow> interp \<Rightarrow> step_result" where
  "exec_setf i pc0 it =
     ebind (reg it (idx_b i)) (\<lambda>v. commit i pc0 v IntTag it)"

text \<open>The log entry goes between \<open>set_register_value\<close> and \<open>set_flags\<close>.\<close>

definition exec_weights_load :: "insn \<Rightarrow> nat \<Rightarrow> interp \<Rightarrow> step_result" where
  "exec_weights_load i pc0 it =
     ebind (if sint (arg_b i) > 0 then Inr (arg_b i) else sadd 1000 (of_nat pc0)) (\<lambda>handle.
     ebind (set_register_value (idx_a i) handle WeightsTensorHandle it) (\<lambda>it1.
       let it2 = log_event (opcode_of i) ''weights handle loaded'' it1
       in ebind (reg it2 (idx_a i)) (\<lambda>w. next_ok (opcode_of i) pc0 (set_flags w it2))))"

lemmas scalar_defs = exec_load_imm_def exec_arith_def exec_mov_def exec_convert_def
  exec_inc_def exec_dec_def exec_cmp_def exec_neg_def exec_tnot_def exec_trit_def
  exec_relation_def exec_setf_def exec_weights_load_def

declare scalar_defs [handler_defs]

end
