(* ===== verification/Exec_Control.thy ===== *)
theory Exec_Control
  imports Interpreter
begin

text \<open>
  Control flow: \<open>Nop\<close>, \<open>Halt\<close>, the jumps, \<open>Call\<close>, \<open>Ret\<close>, \<open>Trap\<close>, and the guarded
  Axion instructions of \<open>Interpreter::step\<close>.
\<close>

definition exec_halt :: "insn \<Rightarrow> nat \<Rightarrow> interp \<Rightarrow> step_result" where
  "exec_halt i pc0 it =
     next_ok (opcode_of i) pc0 (upd_vm (\<lambda>s. s\<lparr>halted := True, last_trap_payload := None\<rparr>) it)"

definition target_outside :: "interp \<Rightarrow> i64 \<Rightarrow> bool" where
  "target_outside it target \<longleftrightarrow> sint target < 0 \<or> unat target \<ge> length (insns (prog it))"

definition check_jump_target :: "insn \<Rightarrow> nat \<Rightarrow> i64 \<Rightarrow> interp \<Rightarrow> step_result" where
  "check_jump_target i pc0 target it =
     (if target_outside it target then trap_plain DecodeFault (opcode_of i) pc0 it
      else trace_ok (opcode_of i) pc0 (set_pc (unat target) it))"

definition jump_taken :: "opcode \<Rightarrow> flags \<Rightarrow> bool" where
  "jump_taken oc f =
    (case oc of
       JumpIfZero \<Rightarrow> flag_zero f
     | JumpIfNotZero \<Rightarrow> \<not> flag_zero f
     | JumpIfNegative \<Rightarrow> flag_negative f
     | JumpIfPositive \<Rightarrow> flag_positive f
     | _ \<Rightarrow> True)"

definition exec_jump :: "insn \<Rightarrow> nat \<Rightarrow> interp \<Rightarrow> step_result" where
  "exec_jump i pc0 it =
     (if jump_taken (opcode_of i) (flags_of (vm it)) then check_jump_target i pc0 (arg_a i) it
      else next_ok (opcode_of i) pc0 it)"

definition exec_call :: "insn \<Rightarrow> nat \<Rightarrow> interp \<Rightarrow> step_result" where
  "exec_call i pc0 it =
     ebind (reg it (idx_a i)) (\<lambda>target.
       if target_outside it target then trap_plain DecodeFault (opcode_of i) pc0 it
       else trace_ok (opcode_of i) pc0
              (set_pc (unat target) (it\<lparr>call_stack := call_stack it @ [pc0 + 1]\<rparr>)))"

definition exec_ret :: "insn \<Rightarrow> nat \<Rightarrow> interp \<Rightarrow> step_result" where
  "exec_ret i pc0 it =
     (if call_stack it = [] then trap_plain StackFault (opcode_of i) pc0 it
      else trace_ok (opcode_of i) pc0
             ((set_pc (last (call_stack it)) it)\<lparr>call_stack := butlast (call_stack it)\<rparr>))"

section \<open>Axion guards\<close>

definition guard_kind :: "interp \<Rightarrow> i64 \<Rightarrow> segment_kind" where
  "guard_kind it addr =
     (if sint addr \<ge> 0 then segment_of (layout (vm it)) (unat addr) else UnknownSeg)"

definition exec_ax_read :: "insn \<Rightarrow> nat \<Rightarrow> interp \<Rightarrow> step_result" where
  "exec_ax_read i pc0 it =
     (let addr = arg_b i; kind = guard_kind it addr; denied = axion_denied (vm it);
          it1 = log_axion_guard (opcode_of i) ''AxRead guard'' kind addr denied None it
      in if denied then raise_trap SecurityFault (opcode_of i) pc0 kind ''axion deny read'' it1
         else commit i pc0 (arg_b i) IntTag it1)"

definition exec_ax_set :: "insn \<Rightarrow> nat \<Rightarrow> interp \<Rightarrow> step_result" where
  "exec_ax_set i pc0 it =
     ebind (reg it (idx_b i)) (\<lambda>v. ebind (reg it (idx_a i)) (\<lambda>addr.
       let kind = guard_kind it addr; denied = axion_denied (vm it);
           it1 = log_axion_guard (opcode_of i) ''AxSet guard'' kind addr denied (Some v) it
       in if denied then raise_trap SecurityFault (opcode_of i) pc0 kind ''axion deny set'' it1
          else next_ok (opcode_of i) pc0 it1))"

definition exec_ax_verify :: "insn \<Rightarrow> nat \<Rightarrow> interp \<Rightarrow> step_result" where
  "exec_ax_verify i pc0 it =
     (let denied = axion_denied (vm it);
          it1 = log_axion_guard (opcode_of i) ''AxVerify guard'' MetaSeg (of_nat pc0) denied None it
      in if denied
         then raise_trap SecurityFault (opcode_of i) pc0 MetaSeg ''axion deny verify'' it1
         else commit i pc0 0 IntTag it1)"

lemmas control_defs = exec_halt_def check_jump_target_def exec_jump_def exec_call_def
  exec_ret_def exec_ax_read_def exec_ax_set_def exec_ax_verify_def

declare control_defs [handler_defs]

end
