(* ===== verification/Exec_Memory.thy ===== *)
theory Exec_Memory
  imports Interpreter
begin

text \<open>
  Memory instructions of \<open>Interpreter::step\<close>: \<open>Load\<close>, \<open>Store\<close>, \<open>Push\<close>, \<open>Pop\<close>, and the
  stack and heap frame allocators.
\<close>

definition exec_load :: "insn \<Rightarrow> nat \<Rightarrow> interp \<Rightarrow> step_result" where
  "exec_load i pc0 it =
     (if \<not> valid_mem (vm it) (arg_b i)
      then raise_trap BoundsFault (opcode_of i) pc0 UnknownSeg ''memory load''
             (log_bounds_fault (opcode_of i) UnknownSeg (arg_b i) ''memory load'' it)
      else ebind (mem_read it (idx_b i)) (\<lambda>v. commit i pc0 v IntTag it))"

definition exec_store :: "insn \<Rightarrow> nat \<Rightarrow> interp \<Rightarrow> step_result" where
  "exec_store i pc0 it =
     (if \<not> valid_mem (vm it) (arg_a i)
      then raise_trap BoundsFault (opcode_of i) pc0 UnknownSeg ''memory store''
             (log_bounds_fault (opcode_of i) UnknownSeg (arg_a i) ''memory store'' it)
      else ebind (reg it (idx_b i)) (\<lambda>v. ebind (mem_write (idx_a i) v it) (\<lambda>it1.
        next_ok (opcode_of i) pc0
          (log_segment_event (opcode_of i) (segment_of (layout (vm it1)) (idx_a i)) it1))))"

definition exec_push :: "insn \<Rightarrow> nat \<Rightarrow> interp \<Rightarrow> step_result" where
  "exec_push i pc0 it =
     ebind (push_register (idx_a i) it) (\<lambda>res. case res of
       None \<Rightarrow> raise_trap StackFault (opcode_of i) pc0 StackSeg ''stack push''
                 (log_bounds_fault (opcode_of i) StackSeg (of_nat (sp (vm it))) ''stack push'' it)
     | Some it1 \<Rightarrow> next_ok (opcode_of i) pc0 it1)"

definition exec_pop :: "insn \<Rightarrow> nat \<Rightarrow> interp \<Rightarrow> step_result" where
  "exec_pop i pc0 it =
     ebind (pop_register (idx_a i) it) (\<lambda>res. case res of
       None \<Rightarrow> raise_trap StackFault (opcode_of i) pc0 StackSeg ''stack pop''
                 (log_bounds_fault (opcode_of i) StackSeg (of_nat (sp (vm it))) ''stack pop'' it)
     | Some it1 \<Rightarrow> ebind (reg it1 (idx_a i)) (\<lambda>w.
         next_ok (opcode_of i) pc0 (set_flags w it1)))"

section \<open>Stack frames\<close>

definition exec_stack_alloc :: "insn \<Rightarrow> nat \<Rightarrow> interp \<Rightarrow> step_result" where
  "exec_stack_alloc i pc0 it =
     (let s = vm it; bytes = idx_b i in
      if sint (arg_b i) \<le> 0
      then raise_trap StackFault (opcode_of i) pc0 StackSeg ''invalid stack alloc size'' it
      else if bytes > sp s \<or> sp s - bytes < seg_start (stack_seg (layout s))
      then raise_trap StackFault (opcode_of i) pc0 StackSeg ''stack frame allocate''
             (log_bounds_fault (opcode_of i) StackSeg (arg_b i) ''stack frame allocate'' it)
      else ebind (set_register_value (idx_a i) (of_nat (sp s - bytes)) IntTag
             (upd_vm (\<lambda>s. s\<lparr>sp := sp s - bytes,
                stack_frames := stack_frames s @ [(sp s - bytes, bytes)]\<rparr>) it)) (\<lambda>it1.
        next_ok (opcode_of i) pc0 (log_event (opcode_of i) ''stack frame allocated'' it1)))"

definition requested_size :: "i64 \<Rightarrow> nat" where
  "requested_size b = (if sint b > 0 then unat b else 0)"

definition exec_stack_free :: "insn \<Rightarrow> nat \<Rightarrow> interp \<Rightarrow> step_result" where
  "exec_stack_free i pc0 it =
     (let s = vm it in
      if stack_frames s = []
      then raise_trap StackFault (opcode_of i) pc0 StackSeg ''stack frame free empty'' it
      else let top = last (stack_frames s) in
        ebind (reg it (idx_a i)) (\<lambda>v.
          if unat v \<noteq> fst top \<or> requested_size (arg_b i) \<noteq> snd top
          then raise_trap StackFault (opcode_of i) pc0 StackSeg ''stack frame free mismatch'' it
          else next_ok (opcode_of i) pc0 (log_event (opcode_of i) ''stack frame freed''
                 (upd_vm (\<lambda>s. s\<lparr>stack_frames := butlast (stack_frames s),
                                  sp := size_add (sp s) (snd top)\<rparr>) it))))"

section \<open>Heap blocks\<close>

definition exec_heap_alloc :: "insn \<Rightarrow> nat \<Rightarrow> interp \<Rightarrow> step_result" where
  "exec_heap_alloc i pc0 it =
     (let s = vm it; bytes = idx_b i in
      if sint (arg_b i) \<le> 0
      then raise_trap DecodeFault (opcode_of i) pc0 HeapSeg ''invalid heap alloc size'' it
      else if size_add (heap_ptr s) bytes > seg_limit (heap_seg (layout s))
      then raise_trap BoundsFault (opcode_of i) pc0 HeapSeg ''heap block allocate''
             (log_bounds_fault (opcode_of i) HeapSeg (arg_b i) ''heap block allocate'' it)
      else ebind (set_register_value (idx_a i) (of_nat (heap_ptr s)) IntTag
             (upd_vm (\<lambda>s. s\<lparr>heap_ptr := size_add (heap_ptr s) bytes,
                heap_frames := heap_frames s @ [(heap_ptr s, bytes)]\<rparr>) it)) (\<lambda>it1.
        next_ok (opcode_of i) pc0 (log_event (opcode_of i) ''heap block allocated'' it1)))"

definition exec_heap_free :: "insn \<Rightarrow> nat \<Rightarrow> interp \<Rightarrow> step_result" where
  "exec_heap_free i pc0 it =
     (let s = vm it in
      if heap_frames s = []
      then raise_trap DecodeFault (opcode_of i) pc0 HeapSeg ''heap block free empty'' it
      else let top = last (heap_frames s) in
        ebind (reg it (idx_a i)) (\<lambda>v.
          if unat v \<noteq> fst top \<or> requested_size (arg_b i) \<noteq> snd top
          then raise_trap DecodeFault (opcode_of i) pc0 HeapSeg ''heap block free mismatch'' it
          else next_ok (opcode_of i) pc0 (log_event (opcode_of i) ''heap block freed''
                 (upd_vm (\<lambda>s. s\<lparr>heap_frames := butlast (heap_frames s),
                                  heap_ptr := fst top\<rparr>) it))))"

lemmas memory_defs = exec_load_def exec_store_def exec_push_def exec_pop_def
  exec_stack_alloc_def exec_stack_free_def exec_heap_alloc_def exec_heap_free_def

declare memory_defs [handler_defs]

end
