(* ===== verification/Handle_Pool.thy ===== *)
theory Handle_Pool
  imports Interpreter
begin

text \<open>
  The value pools of the interpreter (\<open>intern_option\<close>, \<open>intern_result\<close>, \<open>intern_enum\<close>,
  \<open>intern_tensor\<close> and the \<open>*_ptr\<close> lookups of \<open>src/vm/vm.cpp\<close>), and the contract the
  instructions rely on, as the locale \<open>handle_pool\<close>: a handle resolves to the value it
  was issued for, for as long as the pool lives. Each pool of the model interprets it.
\<close>

section \<open>The pools of the interpreter\<close>

text \<open>A handle is a one-based index; \<open>None\<close> is \<open>nullptr\<close>.\<close>

definition pool_ptr :: "'v list \<Rightarrow> i64 \<Rightarrow> 'v option" where
  "pool_ptr pool h =
     (if sint h \<le> 0 \<or> unat h > length pool then None else Some (pool ! unat (h - 1)))"

definition intern_option :: "option_value \<Rightarrow> interp \<Rightarrow> i64 \<times> interp" where
  "intern_option v it =
     (let it1 = upd_vm (\<lambda>s. s\<lparr>option_pool := option_pool s @ [v]\<rparr>) it
      in (of_nat (length (option_pool (vm it1))), it1))"

definition intern_result :: "result_value \<Rightarrow> interp \<Rightarrow> i64 \<times> interp" where
  "intern_result v it =
     (let it1 = upd_vm (\<lambda>s. s\<lparr>result_pool := result_pool s @ [v]\<rparr>) it
      in (of_nat (length (result_pool (vm it1))), it1))"

definition intern_enum :: "enum_value \<Rightarrow> interp \<Rightarrow> i64 \<times> interp" where
  "intern_enum v it =
     (let it1 = upd_vm (\<lambda>s. s\<lparr>enum_pool := enum_pool s @ [v]\<rparr>) it
      in (of_nat (length (enum_pool (vm it1))), it1))"

definition intern_tensor :: "tensor_value \<Rightarrow> interp \<Rightarrow> i64 \<times> interp" where
  "intern_tensor v it =
     (let it1 = upd_vm (\<lambda>s. s\<lparr>tensor_pool := tensor_pool s @ [v]\<rparr>) it
      in (of_nat (length (tensor_pool (vm it1))), it1))"

definition option_ptr :: "interp \<Rightarrow> i64 \<Rightarrow> option_value option" where
  "option_ptr it h = pool_ptr (option_pool (vm it)) h"

definition result_ptr :: "interp \<Rightarrow> i64 \<Rightarrow> result_value option" where
  "result_ptr it h = pool_ptr (result_pool (vm it)) h"

definition enum_ptr :: "interp \<Rightarrow> i64 \<Rightarrow> enum_value option" where
  "enum_ptr it h = pool_ptr (enum_pool (vm it)) h"

definition tensor_ptr :: "interp \<Rightarrow> i64 \<Rightarrow> tensor_value option" where
  "tensor_ptr it h = pool_ptr (tensor_pool (vm it)) h"

definition shape_ptr :: "interp \<Rightarrow> i64 \<Rightarrow> i64 list option" where
  "shape_ptr it h = pool_ptr (shape_pool (vm it)) h"

lemmas intern_defs = intern_option_def intern_result_def intern_enum_def intern_tensor_def
lemmas ptr_defs = option_ptr_def result_ptr_def enum_ptr_def tensor_ptr_def shape_ptr_def

section \<open>Lookup in a growing vector\<close>

lemma unat_minus_one_handle:
  fixes h :: i64
  assumes "sint h > 0"
  shows "unat (h - 1) = unat h - 1" "0 < unat h"
proof -
  have "h \<noteq> 0" using assms by auto
  then show "0 < unat h" by (simp add: unat_gt_0)
  show "unat (h - 1) = unat h - 1"
    using \<open>h \<noteq> 0\<close> by (rule unat_minus_one)
qed

lemma pool_ptr_Some:
  "pool_ptr p h = Some v \<longleftrightarrow> sint h > 0 \<and> unat h \<le> length p \<and> v = p ! (unat h - 1)"
  by (auto simp: pool_ptr_def unat_minus_one_handle)

lemma pool_ptr_None: "pool_ptr p h = None \<longleftrightarrow> sint h \<le> 0 \<or> length p < unat h"
  by (auto simp: pool_ptr_def)

lemma pool_ptr_append: "pool_ptr p h = Some v \<Longrightarrow> pool_ptr (p @ q) h = Some v"
  using unat_minus_one_handle(2) [of h] by (auto simp: pool_ptr_Some nth_append)

lemma pool_ptr_fresh:
  assumes "length p < 2 ^ 63 - 1"
  shows "pool_ptr (p @ [v]) (of_nat (length (p @ [v]))) = Some v"
    and "pool_ptr p (of_nat (length (p @ [v]))) = None"
proof -
  let ?h = "of_nat (length (p @ [v])) :: i64"
  have s: "sint ?h = int (length p) + 1" using assms sint_of_nat_small [of "length (p @ [v])"] by simp
  have u: "unat ?h = length p + 1" using assms unat_of_nat_small [of "length (p @ [v])"] by simp
  show "pool_ptr (p @ [v]) ?h = Some v" unfolding pool_ptr_Some s u by (simp add: nth_append)
  show "pool_ptr p ?h = None" unfolding pool_ptr_None s u by simp
qed

section \<open>The contract\<close>

fun intern_all :: "('v \<Rightarrow> 's \<Rightarrow> i64 \<times> 's) \<Rightarrow> 'v list \<Rightarrow> 's \<Rightarrow> i64 list \<times> 's" where
  "intern_all intern [] s = ([], s)"
| "intern_all intern (v # vs) s =
     (case intern v s of (h, s1) \<Rightarrow>
        case intern_all intern vs s1 of (hs, s2) \<Rightarrow> (h # hs, s2))"

locale handle_pool =
  fixes intern :: "'v \<Rightarrow> 's \<Rightarrow> i64 \<times> 's"
    and lookup :: "'s \<Rightarrow> i64 \<Rightarrow> 'v option"
    and count :: "'s \<Rightarrow> nat"
  assumes resolves: "count s < 2 ^ 63 - 1 \<Longrightarrow> lookup (snd (intern v s)) (fst (intern v s)) = Some v"
    and unused: "count s < 2 ^ 63 - 1 \<Longrightarrow> lookup s (fst (intern v s)) = None"
    and keeps: "lookup s h = Some w \<Longrightarrow> lookup (snd (intern v s)) h = Some w"
    and grows: "count (snd (intern v s)) = Suc (count s)"
begin

lemma intern_all_keeps:
  "lookup s h = Some w \<Longrightarrow> lookup (snd (intern_all intern vs s)) h = Some w"
proof (induction vs arbitrary: s)
  case Nil
  then show ?case by simp
next
  case (Cons v vs)
  then have "lookup (snd (intern v s)) h = Some w" by (intro keeps)
  from Cons.IH [OF this] show ?case by (simp add: split_beta)
qed

lemma intern_all_fresh:
  "count s + length vs < 2 ^ 63 \<Longrightarrow> h \<in> set (fst (intern_all intern vs s)) \<Longrightarrow> lookup s h = None"
proof (induction vs arbitrary: s)
  case Nil
  then show ?case by simp
next
  case (Cons v vs)
  consider "h = fst (intern v s)" | "h \<in> set (fst (intern_all intern vs (snd (intern v s))))"
    using Cons.prems(2) by (auto simp: split_beta)
  then show ?case
  proof cases
    case 1
    with Cons.prems(1) show ?thesis by (simp add: unused)
  next
    case 2
    then have "lookup (snd (intern v s)) h = None"
      using Cons.prems(1) by (intro Cons.IH) (simp_all add: grows)
    then show ?thesis by (metis keeps not_None_eq)
  qed
qed

text \<open>However many values are interned, each handle keeps resolving to its own value.\<close>

lemma intern_all_resolves:
  "count s + length vs < 2 ^ 63 \<Longrightarrow> intern_all intern vs s = (hs, s') \<Longrightarrow>
     map (lookup s') hs = map Some vs \<and> distinct hs"
proof (induction vs arbitrary: s hs s')
  case Nil
  then show ?case by simp
next
  case (Cons v vs)
  obtain h s1 where i: "intern v s = (h, s1)" by (metis surj_pair)
  obtain hs1 where r: "intern_all intern vs s1 = (hs1, s')" and hs: "hs = h # hs1"
    using Cons.prems(2) i by (auto split: prod.splits)
  have bound: "count s1 + length vs < 2 ^ 63" using Cons.prems(1) grows [of v s] i by simp
  have h: "lookup s1 h = Some v" using resolves [of s v] i Cons.prems(1) by simp
  have "lookup s' h = Some v" using intern_all_keeps [OF h, of vs] r by simp
  moreover have "h \<notin> set hs1" using intern_all_fresh [OF bound, of h] r h by auto
  ultimately show ?case using Cons.IH [OF bound r] hs by simp
qed

end

section \<open>The interpreter's pools meet it\<close>

interpretation opt_pool: handle_pool intern_option option_ptr "\<lambda>it. length (option_pool (vm it))"
  using pool_ptr_fresh
  by unfold_locales (simp_all add: intern_defs ptr_defs Let_def pool_ptr_append)

interpretation res_pool: handle_pool intern_result result_ptr "\<lambda>it. length (result_pool (vm it))"
  using pool_ptr_fresh
  by unfold_locales (simp_all add: intern_defs ptr_defs Let_def pool_ptr_append)

interpretation enum_pool: handle_pool intern_enum enum_ptr "\<lambda>it. length (enum_pool (vm it))"
  using pool_ptr_fresh
  by unfold_locales (simp_all add: intern_defs ptr_defs Let_def pool_ptr_append)

interpretation tensor_pool: handle_pool intern_tensor tensor_ptr "\<lambda>it. length (tensor_pool (vm it))"
  using pool_ptr_fresh
  by unfold_locales (simp_all add: intern_defs ptr_defs Let_def pool_ptr_append)

end
