(* ===== verification/Exec_Values.thy ===== *)
theory Exec_Values
  imports Handle_Pool
begin

text \<open>
  The structured-value instructions of \<open>Interpreter::step\<close>: making, testing and
  unwrapping options, results and enum variants held in the value pools.
\<close>

section \<open>Options\<close>

definition exec_make_option_some :: "insn \<Rightarrow> nat \<Rightarrow> interp \<Rightarrow> step_result" where
  "exec_make_option_some i pc0 it =
     ebind (reg_tag it (idx_b i)) (\<lambda>t. ebind (reg it (idx_b i)) (\<lambda>v.
       case intern_option \<lparr>ov_has_value = True, ov_tag = t, ov_payload = v\<rparr> it of
         (handle, it1) \<Rightarrow> commit i pc0 handle OptionHandle it1))"

definition exec_make_option_none :: "insn \<Rightarrow> nat \<Rightarrow> interp \<Rightarrow> step_result" where
  "exec_make_option_none i pc0 it =
     (case intern_option \<lparr>ov_has_value = False, ov_tag = IntTag, ov_payload = 0\<rparr> it of
        (handle, it1) \<Rightarrow> commit i pc0 handle OptionHandle it1)"

definition exec_option_is_some :: "insn \<Rightarrow> nat \<Rightarrow> interp \<Rightarrow> step_result" where
  "exec_option_is_some i pc0 it =
     ebind (reg_tag it (idx_b i)) (\<lambda>t.
       if t \<noteq> OptionHandle then trap_plain TypeFault (opcode_of i) pc0 it
       else ebind (reg it (idx_b i)) (\<lambda>h. case option_ptr it h of
           None \<Rightarrow> trap_plain DecodeFault (opcode_of i) pc0 it
         | Some ov \<Rightarrow> commit i pc0 (if ov_has_value ov then 1 else 0) IntTag it))"

definition exec_option_unwrap :: "insn \<Rightarrow> nat \<Rightarrow> interp \<Rightarrow> step_result" where
  "exec_option_unwrap i pc0 it =
     ebind (reg_tag it (idx_b i)) (\<lambda>t.
       if t \<noteq> OptionHandle then trap_plain TypeFault (opcode_of i) pc0 it
       else ebind (reg it (idx_b i)) (\<lambda>h. case option_ptr it h of
           None \<Rightarrow> trap_plain DecodeFault (opcode_of i) pc0 it
         | Some ov \<Rightarrow>
             if \<not> ov_has_value ov then trap_plain DecodeFault (opcode_of i) pc0 it
             else commit i pc0 (ov_payload ov) (ov_tag ov) it))"

section \<open>Results\<close>

text \<open>\<open>MakeResultOk\<close> and \<open>MakeResultErr\<close> differ in \<open>ok\<close> only.\<close>

definition exec_make_result :: "bool \<Rightarrow> insn \<Rightarrow> nat \<Rightarrow> interp \<Rightarrow> step_result" where
  "exec_make_result ok i pc0 it =
     ebind (reg_tag it (idx_b i)) (\<lambda>t. ebind (reg it (idx_b i)) (\<lambda>v.
       case intern_result \<lparr>rv_is_ok = ok, rv_tag = t, rv_payload = v\<rparr> it of
         (handle, it1) \<Rightarrow> commit i pc0 handle ResultHandle it1))"

definition exec_result_is_ok :: "insn \<Rightarrow> nat \<Rightarrow> interp \<Rightarrow> step_result" where
  "exec_result_is_ok i pc0 it =
     ebind (reg_tag it (idx_b i)) (\<lambda>t.
       if t \<noteq> ResultHandle then trap_plain TypeFault (opcode_of i) pc0 it
       else ebind (reg it (idx_b i)) (\<lambda>h. case result_ptr it h of
           None \<Rightarrow> trap_plain DecodeFault (opcode_of i) pc0 it
         | Some rv \<Rightarrow> commit i pc0 (if rv_is_ok rv then 1 else 0) IntTag it))"

text \<open>\<open>ResultUnwrapOk\<close> wants \<open>is_ok\<close>, \<open>ResultUnwrapErr\<close> wants its negation.\<close>

definition exec_result_unwrap :: "bool \<Rightarrow> insn \<Rightarrow> nat \<Rightarrow> interp \<Rightarrow> step_result" where
  "exec_result_unwrap want_ok i pc0 it =
     ebind (reg_tag it (idx_b i)) (\<lambda>t.
       if t \<noteq> ResultHandle then trap_plain TypeFault (opcode_of i) pc0 it
       else ebind (reg it (idx_b i)) (\<lambda>h. case result_ptr it h of
           None \<Rightarrow> trap_plain DecodeFault (opcode_of i) pc0 it
         | Some rv \<Rightarrow>
             if rv_is_ok rv \<noteq> want_ok then trap_plain DecodeFault (opcode_of i) pc0 it
             else commit i pc0 (rv_payload rv) (rv_tag rv) it))"

section \<open>Enum variants\<close>

definition exec_make_enum_variant :: "insn \<Rightarrow> nat \<Rightarrow> interp \<Rightarrow> step_result" where
  "exec_make_enum_variant i pc0 it =
     (case intern_enum \<lparr>en_variant_id = arg_b i, en_has_payload = False, en_tag = IntTag,
                        en_payload = 0\<rparr> it of
        (handle, it1) \<Rightarrow> commit i pc0 handle EnumHandle it1)"

definition exec_make_enum_variant_payload :: "insn \<Rightarrow> nat \<Rightarrow> interp \<Rightarrow> step_result" where
  "exec_make_enum_variant_payload i pc0 it =
     (if sint (arg_c i) < 0 then trap_plain DecodeFault (opcode_of i) pc0 it
      else ebind (reg_tag it (idx_b i)) (\<lambda>t. ebind (reg it (idx_b i)) (\<lambda>v.
        case intern_enum \<lparr>en_variant_id = arg_c i, en_has_payload = True, en_tag = t,
                          en_payload = v\<rparr> it of
          (handle, it1) \<Rightarrow> commit i pc0 handle EnumHandle it1)))"

definition exec_enum_is_variant :: "insn \<Rightarrow> nat \<Rightarrow> interp \<Rightarrow> step_result" where
  "exec_enum_is_variant i pc0 it =
     ebind (reg_tag it (idx_b i)) (\<lambda>t.
       if t \<noteq> EnumHandle then trap_plain TypeFault (opcode_of i) pc0 it
       else ebind (reg it (idx_b i)) (\<lambda>h. case enum_ptr it h of
           None \<Rightarrow> trap_plain DecodeFault (opcode_of i) pc0 it
         | Some en \<Rightarrow> commit i pc0 (if en_variant_id en = arg_c i then 1 else 0) IntTag it))"

definition exec_enum_unwrap_payload :: "insn \<Rightarrow> nat \<Rightarrow> interp \<Rightarrow> step_result" where
  "exec_enum_unwrap_payload i pc0 it =
     ebind (reg_tag it (idx_b i)) (\<lambda>t.
       if t \<noteq> EnumHandle then trap_plain TypeFault (opcode_of i) pc0 it
       else ebind (reg it (idx_b i)) (\<lambda>h. case enum_ptr it h of
           None \<Rightarrow> trap_plain DecodeFault (opcode_of i) pc0 it
         | Some en \<Rightarrow>
             if \<not> en_has_payload en then trap_plain DecodeFault (opcode_of i) pc0 it
             else commit i pc0 (en_payload en) (en_tag en) it))"

lemmas value_defs = exec_make_option_some_def exec_make_option_none_def
  exec_option_is_some_def exec_option_unwrap_def exec_make_result_def exec_result_is_ok_def
  exec_result_unwrap_def exec_make_enum_variant_def exec_make_enum_variant_payload_def
  exec_enum_is_variant_def exec_enum_unwrap_payload_def

declare value_defs [handler_defs]

end
