(* ===== verification/Exec_Tensor.thy ===== *)
theory Exec_Tensor
  imports Handle_Pool
begin

text \<open>
  The tensor instructions of \<open>Interpreter::step\<close>. The integer kernels (elementwise
  sum and product, matrix product, dot product, transposition, rotation) are modelled
  with their index arithmetic and their overflow hazards. The kernels over \<open>double\<close>
  take the platform's floating point as a record of operations: the C++ standard fixes
  neither the format of \<open>double\<close> nor the accuracy of \<open>std::exp\<close>.
\<close>

record 'd fpu =
  f_of_int64 :: "i64 \<Rightarrow> 'd"      \<comment> \<open>\<open>static_cast<double>\<close> of an \<open>int64_t\<close>\<close>
  f_of_size :: "nat \<Rightarrow> 'd"       \<comment> \<open>\<open>static_cast<double>\<close> of a \<open>size_t\<close>\<close>
  f_lit :: "int \<Rightarrow> 'd"           \<comment> \<open>the literals \<open>0.0\<close>, \<open>1.0\<close>, \<open>1000.0\<close>\<close>
  f_add :: "'d \<Rightarrow> 'd \<Rightarrow> 'd"
  f_sub :: "'d \<Rightarrow> 'd \<Rightarrow> 'd"
  f_mul :: "'d \<Rightarrow> 'd \<Rightarrow> 'd"
  f_div :: "'d \<Rightarrow> 'd \<Rightarrow> 'd"
  f_neg :: "'d \<Rightarrow> 'd"
  f_exp :: "'d \<Rightarrow> 'd"
  f_sqrt :: "'d \<Rightarrow> 'd"
  f_eq :: "'d \<Rightarrow> 'd \<Rightarrow> bool"
  f_llround :: "'d \<Rightarrow> i64"

text \<open>
  A stand-in platform over the integers, for closed examples only: it is no model of IEEE
  arithmetic, and no statement about the tensor kernels rests on it.
\<close>

definition int_fpu :: "int fpu" where
  "int_fpu = \<lparr>f_of_int64 = sint, f_of_size = int, f_lit = id, f_add = (+), f_sub = (-),
     f_mul = (*), f_div = (\<lambda>x y. x sdiv y), f_neg = uminus,
     f_exp = (\<lambda>x. if x < 0 then 0 else 2 ^ nat x), f_sqrt = (\<lambda>x. x), f_eq = (=),
     f_llround = word_of_int\<rparr>"

section \<open>Integer kernels\<close>

definition tvec_kernel :: "opcode \<Rightarrow> i64 list \<Rightarrow> i64 list \<Rightarrow> hazard + i64 list" where
  "tvec_kernel oc l r =
     emap (\<lambda>(x, y). if oc = TVecAdd then sadd x y else smul x y) (zip l r)"

text \<open>The constructor of a \<open>std::vector\<close> of \<open>n\<close> 64-bit elements throws beyond \<open>max_size\<close>.\<close>

definition new_vector :: "nat \<Rightarrow> hazard + i64 list" where
  "new_vector n = (if n \<le> (2 ^ 63 - 1) div 8 then Inr (replicate n 0) else Inl LengthError)"

definition mat_cell :: "i64 list \<Rightarrow> i64 list \<Rightarrow> nat \<Rightarrow> nat \<Rightarrow> nat \<Rightarrow> nat \<Rightarrow> hazard + i64" where
  "mat_cell ld rd inner cols r c =
     efold (\<lambda>sum k.
       ebind (vread VectorIndex ld (size_add (size_mult r inner) k)) (\<lambda>x.
       ebind (vread VectorIndex rd (size_add (size_mult k cols) c)) (\<lambda>y.
       ebind (smul x y) (\<lambda>p. sadd sum p)))) 0 [0..<inner]"

definition matmul_kernel ::
  "i64 list \<Rightarrow> i64 list \<Rightarrow> nat \<Rightarrow> nat \<Rightarrow> nat \<Rightarrow> hazard + i64 list" where
  "matmul_kernel ld rd rows inner cols =
     ebind (new_vector (size_mult rows cols)) (\<lambda>out0.
       efold (\<lambda>out r. efold (\<lambda>out c.
           ebind (mat_cell ld rd inner cols r c) (\<lambda>sum.
             vwrite VectorIndex out (size_add (size_mult r cols) c) sum))
         out [0..<cols]) out0 [0..<rows])"

definition dot_kernel :: "i64 list \<Rightarrow> i64 list \<Rightarrow> hazard + i64" where
  "dot_kernel l r =
     efold (\<lambda>sum (x, y). ebind (smul x y) (\<lambda>p. sadd sum p)) 0 (zip l r)"

definition transpose_kernel :: "i64 list \<Rightarrow> nat \<Rightarrow> nat \<Rightarrow> hazard + i64 list" where
  "transpose_kernel d rows cols =
     efold (\<lambda>out r. efold (\<lambda>out c.
         ebind (vread VectorIndex d (size_add (size_mult r cols) c)) (\<lambda>x.
           vwrite VectorIndex out (size_add (size_mult c rows) r) x))
       out [0..<cols]) (replicate (length d) 0) [0..<rows]"

fun rope_kernel :: "i64 list \<Rightarrow> hazard + i64 list" where
  "rope_kernel (x # y # rest) =
     ebind (sneg x) (\<lambda>nx. ebind (rope_kernel rest) (\<lambda>out. Inr (y # nx # out)))"
| "rope_kernel xs = Inr xs"

section \<open>Floating-point kernels\<close>

definition clamp_exp :: "i64 \<Rightarrow> i64" where
  "clamp_exp v = (if sint v < - 20 then - 20 else if sint v > 20 then 20 else v)"

definition exp_kernel :: "'d fpu \<Rightarrow> i64 list \<Rightarrow> i64 list" where
  "exp_kernel F out = map (\<lambda>v. f_llround F (f_exp F (f_of_int64 F (clamp_exp v)))) out"

definition sqrt_kernel :: "'d fpu \<Rightarrow> i64 list \<Rightarrow> i64 list" where
  "sqrt_kernel F out =
     map (\<lambda>v. f_llround F (f_sqrt F (f_of_int64 F (if sint v < 0 then 0 else v)))) out"

definition silu_kernel :: "'d fpu \<Rightarrow> i64 list \<Rightarrow> i64 list" where
  "silu_kernel F out =
     map (\<lambda>v. let x = f_of_int64 F v;
                  sig = f_div F (f_lit F 1) (f_add F (f_lit F 1) (f_exp F (f_neg F x)))
              in f_llround F (f_mul F x sig)) out"

fun max_element :: "i64 \<Rightarrow> i64 list \<Rightarrow> i64" where
  "max_element m [] = m"
| "max_element m (x # xs) = max_element (if sint m < sint x then x else m) xs"

definition softmax_kernel :: "'d fpu \<Rightarrow> i64 list \<Rightarrow> i64 list option" where
  "softmax_kernel F out =
     (case out of [] \<Rightarrow> None
      | x # xs \<Rightarrow>
          let max_v = f_of_int64 F (max_element x xs);
              exps = map (\<lambda>v. f_exp F (f_sub F (f_of_int64 F v) max_v)) out;
              total = foldl (f_add F) (f_lit F 0) exps
          in if f_eq F total (f_lit F 0) then None
             else Some (map (\<lambda>e. f_llround F (f_mul F (f_div F e total) (f_lit F 1000))) exps))"

definition rmsnorm_kernel :: "'d fpu \<Rightarrow> i64 list \<Rightarrow> i64 list option" where
  "rmsnorm_kernel F out =
     (if out = [] then None
      else let sq = foldl (\<lambda>acc v. f_add F acc (f_mul F (f_of_int64 F v) (f_of_int64 F v)))
                      (f_lit F 0) out;
               rms = f_sqrt F (f_div F sq (f_of_size F (length out)))
           in if f_eq F rms (f_lit F 0) then Some (replicate (length out) 0)
              else Some (map (\<lambda>v. f_llround F (f_div F (f_of_int64 F v) rms)) out))"

text \<open>\<open>Inr None\<close> is a \<open>ShapeFault\<close>.\<close>

definition unary_kernel :: "'d fpu \<Rightarrow> opcode \<Rightarrow> i64 list \<Rightarrow> hazard + i64 list option" where
  "unary_kernel F oc out =
     (if oc = TExp then Inr (Some (exp_kernel F out))
      else if oc = TSqrt then Inr (Some (sqrt_kernel F out))
      else if oc = TSiLU then Inr (Some (silu_kernel F out))
      else if oc = TSoftmax then Inr (softmax_kernel F out)
      else if oc = TRMSNorm then Inr (rmsnorm_kernel F out)
      else if oc = TRoPE then
        (if length out mod 2 \<noteq> 0 then Inr None
         else ebind (rope_kernel out) (\<lambda>o'. Inr (Some o')))
      else Inr (Some out))"

section \<open>Instructions\<close>

definition commit_tensor :: "insn \<Rightarrow> nat \<Rightarrow> tensor_value \<Rightarrow> interp \<Rightarrow> step_result" where
  "commit_tensor i pc0 tv it =
     (case intern_tensor tv it of (handle, it1) \<Rightarrow> commit i pc0 handle TensorHandle it1)"

text \<open>Both operands must be tensor handles (\<open>TypeFault\<close>) that resolve (\<open>DecodeFault\<close>).\<close>

definition with_tensors ::
  "insn \<Rightarrow> nat \<Rightarrow> interp \<Rightarrow> (tensor_value \<Rightarrow> tensor_value \<Rightarrow> step_result) \<Rightarrow> step_result" where
  "with_tensors i pc0 it k =
     ebind (reg_tag it (idx_b i)) (\<lambda>tb.
       if tb \<noteq> TensorHandle then trap_plain TypeFault (opcode_of i) pc0 it
       else ebind (reg_tag it (idx_c i)) (\<lambda>tc.
       if tc \<noteq> TensorHandle then trap_plain TypeFault (opcode_of i) pc0 it
       else ebind (reg it (idx_b i)) (\<lambda>hb. ebind (reg it (idx_c i)) (\<lambda>hc.
         case tensor_ptr it hb of
           None \<Rightarrow> trap_plain DecodeFault (opcode_of i) pc0 it
         | Some l \<Rightarrow> (case tensor_ptr it hc of
             None \<Rightarrow> trap_plain DecodeFault (opcode_of i) pc0 it
           | Some r \<Rightarrow> k l r)))))"

definition exec_tvec :: "insn \<Rightarrow> nat \<Rightarrow> interp \<Rightarrow> step_result" where
  "exec_tvec i pc0 it = with_tensors i pc0 it (\<lambda>l r.
     if length (shape l) \<noteq> 1 \<or> length (shape r) \<noteq> 1 \<or> shape l \<noteq> shape r \<or>
        length (tdata l) \<noteq> length (tdata r)
     then trap_plain ShapeFault (opcode_of i) pc0 it
     else ebind (tvec_kernel (opcode_of i) (tdata l) (tdata r)) (\<lambda>out.
       commit_tensor i pc0 \<lparr>shape = shape l, tdata = out\<rparr> it))"

definition exec_tmatmul :: "insn \<Rightarrow> nat \<Rightarrow> interp \<Rightarrow> step_result" where
  "exec_tmatmul i pc0 it = with_tensors i pc0 it (\<lambda>l r.
     if length (shape l) \<noteq> 2 \<or> length (shape r) \<noteq> 2
     then trap_plain ShapeFault (opcode_of i) pc0 it
     else let rows = unat (shape l ! 0); inner = unat (shape l ! 1);
              rhs_inner = unat (shape r ! 0); cols = unat (shape r ! 1)
       in if inner \<noteq> rhs_inner \<or> length (tdata l) \<noteq> size_mult rows inner \<or>
             length (tdata r) \<noteq> size_mult rhs_inner cols
          then trap_plain ShapeFault (opcode_of i) pc0 it
          else ebind (matmul_kernel (tdata l) (tdata r) rows inner cols) (\<lambda>out.
            commit_tensor i pc0 \<lparr>shape = [of_nat rows, of_nat cols], tdata = out\<rparr> it))"

definition exec_ttendot :: "insn \<Rightarrow> nat \<Rightarrow> interp \<Rightarrow> step_result" where
  "exec_ttendot i pc0 it = with_tensors i pc0 it (\<lambda>l r.
     if length (tdata l) \<noteq> length (tdata r)
     then trap_plain ShapeFault (opcode_of i) pc0 it
     else ebind (dot_kernel (tdata l) (tdata r)) (\<lambda>sum.
       commit_tensor i pc0 \<lparr>shape = [1], tdata = [sum]\<rparr> it))"

definition with_tensor ::
  "insn \<Rightarrow> nat \<Rightarrow> interp \<Rightarrow> (tensor_value \<Rightarrow> step_result) \<Rightarrow> step_result" where
  "with_tensor i pc0 it k =
     ebind (reg_tag it (idx_b i)) (\<lambda>tb.
       if tb \<noteq> TensorHandle then trap_plain TypeFault (opcode_of i) pc0 it
       else ebind (reg it (idx_b i)) (\<lambda>hb. case tensor_ptr it hb of
           None \<Rightarrow> trap_plain DecodeFault (opcode_of i) pc0 it
         | Some x \<Rightarrow> k x))"

definition exec_ttranspose :: "insn \<Rightarrow> nat \<Rightarrow> interp \<Rightarrow> step_result" where
  "exec_ttranspose i pc0 it = with_tensor i pc0 it (\<lambda>x.
     if length (shape x) \<noteq> 2 then trap_plain ShapeFault (opcode_of i) pc0 it
     else let rows = unat (shape x ! 0); cols = unat (shape x ! 1)
       in if length (tdata x) \<noteq> size_mult rows cols
          then trap_plain ShapeFault (opcode_of i) pc0 it
          else ebind (transpose_kernel (tdata x) rows cols) (\<lambda>out.
            commit_tensor i pc0 \<lparr>shape = [of_nat cols, of_nat rows], tdata = out\<rparr> it))"

definition exec_tunary :: "'d fpu \<Rightarrow> insn \<Rightarrow> nat \<Rightarrow> interp \<Rightarrow> step_result" where
  "exec_tunary F i pc0 it = with_tensor i pc0 it (\<lambda>x.
     ebind (unary_kernel F (opcode_of i) (tdata x)) (\<lambda>res. case res of
         None \<Rightarrow> trap_plain ShapeFault (opcode_of i) pc0 it
       | Some out \<Rightarrow> commit_tensor i pc0 \<lparr>shape = shape x, tdata = out\<rparr> it))"

definition exec_chk_shape :: "insn \<Rightarrow> nat \<Rightarrow> interp \<Rightarrow> step_result" where
  "exec_chk_shape i pc0 it =
     ebind (reg_tag it (idx_b i)) (\<lambda>tb.
       if tb \<noteq> TensorHandle then trap_plain TypeFault (opcode_of i) pc0 it
       else ebind (reg_tag it (idx_c i)) (\<lambda>tc.
       if tc \<noteq> ShapeHandle then trap_plain TypeFault (opcode_of i) pc0 it
       else ebind (reg it (idx_b i)) (\<lambda>hb. ebind (reg it (idx_c i)) (\<lambda>hc.
         case tensor_ptr it hb of
           None \<Rightarrow> trap_plain DecodeFault (opcode_of i) pc0 it
         | Some tv \<Rightarrow> (case shape_ptr it hc of
             None \<Rightarrow> trap_plain DecodeFault (opcode_of i) pc0 it
           | Some sh \<Rightarrow> commit i pc0 (if shape tv = sh then 1 else 0) IntTag it)))))"

lemmas tensor_defs = with_tensors_def with_tensor_def exec_tvec_def exec_tmatmul_def
  exec_ttendot_def exec_ttranspose_def exec_tunary_def exec_chk_shape_def commit_tensor_def

declare tensor_defs [handler_defs]

end
