(* ===== verification/VM.thy ===== *)
theory VM
  imports Exec_Scalar Exec_Control Exec_Memory Exec_Values Exec_Tensor
begin

text \<open>
  The public operations of the interpreter (\<open>load_program\<close>, \<open>step\<close>, \<open>run_to_halt\<close>,
  \<open>set_register\<close> of \<open>src/vm/vm.cpp\<close>). \<open>exec\<close> is the switch of \<open>step\<close>, one arm per case
  label in its order; an illegal opcode byte falls through to the \<open>DecodeFault\<close> after it.
\<close>

definition exec :: "'d fpu \<Rightarrow> insn \<Rightarrow> nat \<Rightarrow> interp \<Rightarrow> step_result" where
  "exec F i pc0 it =
    (case opcode_of i of
     Nop \<Rightarrow> next_ok (opcode_of i) pc0 it
     | Halt \<Rightarrow> exec_halt i pc0 it
     | LoadImm \<Rightarrow> exec_load_imm i pc0 it
     | Load \<Rightarrow> exec_load i pc0 it
     | Store \<Rightarrow> exec_store i pc0 it
     | Add \<Rightarrow> exec_arith i pc0 it
     | Sub \<Rightarrow> exec_arith i pc0 it
     | Mul \<Rightarrow> exec_arith i pc0 it
     | Div \<Rightarrow> exec_arith i pc0 it
     | Mod \<Rightarrow> exec_arith i pc0 it
     | FAdd \<Rightarrow> exec_arith i pc0 it
     | FSub \<Rightarrow> exec_arith i pc0 it
     | FMul \<Rightarrow> exec_arith i pc0 it
     | FDiv \<Rightarrow> exec_arith i pc0 it
     | FracAdd \<Rightarrow> exec_arith i pc0 it
     | FracSub \<Rightarrow> exec_arith i pc0 it
     | FracMul \<Rightarrow> exec_arith i pc0 it
     | FracDiv \<Rightarrow> exec_arith i pc0 it
     | Mov \<Rightarrow> exec_mov i pc0 it
     | Inc \<Rightarrow> exec_inc i pc0 it
     | Dec \<Rightarrow> exec_dec i pc0 it
     | Cmp \<Rightarrow> exec_cmp i pc0 it
     | Neg \<Rightarrow> exec_neg i pc0 it
     | TNot \<Rightarrow> exec_tnot i pc0 it
     | TAnd \<Rightarrow> exec_trit i pc0 it
     | TOr \<Rightarrow> exec_trit i pc0 it
     | TXor \<Rightarrow> exec_trit i pc0 it
     | I2F \<Rightarrow> exec_convert i pc0 it
     | F2I \<Rightarrow> exec_convert i pc0 it
     | I2Frac \<Rightarrow> exec_convert i pc0 it
     | Frac2I \<Rightarrow> exec_convert i pc0 it
     | Less \<Rightarrow> exec_relation i pc0 it
     | LessEqual \<Rightarrow> exec_relation i pc0 it
     | Greater \<Rightarrow> exec_relation i pc0 it
     | GreaterEqual \<Rightarrow> exec_relation i pc0 it
     | Equal \<Rightarrow> exec_relation i pc0 it
     | NotEqual \<Rightarrow> exec_relation i pc0 it
     | Push \<Rightarrow> exec_push i pc0 it
     | Pop \<Rightarrow> exec_pop i pc0 it
     | Jump \<Rightarrow> exec_jump i pc0 it
     | JumpIfZero \<Rightarrow> exec_jump i pc0 it
     | JumpIfNotZero \<Rightarrow> exec_jump i pc0 it
     | JumpIfNegative \<Rightarrow> exec_jump i pc0 it
     | JumpIfPositive \<Rightarrow> exec_jump i pc0 it
     | Call \<Rightarrow> exec_call i pc0 it
     | Ret \<Rightarrow> exec_ret i pc0 it
     | Trap \<Rightarrow> trap_plain TrapInstruction (opcode_of i) pc0 it
     | AxRead \<Rightarrow> exec_ax_read i pc0 it
     | AxSet \<Rightarrow> exec_ax_set i pc0 it
     | AxVerify \<Rightarrow> exec_ax_verify i pc0 it
     | TVecAdd \<Rightarrow> exec_tvec i pc0 it
     | TVecMul \<Rightarrow> exec_tvec i pc0 it
     | TMatMul \<Rightarrow> exec_tmatmul i pc0 it
     | TTenDot \<Rightarrow> exec_ttendot i pc0 it
     | TTranspose \<Rightarrow> exec_ttranspose i pc0 it
     | TExp \<Rightarrow> exec_tunary F i pc0 it
     | TSqrt \<Rightarrow> exec_tunary F i pc0 it
     | TSiLU \<Rightarrow> exec_tunary F i pc0 it
     | TSoftmax \<Rightarrow> exec_tunary F i pc0 it
     | TRMSNorm \<Rightarrow> exec_tunary F i pc0 it
     | TRoPE \<Rightarrow> exec_tunary F i pc0 it
     | ChkShape \<Rightarrow> exec_chk_shape i pc0 it
     | WeightsLoad \<Rightarrow> exec_weights_load i pc0 it
     | SetF \<Rightarrow> exec_setf i pc0 it
     | MakeOptionSome \<Rightarrow> exec_make_option_some i pc0 it
     | MakeOptionNone \<Rightarrow> exec_make_option_none i pc0 it
     | MakeResultOk \<Rightarrow> exec_make_result True i pc0 it
     | MakeResultErr \<Rightarrow> exec_make_result False i pc0 it
     | OptionIsSome \<Rightarrow> exec_option_is_some i pc0 it
     | OptionUnwrap \<Rightarrow> exec_option_unwrap i pc0 it
     | ResultIsOk \<Rightarrow> exec_result_is_ok i pc0 it
     | ResultUnwrapOk \<Rightarrow> exec_result_unwrap True i pc0 it
     | ResultUnwrapErr \<Rightarrow> exec_result_unwrap False i pc0 it
     | MakeEnumVariant \<Rightarrow> exec_make_enum_variant i pc0 it
     | MakeEnumVariantPayload \<Rightarrow> exec_make_enum_variant_payload i pc0 it
     | EnumIsVariant \<Rightarrow> exec_enum_is_variant i pc0 it
     | EnumUnwrapPayload \<Rightarrow> exec_enum_unwrap_payload i pc0 it
     | StackAlloc \<Rightarrow> exec_stack_alloc i pc0 it
     | StackFree \<Rightarrow> exec_stack_free i pc0 it
     | HeapAlloc \<Rightarrow> exec_heap_alloc i pc0 it
     | HeapFree \<Rightarrow> exec_heap_free i pc0 it
     | IllegalOpcode b \<Rightarrow> trap_plain DecodeFault (opcode_of i) pc0 it)"

text \<open>What \<open>step\<close> does between fetching the instruction and the switch.\<close>

definition begin_step :: "interp \<Rightarrow> interp" where
  "begin_step it =
    (let it1 = it\<lparr>cur_write_reg := None, cur_write_value := None, cur_write_tag := None,
                  steps := steps it + 1\<rparr>
     in if steps it1 mod gc_interval = 0
        then upd_vm (\<lambda>s. s\<lparr>gc_cycles := gc_cycles s + 1\<rparr>) it1 else it1)"

definition step :: "'d fpu \<Rightarrow> interp \<Rightarrow> step_result" where
  "step F it =
    (if halted (vm it) then Inr (it, None)
     else case preload_trap it of
       Some t \<Rightarrow> trap_plain t (current_opcode it) (pc (vm it)) it
     | None \<Rightarrow>
        if pc (vm it) \<ge> length (insns (prog it))
        then trap_plain DecodeFault Nop (pc (vm it)) it
        else exec F (insns (prog it) ! pc (vm it)) (pc (vm it)) (begin_step it))"

text \<open>
  The bound on the number of steps is the loop's own: the recursion is on \<open>max_steps\<close>.
  Running out of steps reports \<open>TrapInstruction\<close>.
\<close>

fun run_to_halt :: "'d fpu \<Rightarrow> nat \<Rightarrow> interp \<Rightarrow> step_result" where
  "run_to_halt F 0 it = Inr (it, Some TrapInstruction)"
| "run_to_halt F (Suc n) it =
     ebind (step F it) (\<lambda>(it1, r). case r of
         Some t \<Rightarrow> Inr (it1, Some t)
       | None \<Rightarrow> if halted (vm it1) then Inr (it1, None) else run_to_halt F n it1)"

lemma run_to_halt_numeral:
  "run_to_halt F (numeral k) it =
     ebind (step F it) (\<lambda>(it1, r). case r of
         Some t \<Rightarrow> Inr (it1, Some t)
       | None \<Rightarrow> if halted (vm it1) then Inr (it1, None)
                else run_to_halt F (pred_numeral k) it1)"
  by (simp add: numeral_eq_Suc)

definition default_max_steps :: nat where
  "default_max_steps = 100000"

text \<open>A fresh object, as \<open>make_interpreter_vm\<close> builds it.\<close>

definition make_interpreter_vm :: interp where
  "make_interpreter_vm =
    \<lparr>prog = \<lparr>insns = [], axion_policy_text = []\<rparr>, vm = default_state, preload_trap = None,
     steps = 0, call_stack = [], cur_write_reg = None, cur_write_value = None,
     cur_write_tag = None\<rparr>"

text \<open>Loading keeps the three fields of the last write.\<close>

definition load_program :: "program \<Rightarrow> interp \<Rightarrow> hazard + interp" where
  "load_program p it =
     ebind (load_program_image p) (\<lambda>loaded.
       Inr (it\<lparr>prog := lp_program loaded,
               vm := (lp_initial_state loaded)\<lparr>register_tags := replicate register_count IntTag,
                 option_pool := [], result_pool := [], enum_pool := [], tensor_pool := [],
                 shape_pool := [], last_trap_payload := None\<rparr>,
               preload_trap := lp_preload_trap loaded, steps := 0, call_stack := []\<rparr>))"

definition set_register :: "int \<Rightarrow> i64 \<Rightarrow> value_tag \<Rightarrow> interp \<Rightarrow> hazard + interp" where
  "set_register k v tag it =
     (if k \<ge> 0 \<and> nat k < length (registers (vm it)) then set_register_value (nat k) v tag it
      else Inr it)"

section \<open>Loaded machines\<close>

lemma load_program_Inr:
  assumes "load_program p it = Inr it'"
  obtains po where
    "it' = it\<lparr>prog := p,
       vm := default_state\<lparr>layout := initial_layout (length (insns p)),
          memory := replicate (length (insns p) + 1536) 0, sp := length (insns p) + 256,
          heap_ptr := length (insns p) + 256, policy_of := po\<rparr>,
       preload_trap := validate_program p, steps := 0, call_stack := []\<rparr>"
proof -
  from assms obtain s' where s': "parse_policy (axion_policy_text p)
      (default_state\<lparr>layout := initial_layout (length (insns p)),
          memory := replicate (length (insns p) + 1536) 0, sp := length (insns p) + 256,
          heap_ptr := length (insns p) + 256\<rparr>) = Inr s'"
    and it': "it' = it\<lparr>prog := p,
               vm := s'\<lparr>register_tags := replicate register_count IntTag,
                 option_pool := [], result_pool := [], enum_pool := [], tensor_pool := [],
                 shape_pool := [], last_trap_payload := None\<rparr>,
               preload_trap := validate_program p, steps := 0, call_stack := []\<rparr>"
    by (auto simp: load_program_def load_program_image_def ebind_eq_Inr)
  from parse_policy_Inr [OF s'] obtain po where "s' =
      default_state\<lparr>layout := initial_layout (length (insns p)),
          memory := replicate (length (insns p) + 1536) 0, sp := length (insns p) + 256,
          heap_ptr := length (insns p) + 256, policy_of := po\<rparr>" by auto
  with it' that show ?thesis by (simp add: default_state_def)
qed

text \<open>Loading fails only on a policy tier that does not fit an \<open>int\<close>.\<close>

lemma load_program_no_policy:
  "re_search tier_re (axion_policy_text p) = None \<Longrightarrow> \<exists>it'. load_program p it = Inr it'"
  by (simp add: load_program_def load_program_image_def parse_policy_def)

end
