(* ===== verification/Samples.thy ===== *)
theory Samples
  imports VM
begin

text \<open>
  Machines loaded from a fresh object with a program without policy text, as closed
  terms, and the sample programs the witnesses run.
\<close>

definition bare_program :: "insn list \<Rightarrow> program" where
  "bare_program is = \<lparr>insns = is, axion_policy_text = []\<rparr>"

definition loaded_vm :: "insn list \<Rightarrow> interp" where
  "loaded_vm is =
     make_interpreter_vm\<lparr>prog := bare_program is,
       vm := default_state\<lparr>layout := initial_layout (length is),
          memory := replicate (length is + 1536) 0, sp := length is + 256,
          heap_ptr := length is + 256\<rparr>,
       preload_trap := validate_program (bare_program is), steps := 0, call_stack := []\<rparr>"

lemma bare_simps [simp]: "insns (bare_program is) = is" "axion_policy_text (bare_program is) = []"
  by (simp_all add: bare_program_def)

lemma load_bare: "load_program (bare_program is) make_interpreter_vm = Inr (loaded_vm is)"
  by (simp add: load_program_def load_program_image_def parse_policy_def tier_re_def
      loaded_vm_def default_state_def make_interpreter_vm_def)

lemmas loaded_defs = loaded_vm_def make_interpreter_vm_def default_state_def bare_program_def

text \<open>Arithmetic, a push, and a halt.\<close>

definition sample_push :: "insn list" where
  "sample_push = [mk_insn LoadImm 0 5 0, mk_insn Add 1 0 0, mk_insn Push 1 0 0,
                  mk_insn Halt 0 0 0]"

text \<open>Balanced stack frames around a store and a load.\<close>

definition sample_frames :: "insn list" where
  "sample_frames = [mk_insn StackAlloc 0 16 0, mk_insn HeapAlloc 1 8 0, mk_insn Store 300 1 0,
                    mk_insn Load 2 300 0, mk_insn HeapFree 1 8 0, mk_insn StackFree 0 16 0,
                    mk_insn Halt 0 0 0]"

end
