(* ===== verification/Step_Logic.thy ===== *)
theory Step_Logic
  imports Samples
begin

text \<open>
  A small program logic for handlers. \<open>outcome P Q m\<close> says that \<open>m\<close> either finishes in a
  result with \<open>P\<close> or meets a hazard with \<open>Q\<close>; its rules compute a weakest precondition
  by rewriting. \<open>exec_by_handler\<close> reduces a statement about the switch of \<open>step\<close> to one
  statement per handler.
\<close>

definition outcome :: "('a \<Rightarrow> bool) \<Rightarrow> (hazard \<Rightarrow> bool) \<Rightarrow> hazard + 'a \<Rightarrow> bool" where
  "outcome P Q m = (case m of Inl h \<Rightarrow> Q h | Inr x \<Rightarrow> P x)"

lemma outcome_Inr [simp]: "outcome P Q (Inr x) = P x"
  by (simp add: outcome_def)

lemma outcome_Inl [simp]: "outcome P Q (Inl h) = Q h"
  by (simp add: outcome_def)

lemma outcome_ebind [simp]: "outcome P Q (ebind m k) = outcome (\<lambda>x. outcome P Q (k x)) Q m"
  by (cases m) simp_all

lemma outcome_if: "outcome P Q (if b then m else n) = (if b then outcome P Q m else outcome P Q n)"
  by simp

lemma outcome_mono:
  "outcome P Q m \<Longrightarrow> (\<And>x. P x \<Longrightarrow> P' x) \<Longrightarrow> (\<And>h. Q h \<Longrightarrow> Q' h) \<Longrightarrow> outcome P' Q' m"
  by (cases m) simp_all

lemma outcome_InrD: "outcome P Q m \<Longrightarrow> m = Inr x \<Longrightarrow> P x"
  by simp

lemma outcome_InlD: "outcome P Q m \<Longrightarrow> m = Inl h \<Longrightarrow> Q h"
  by simp

lemma outcome_vread:
  "outcome P Q (vread h xs k) = (if k < length xs then P (xs ! k) else Q h)"
  by (simp add: vread_def)

lemma outcome_vwrite:
  "outcome P Q (vwrite h xs k x) = (if k < length xs then P (xs[k := x]) else Q h)"
  by (simp add: vwrite_def)

lemma outcome_sneg:
  "outcome P Q (sneg a) = (if int64_fits (- sint a) then P (- a) else Q SignedOverflow)"
  by (simp add: sneg_def)

lemma outcome_sadd:
  "outcome P Q (sadd a b) =
     (if int64_fits (sint a + sint b) then P (a + b) else Q SignedOverflow)"
  by (simp add: sadd_def)

lemma outcome_ssub:
  "outcome P Q (ssub a b) =
     (if int64_fits (sint a - sint b) then P (a - b) else Q SignedOverflow)"
  by (simp add: ssub_def)

text \<open>A computation whose value a postcondition ignores.\<close>

lemma outcome_top: "outcome (\<lambda>x. True) (\<lambda>h. True) m"
  by (cases m) simp_all

lemma raise_trap_eq:
  "raise_trap t oc pc0 seg d it =
     Inr (it\<lparr>vm := (vm it)\<lparr>last_trap_payload := Some
               \<lparr>tp_trap = t, tp_pc = pc0, tp_opcode = oc,
                tp_a = fst (fault_operands (prog it) oc pc0),
                tp_b = fst (snd (fault_operands (prog it) oc pc0)),
                tp_c = snd (snd (fault_operands (prog it) oc pc0)),
                tp_segment = seg, tp_detail = d\<rparr>,
             trace := trace (vm it) @
               [\<lparr>te_pc = pc0, te_opcode = oc, te_write_reg = cur_write_reg it,
                 te_write_value = cur_write_value it, te_write_tag = cur_write_tag it,
                 te_trap = Some t\<rparr>]\<rparr>,
            preload_trap := None\<rparr>, Some t)"
  by (simp add: raise_trap_def push_trace_def split_beta)

lemma exec_by_handler:
  assumes
    "opcode_of i = Nop \<Longrightarrow> P (next_ok Nop pc0 it)"
    and "opcode_of i = Halt \<Longrightarrow> P (exec_halt i pc0 it)"
    and "opcode_of i = LoadImm \<Longrightarrow> P (exec_load_imm i pc0 it)"
    and "opcode_of i = Load \<Longrightarrow> P (exec_load i pc0 it)"
    and "opcode_of i = Store \<Longrightarrow> P (exec_store i pc0 it)"
    and "opcode_of i \<in> {Add, Sub, Mul, Div, Mod, FAdd,
        FSub, FMul, FDiv, FracAdd, FracSub, FracMul, FracDiv} \<Longrightarrow>
       P (exec_arith i pc0 it)"
    and "opcode_of i = Mov \<Longrightarrow> P (exec_mov i pc0 it)"
    and "opcode_of i = Inc \<Longrightarrow> P (exec_inc i pc0 it)"
    and "opcode_of i = Dec \<Longrightarrow> P (exec_dec i pc0 it)"
    and "opcode_of i = Cmp \<Longrightarrow> P (exec_cmp i pc0 it)"
    and "opcode_of i = Neg \<Longrightarrow> P (exec_neg i pc0 it)"
    and "opcode_of i = TNot \<Longrightarrow> P (exec_tnot i pc0 it)"
    and "opcode_of i \<in> {TAnd, TOr, TXor} \<Longrightarrow> P (exec_trit i pc0 it)"
    and "opcode_of i \<in> {I2F, F2I, I2Frac, Frac2I} \<Longrightarrow> P (exec_convert i pc0 it)"
    and "opcode_of i \<in> {Less, LessEqual, Greater, GreaterEqual, Equal, NotEqual} \<Longrightarrow>
       P (exec_relation i pc0 it)"
    and "opcode_of i = Push \<Longrightarrow> P (exec_push i pc0 it)"
    and "opcode_of i = Pop \<Longrightarrow> P (exec_pop i pc0 it)"
    and "opcode_of i \<in> {Jump, JumpIfZero,
        JumpIfNotZero, JumpIfNegative, JumpIfPositive} \<Longrightarrow>
       P (exec_jump i pc0 it)"
    and "opcode_of i = Call \<Longrightarrow> P (exec_call i pc0 it)"
    and "opcode_of i = Ret \<Longrightarrow> P (exec_ret i pc0 it)"
    and "opcode_of i = Trap \<Longrightarrow> P (raise_trap TrapInstruction Trap pc0 UnknownSeg [] it)"
    and "opcode_of i = AxRead \<Longrightarrow> P (exec_ax_read i pc0 it)"
    and "opcode_of i = AxSet \<Longrightarrow> P (exec_ax_set i pc0 it)"
    and "opcode_of i = AxVerify \<Longrightarrow> P (exec_ax_verify i pc0 it)"
    and "opcode_of i \<in> {TVecAdd, TVecMul} \<Longrightarrow> P (exec_tvec i pc0 it)"
    and "opcode_of i = TMatMul \<Longrightarrow> P (exec_tmatmul i pc0 it)"
    and "opcode_of i = TTenDot \<Longrightarrow> P (exec_ttendot i pc0 it)"
    and "opcode_of i = TTranspose \<Longrightarrow> P (exec_ttranspose i pc0 it)"
    and "opcode_of i \<in> {TExp, TSqrt, TSiLU, TSoftmax, TRMSNorm, TRoPE} \<Longrightarrow>
       P (exec_tunary F i pc0 it)"
    and "opcode_of i = ChkShape \<Longrightarrow> P (exec_chk_shape i pc0 it)"
    and "opcode_of i = WeightsLoad \<Longrightarrow> P (exec_weights_load i pc0 it)"
    and "opcode_of i = SetF \<Longrightarrow> P (exec_setf i pc0 it)"
    and "opcode_of i = MakeOptionSome \<Longrightarrow> P (exec_make_option_some i pc0 it)"
    and "opcode_of i = MakeOptionNone \<Longrightarrow> P (exec_make_option_none i pc0 it)"
    and "opcode_of i = MakeResultOk \<Longrightarrow> P (exec_make_result True i pc0 it)"
    and "opcode_of i = MakeResultErr \<Longrightarrow> P (exec_make_result False i pc0 it)"
    and "opcode_of i = OptionIsSome \<Longrightarrow> P (exec_option_is_some i pc0 it)"
    and "opcode_of i = OptionUnwrap \<Longrightarrow> P (exec_option_unwrap i pc0 it)"
    and "opcode_of i = ResultIsOk \<Longrightarrow> P (exec_result_is_ok i pc0 it)"
    and "opcode_of i = ResultUnwrapOk \<Longrightarrow> P (exec_result_unwrap True i pc0 it)"
    and "opcode_of i = ResultUnwrapErr \<Longrightarrow> P (exec_result_unwrap False i pc0 it)"
    and "opcode_of i = MakeEnumVariant \<Longrightarrow> P (exec_make_enum_variant i pc0 it)"
    and "opcode_of i = MakeEnumVariantPayload \<Longrightarrow>
       P (exec_make_enum_variant_payload i pc0 it)"
    and "opcode_of i = EnumIsVariant \<Longrightarrow> P (exec_enum_is_variant i pc0 it)"
    and "opcode_of i = EnumUnwrapPayload \<Longrightarrow> P (exec_enum_unwrap_payload i pc0 it)"
    and "opcode_of i = StackAlloc \<Longrightarrow> P (exec_stack_alloc i pc0 it)"
    and "opcode_of i = StackFree \<Longrightarrow> P (exec_stack_free i pc0 it)"
    and "opcode_of i = HeapAlloc \<Longrightarrow> P (exec_heap_alloc i pc0 it)"
    and "opcode_of i = HeapFree \<Longrightarrow> P (exec_heap_free i pc0 it)"
    and "\<And>b. opcode_of i = IllegalOpcode b \<Longrightarrow>
       P (raise_trap DecodeFault (IllegalOpcode b) pc0 UnknownSeg [] it)"
  shows "P (exec F i pc0 it)"
  using assms by (cases "opcode_of i") (simp_all add: exec_def)

lemmas outcome_rules = outcome_top outcome_vread outcome_vwrite outcome_sneg outcome_sadd outcome_ssub
lemmas ending_defs = raise_trap_eq trace_ok_def next_ok_def commit_def
lemmas helper_defs = register_defs mem_read_def mem_write_def push_register_def pop_register_def

end
