(* ===== verification/Step_Facts.thy ===== *)
theory Step_Facts
  imports Step_Logic
begin

text \<open>
  What every step of the interpreter guarantees, whatever the program: it appends one
  trace entry that names the instruction and the trap, keeps the event log, counts steps
  and collection cycles, and leaves the machine alone when it traps; and what follows for
  \<open>run_to_halt\<close>.
\<close>

section \<open>Traces and payloads\<close>

definition payload_matches :: "state \<Rightarrow> trace_entry \<Rightarrow> bool" where
  "payload_matches s e \<longleftrightarrow>
     (case te_trap e of
        None \<Rightarrow> True
      | Some t \<Rightarrow> (case last_trap_payload s of
            None \<Rightarrow> False
          | Some p \<Rightarrow> tp_trap p = t \<and> tp_pc p = te_pc e \<and> tp_opcode p = te_opcode e))"

text \<open>\<open>s'\<close> extends the trace of \<open>s\<close> by one entry for \<open>oc\<close> at \<open>pc0\<close> with outcome \<open>r\<close>.\<close>

definition traced :: "state \<Rightarrow> nat \<Rightarrow> opcode \<Rightarrow> interp \<times> trap option \<Rightarrow> bool" where
  "traced s pc0 oc = (\<lambda>(it', r). \<exists>e. trace (vm it') = trace s @ [e] \<and> te_pc e = pc0 \<and>
     te_opcode e = oc \<and> te_trap e = r \<and> payload_matches (vm it') e)"

lemma exec_traced:
  "outcome (traced (vm it) pc0 (opcode_of i)) (\<lambda>h. True) (exec F i pc0 it)"
  by (rule exec_by_handler)
    (simp_all add: traced_def payload_matches_def handler_defs outcome_rules ending_defs
      helper_defs state_defs Let_def intern_defs split: option.splits)

lemma raise_trap_traced:
  "outcome (traced (vm it) pc0 oc) (\<lambda>h. True) (raise_trap t oc pc0 seg d it)"
  by (simp add: traced_def payload_matches_def raise_trap_eq)

lemma begin_step_vm [simp]:
  "trace (vm (begin_step it)) = trace (vm it)"
  "axion_log (vm (begin_step it)) = axion_log (vm it)"
  "prog (begin_step it) = prog it" "steps (begin_step it) = steps it + 1"
  "call_stack (begin_step it) = call_stack it" "preload_trap (begin_step it) = preload_trap it"
  "cur_write_reg (begin_step it) = None" "cur_write_value (begin_step it) = None"
  "cur_write_tag (begin_step it) = None"
  by (simp_all add: begin_step_def Let_def)

text \<open>The opcode a step reports: the fetched one, or \<open>Nop\<close> behind the last instruction.\<close>

lemma step_cases:
  assumes "step F it = Inr (it', r)"
  obtains (stopped) "halted (vm it)" "it' = it" "r = None"
  | (preload) t where "\<not> halted (vm it)" "preload_trap it = Some t"
      "raise_trap t (current_opcode it) (pc (vm it)) UnknownSeg [] it = Inr (it', r)"
  | (past_end) "\<not> halted (vm it)" "preload_trap it = None" "pc (vm it) \<ge> length (insns (prog it))"
      "raise_trap DecodeFault Nop (pc (vm it)) UnknownSeg [] it = Inr (it', r)"
  | (run) i where "\<not> halted (vm it)" "preload_trap it = None"
      "pc (vm it) < length (insns (prog it))" "i = insns (prog it) ! pc (vm it)"
      "exec F i (pc (vm it)) (begin_step it) = Inr (it', r)"
  using assms unfolding step_def
  by (auto split: if_splits option.splits)

lemma step_traced:
  assumes "step F it = Inr (it', r)" "\<not> halted (vm it)"
  shows "traced (vm it) (pc (vm it)) (current_opcode it) (it', r)"
  using assms(1)
proof (cases rule: step_cases)
  case stopped
  with assms(2) show ?thesis by simp
next
  case (preload t)
  from outcome_InrD [OF raise_trap_traced preload(3)] show ?thesis .
next
  case past_end
  from outcome_InrD [OF raise_trap_traced past_end(4)] past_end(3) show ?thesis
    by (simp add: current_opcode_def)
next
  case (run i)
  then show ?thesis
    using outcome_InrD [OF exec_traced run(5)] by (simp add: traced_def current_opcode_def)
qed

section \<open>Bookkeeping\<close>

definition log_grows :: "state \<Rightarrow> interp \<times> trap option \<Rightarrow> bool" where
  "log_grows s = (\<lambda>(it', r). \<exists>l. axion_log (vm it') = axion_log s @ l)"

lemma exec_log_grows: "outcome (log_grows (vm it)) (\<lambda>h. True) (exec F i pc0 it)"
  by (rule exec_by_handler)
    (simp_all add: log_grows_def handler_defs outcome_rules ending_defs
      helper_defs state_defs Let_def intern_defs split: option.splits)

text \<open>Instructions leave the program, the layout, the policy and the counters alone.\<close>

definition frame_kept :: "interp \<Rightarrow> interp \<times> trap option \<Rightarrow> bool" where
  "frame_kept it = (\<lambda>(it', r). prog it' = prog it \<and> layout (vm it') = layout (vm it) \<and>
     policy_of (vm it') = policy_of (vm it) \<and> steps it' = steps it \<and>
     gc_cycles (vm it') = gc_cycles (vm it) \<and> shape_pool (vm it') = shape_pool (vm it) \<and>
     (preload_trap it = None \<longrightarrow> preload_trap it' = None))"

lemma exec_frame: "outcome (frame_kept it) (\<lambda>h. True) (exec F i pc0 it)"
  by (rule exec_by_handler)
    (simp_all add: frame_kept_def handler_defs outcome_rules ending_defs
      helper_defs state_defs Let_def intern_defs split: option.splits)

definition gc_counted :: "interp \<Rightarrow> bool" where
  "gc_counted it \<longleftrightarrow> gc_cycles (vm it) = steps it div gc_interval"

lemma begin_step_gc: "gc_counted it \<Longrightarrow> gc_counted (begin_step it)"
  by (simp add: gc_counted_def begin_step_def gc_interval_def Let_def div_Suc)

lemma raise_trap_gc:
  "raise_trap t oc pc0 seg d it = Inr (it', r) \<Longrightarrow> gc_counted it' = gc_counted it"
  by (auto simp: raise_trap_eq gc_counted_def)

lemma step_gc_counted:
  assumes "step F it = Inr (it', r)" "gc_counted it"
  shows "gc_counted it'"
  using assms(1)
proof (cases rule: step_cases)
  case (run i)
  from outcome_InrD [OF exec_frame run(5)] begin_step_gc [OF assms(2)]
  show ?thesis by (simp add: frame_kept_def gc_counted_def)
qed (use assms(2) in \<open>simp_all add: raise_trap_gc\<close>)

section \<open>A trapping step changes nothing but its records\<close>

definition erase_records :: "interp \<Rightarrow> interp" where
  "erase_records it = it\<lparr>vm := (vm it)\<lparr>trace := [], axion_log := [], last_trap_payload := None,
       gc_cycles := 0\<rparr>, preload_trap := None, steps := 0, cur_write_reg := None,
     cur_write_value := None, cur_write_tag := None\<rparr>"

definition atomic_trap :: "interp \<Rightarrow> interp \<times> trap option \<Rightarrow> bool" where
  "atomic_trap it = (\<lambda>(it', r). r \<noteq> None \<longrightarrow> erase_records it' = erase_records it)"

lemma exec_atomic_trap: "outcome (atomic_trap it) (\<lambda>h. True) (exec F i pc0 it)"
  by (rule exec_by_handler)
    (simp_all add: atomic_trap_def erase_records_def handler_defs outcome_rules ending_defs
      helper_defs state_defs Let_def intern_defs split: option.splits)

lemma erase_begin_step: "erase_records (begin_step it) = erase_records it"
  by (simp add: erase_records_def begin_step_def Let_def)

lemma step_atomic_trap:
  assumes "step F it = Inr (it', Some t)"
  shows "erase_records it' = erase_records it"
  using assms
proof (cases rule: step_cases)
  case (run i)
  from outcome_InrD [OF exec_atomic_trap run(5)] show ?thesis
    by (simp add: atomic_trap_def erase_begin_step)
qed (auto simp: raise_trap_eq erase_records_def)

end
