(* ===== verification/Run_Facts.thy ===== *)
theory Run_Facts
  imports Step_Facts
begin

text \<open>
  \<open>run_to_halt\<close> against a specification without a step bound: \<open>runs F it k res\<close> says that
  the machine \<open>it\<close> ends after exactly \<open>k\<close> steps with \<open>res\<close>, by halting or by a trap;
  \<open>ongoing F it k it'\<close> that \<open>k\<close> steps succeed and none of them halts.
\<close>

inductive runs :: "'d fpu \<Rightarrow> interp \<Rightarrow> nat \<Rightarrow> interp \<times> trap option \<Rightarrow> bool" for F where
  halts: "step F it = Inr (it1, None) \<Longrightarrow> halted (vm it1) \<Longrightarrow> runs F it (Suc 0) (it1, None)"
| faults: "step F it = Inr (it1, Some t) \<Longrightarrow> runs F it (Suc 0) (it1, Some t)"
| continues: "step F it = Inr (it1, None) \<Longrightarrow> \<not> halted (vm it1) \<Longrightarrow> runs F it1 k res \<Longrightarrow>
    runs F it (Suc k) res"

inductive ongoing :: "'d fpu \<Rightarrow> interp \<Rightarrow> nat \<Rightarrow> interp \<Rightarrow> bool" for F where
  start: "ongoing F it 0 it"
| next_step: "step F it = Inr (it1, None) \<Longrightarrow> \<not> halted (vm it1) \<Longrightarrow> ongoing F it1 k it2 \<Longrightarrow>
    ongoing F it (Suc k) it2"

inductive_cases runs_zeroE [elim!]: "runs F it 0 res"
inductive_simps ongoing_zero [simp]: "ongoing F it 0 it'"
inductive_simps ongoing_Suc: "ongoing F it (Suc k) it'"

text \<open>With enough steps the loop delivers the specified result.\<close>

lemma runs_run_to_halt: "runs F it k res \<Longrightarrow> k \<le> n \<Longrightarrow> run_to_halt F n it = Inr res"
proof (induction arbitrary: n rule: runs.induct)
  case (halts it it1)
  then show ?case by (cases n) simp_all
next
  case (faults it it1 t)
  then show ?case by (cases n) simp_all
next
  case (continues it it1 k res)
  then show ?case by (cases n) simp_all
qed

lemma ongoing_run_to_halt: "ongoing F it n it' \<Longrightarrow> run_to_halt F n it = Inr (it', Some TrapInstruction)"
  by (induction rule: ongoing.induct) simp_all

text \<open>And every result of the loop is one of these two.\<close>

lemma run_to_halt_cases:
  assumes "run_to_halt F n it = Inr res"
  shows "(\<exists>k\<le>n. runs F it k res) \<or> (ongoing F it n (fst res) \<and> snd res = Some TrapInstruction)"
  using assms
proof (induction n arbitrary: it)
  case 0
  then show ?case by auto
next
  case (Suc n)
  from Suc.prems obtain it1 r where st: "step F it = Inr (it1, r)"
    and rest: "(case r of Some t \<Rightarrow> Inr (it1, Some t)
       | None \<Rightarrow> if halted (vm it1) then Inr (it1, None) else run_to_halt F n it1) = Inr res"
    by (auto simp: ebind_eq_Inr)
  show ?case
  proof (cases r)
    case (Some t)
    with st rest have "runs F it (Suc 0) res" by (auto intro: runs.faults)
    then show ?thesis by auto
  next
    case None
    show ?thesis
    proof (cases "halted (vm it1)")
      case True
      with st rest None have "runs F it (Suc 0) res" by (auto intro: runs.halts)
      then show ?thesis by auto
    next
      case False
      with rest None have "run_to_halt F n it1 = Inr res" by simp
      from Suc.IH [OF this] st None False show ?thesis
        by (auto simp: ongoing_Suc intro: runs.continues)
    qed
  qed
qed

lemma runs_unique: "runs F it k res \<Longrightarrow> runs F it k' res' \<Longrightarrow> k = k' \<and> res = res'"
proof (induction arbitrary: k' res' rule: runs.induct)
  case (halts it it1)
  from halts(3,1,2) show ?case by (cases rule: runs.cases) auto
next
  case (faults it it1 t)
  from faults(2,1) show ?case by (cases rule: runs.cases) auto
next
  case (continues it it1 k res)
  from continues.prems continues.hyps(1,2) obtain k1 where "k' = Suc k1" "runs F it1 k1 res'"
    by (cases rule: runs.cases) auto
  with continues.IH show ?case by auto
qed

text \<open>Each step of an unhalted run leaves one trace entry.\<close>

lemma step_trace_length:
  "step F it = Inr (it', r) \<Longrightarrow> \<not> halted (vm it) \<Longrightarrow>
     length (trace (vm it')) = Suc (length (trace (vm it)))"
  using step_traced [of F it it' r] by (auto simp: traced_def)

lemma runs_trace:
  "runs F it k res \<Longrightarrow> \<not> halted (vm it) \<Longrightarrow>
     length (trace (vm (fst res))) = length (trace (vm it)) + k \<and>
     te_trap (last (trace (vm (fst res)))) = snd res \<and>
     (snd res = None \<longleftrightarrow> halted (vm (fst res)))"
proof (induction rule: runs.induct)
  case (halts it it1)
  with step_traced [OF halts(1)] show ?case by (auto simp: traced_def)
next
  case (faults it it1 t)
  have "halted (vm it1) = halted (vm it)"
    using arg_cong [OF step_atomic_trap [OF faults(1)], of "\<lambda>x. halted (vm x)"]
    by (simp add: erase_records_def)
  with step_traced [OF faults(1)] faults(2) show ?case by (auto simp: traced_def)
next
  case (continues it it1 k res)
  then show ?case using step_trace_length [OF continues(1)] by simp
qed

lemma ongoing_trace:
  "ongoing F it k it' \<Longrightarrow> \<not> halted (vm it) \<Longrightarrow>
     length (trace (vm it')) = length (trace (vm it)) + k \<and> \<not> halted (vm it')"
  by (induction rule: ongoing.induct) (auto simp: step_trace_length)

section \<open>Advancing instructions\<close>

definition transfers :: "opcode \<Rightarrow> bool" where
  "transfers oc \<longleftrightarrow>
     oc \<in> {Jump, JumpIfZero, JumpIfNotZero, JumpIfNegative, JumpIfPositive, Call, Ret}"

definition advances :: "nat \<Rightarrow> interp \<times> trap option \<Rightarrow> bool" where
  "advances pc0 = (\<lambda>(it', r). r = None \<longrightarrow> pc (vm it') = Suc pc0)"

lemma exec_advances:
  "\<not> transfers (opcode_of i) \<Longrightarrow>
     outcome (advances (pc (vm it))) (\<lambda>h. True) (exec F i pc0 it)"
  by (rule exec_by_handler)
    (simp_all add: transfers_def advances_def handler_defs outcome_rules ending_defs
      helper_defs state_defs Let_def intern_defs split: option.splits)

lemma begin_step_pc [simp]: "pc (vm (begin_step it)) = pc (vm it)"
  by (simp add: begin_step_def Let_def)

end
