(* ===== verification/Safety.thy ===== *)
theory Safety
  imports Run_Facts
begin

text \<open>
  Memory safety of the interpreter. The well-formedness invariant \<open>vm_wf\<close> ties the
  register file, guest memory, layout, heap blocks and stack pointer together; every
  instruction keeps it. For a validated program whose unary operands are in range
  (\<open>gap_free\<close>) and that does not both pop and free stack frames (\<open>stack_disciplined\<close>),
  no step reaches an access outside an array: the only hazard left is signed overflow.
\<close>

section \<open>Contiguous blocks\<close>

text \<open>\<open>contiguous b fs e\<close>: the frames \<open>(address, size)\<close> of \<open>fs\<close> fill \<open>[b, e)\<close> in order.\<close>

fun contiguous :: "nat \<Rightarrow> (nat \<times> nat) list \<Rightarrow> nat \<Rightarrow> bool" where
  "contiguous b [] e \<longleftrightarrow> b = e"
| "contiguous b ((a, n) # fs) e \<longleftrightarrow> a = b \<and> 0 < n \<and> contiguous (b + n) fs e"

lemma contiguous_snoc:
  "contiguous b (fs @ [x]) e \<longleftrightarrow> contiguous b fs (fst x) \<and> 0 < snd x \<and> e = fst x + snd x"
  by (induction b fs e rule: contiguous.induct) (cases x; auto)+

lemma contiguous_le: "contiguous b fs e \<Longrightarrow> b \<le> e"
  by (induction b fs e rule: contiguous.induct) auto

lemma contiguous_butlast:
  "fs \<noteq> [] \<Longrightarrow> contiguous b fs e \<Longrightarrow>
     contiguous b (butlast fs) (fst (last fs)) \<and> fst (last fs) < e"
  using contiguous_snoc [of b "butlast fs" "last fs" e] by simp

definition frame_total :: "(nat \<times> nat) list \<Rightarrow> nat" where
  "frame_total fs = sum_list (map snd fs)"

lemma frame_total_simps [simp]:
  "frame_total [] = 0" "frame_total (fs @ [x]) = frame_total fs + snd x"
  by (simp_all add: frame_total_def)

lemma frame_total_butlast:
  "fs \<noteq> [] \<Longrightarrow> frame_total fs = frame_total (butlast fs) + snd (last fs)"
  using frame_total_simps(2) [of "butlast fs" "last fs"] by simp

section \<open>The invariant\<close>

text \<open>A vector of 32-byte instructions has fewer than \<open>2 ^ 59\<close> elements.\<close>

definition max_program :: nat where
  "max_program = 2 ^ 59"

definition vm_wf :: "interp \<Rightarrow> bool" where
  "vm_wf it \<longleftrightarrow>
     (let s = vm it; n = length (insns (prog it)) in
        n < max_program \<and> length (registers s) = 243 \<and> length (register_tags s) = 243 \<and>
        layout s = initial_layout n \<and> length (memory s) = n + 1536 \<and>
        contiguous (n + 256) (heap_frames s) (heap_ptr s) \<and> heap_ptr s \<le> n + 1024 \<and>
        tensor_pool s = [] \<and> shape_pool s = [])"

definition pops :: "program \<Rightarrow> bool" where
  "pops p \<longleftrightarrow> (\<exists>i\<in>set (insns p). opcode_of i = Pop)"

definition frees_stack :: "program \<Rightarrow> bool" where
  "frees_stack p \<longleftrightarrow> (\<exists>i\<in>set (insns p). opcode_of i = StackFree)"

definition stack_disciplined :: "program \<Rightarrow> bool" where
  "stack_disciplined p \<longleftrightarrow> \<not> (pops p \<and> frees_stack p)"

text \<open>The stack pointer stays in the stack segment, or at its end.\<close>

definition stack_ok :: "interp \<Rightarrow> bool" where
  "stack_ok it \<longleftrightarrow>
     (let s = vm it; n = length (insns (prog it)) in
        n \<le> sp s \<and> sp s \<le> n + 256 \<and>
        (\<not> pops (prog it) \<longrightarrow> sp s + frame_total (stack_frames s) \<le> n + 256))"

text \<open>
  The validator checks operand \<open>a\<close> of these opcodes only, and their handlers read
  register \<open>b\<close>.
\<close>

definition b_unchecked :: "opcode \<Rightarrow> bool" where
  "b_unchecked oc \<longleftrightarrow> oc \<in> {Neg, I2F, F2I, I2Frac, Frac2I}"

definition gap_free :: "insn \<Rightarrow> bool" where
  "gap_free i \<longleftrightarrow> (b_unchecked (opcode_of i) \<longrightarrow> valid_reg (arg_b i))"

section \<open>Every instruction keeps the invariant\<close>

lemma unat_positive_bound: "0 < sint (b :: i64) \<Longrightarrow> 0 < unat b \<and> unat b < 2 ^ 63"
  using unat_of_sint_nonneg [of b] sint_i64_bounds(2) [of b] by (simp add: nat_less_iff)

lemma size_add_heap:
  assumes "length (insns (prog it)) < max_program"
    and "heap_ptr (vm it) \<le> length (insns (prog it)) + 1024" "0 < sint (b :: i64)"
  shows "size_add (heap_ptr (vm it)) (unat b) = heap_ptr (vm it) + unat b"
  using assms unat_positive_bound [of b] by (intro size_add_small) (simp add: max_program_def)

lemma pool_ptr_Nil [simp]: "pool_ptr [] h = None"
  using unat_positive_bound [of h] by (cases "0 < sint h") (simp_all add: pool_ptr_def)

lemma vm_wf_begin_step [simp]: "vm_wf (begin_step it) = vm_wf it"
  by (simp add: vm_wf_def begin_step_def Let_def)

lemma heap_top_below:
  "vm_wf it \<Longrightarrow> heap_frames (vm it) \<noteq> [] \<Longrightarrow>
     contiguous (length (insns (prog it)) + 256) (butlast (heap_frames (vm it)))
       (fst (last (heap_frames (vm it)))) \<and>
     fst (last (heap_frames (vm it))) \<le> length (insns (prog it)) + 1024"
  using contiguous_butlast [of "heap_frames (vm it)" _ "heap_ptr (vm it)"]
  by (fastforce simp: vm_wf_def Let_def)

lemma exec_vm_wf:
  assumes "vm_wf it"
  shows "outcome (\<lambda>(it', r). vm_wf it') (\<lambda>h. True) (exec F i pc0 it)"
  using assms heap_top_below [OF assms]
  by - (rule exec_by_handler,
    simp_all add: vm_wf_def handler_defs outcome_rules ending_defs helper_defs state_defs
      Let_def intern_defs ptr_defs size_add_heap unat_positive_bound contiguous_snoc
      split: option.splits, auto)

section \<open>Operand bounds of validated instructions\<close>

text \<open>The register operands the handlers use, by the case groups of the switch.\<close>

lemma three_regs:
  assumes "insn_ok n i"
  shows "opcode_of i \<in> {Add, Sub, Mul, Div, Mod, FAdd, FSub, FMul, FDiv, FracAdd, FracSub,
      FracMul, FracDiv} \<Longrightarrow> idx_a i < 243 \<and> idx_b i < 243 \<and> idx_c i < 243"
    and "opcode_of i \<in> {TAnd, TOr, TXor} \<Longrightarrow> idx_a i < 243 \<and> idx_b i < 243 \<and> idx_c i < 243"
    and "opcode_of i \<in> {Less, LessEqual, Greater, GreaterEqual, Equal, NotEqual} \<Longrightarrow>
      idx_a i < 243 \<and> idx_b i < 243 \<and> idx_c i < 243"
    and "opcode_of i \<in> {TVecAdd, TVecMul} \<Longrightarrow> idx_a i < 243 \<and> idx_b i < 243 \<and> idx_c i < 243"
  using assms by (auto simp: insn_ok_def operands_ok_def dest!: valid_reg_less)

lemma two_regs:
  assumes "insn_ok n i"
  shows "opcode_of i \<in> {TExp, TSqrt, TSiLU, TSoftmax, TRMSNorm, TRoPE} \<Longrightarrow>
      idx_a i < 243 \<and> idx_b i < 243"
  using assms by (auto simp: insn_ok_def operands_ok_def dest!: valid_reg_less)

lemma single_regs:
  assumes "insn_ok n i"
  shows "opcode_of i = LoadImm \<Longrightarrow> idx_a i < 243"
    and "opcode_of i = Load \<Longrightarrow> idx_a i < 243"
    and "opcode_of i = Store \<Longrightarrow> idx_b i < 243"
    and "opcode_of i = Mov \<Longrightarrow> idx_a i < 243 \<and> idx_b i < 243"
    and "opcode_of i = Inc \<Longrightarrow> idx_a i < 243"
    and "opcode_of i = Dec \<Longrightarrow> idx_a i < 243"
    and "opcode_of i = Cmp \<Longrightarrow> idx_a i < 243 \<and> idx_b i < 243"
    and "opcode_of i = TNot \<Longrightarrow> idx_a i < 243 \<and> idx_b i < 243"
    and "opcode_of i = Push \<Longrightarrow> idx_a i < 243"
    and "opcode_of i = Pop \<Longrightarrow> idx_a i < 243"
    and "opcode_of i = Call \<Longrightarrow> idx_a i < 243"
    and "opcode_of i = AxRead \<Longrightarrow> idx_a i < 243"
    and "opcode_of i = AxSet \<Longrightarrow> idx_a i < 243 \<and> idx_b i < 243"
    and "opcode_of i = AxVerify \<Longrightarrow> idx_a i < 243"
    and "opcode_of i = TMatMul \<Longrightarrow> idx_a i < 243 \<and> idx_b i < 243 \<and> idx_c i < 243"
    and "opcode_of i = TTenDot \<Longrightarrow> idx_a i < 243 \<and> idx_b i < 243 \<and> idx_c i < 243"
    and "opcode_of i = TTranspose \<Longrightarrow> idx_a i < 243 \<and> idx_b i < 243"
    and "opcode_of i = ChkShape \<Longrightarrow> idx_a i < 243 \<and> idx_b i < 243 \<and> idx_c i < 243"
    and "opcode_of i = WeightsLoad \<Longrightarrow> idx_a i < 243"
    and "opcode_of i = SetF \<Longrightarrow> idx_a i < 243 \<and> idx_b i < 243"
    and "opcode_of i \<in> {StackAlloc, StackFree, HeapAlloc, HeapFree} \<Longrightarrow> idx_a i < 243"
    and "opcode_of i = MakeOptionNone \<Longrightarrow> idx_a i < 243"
    and "opcode_of i = MakeEnumVariant \<Longrightarrow> idx_a i < 243"
    and "opcode_of i \<in> {MakeOptionSome, MakeResultOk, MakeResultErr, OptionIsSome,
      OptionUnwrap, ResultIsOk, ResultUnwrapOk, ResultUnwrapErr, MakeEnumVariantPayload,
      EnumIsVariant, EnumUnwrapPayload} \<Longrightarrow> idx_a i < 243 \<and> idx_b i < 243"
  using assms by (auto simp: insn_ok_def operands_ok_def dest!: valid_reg_less)

lemmas insn_regs = three_regs two_regs single_regs

lemma gap_regs:
  assumes "insn_ok n i" "gap_free i"
  shows "opcode_of i \<in> {I2F, F2I, I2Frac, Frac2I} \<Longrightarrow> idx_a i < 243 \<and> idx_b i < 243"
    and "opcode_of i = Neg \<Longrightarrow> idx_a i < 243 \<and> idx_b i < 243"
  using assms
  by (auto simp: insn_ok_def operands_ok_def gap_free_def b_unchecked_def dest!: valid_reg_less)

section \<open>No access outside an array\<close>

definition only_overflow :: "hazard \<Rightarrow> bool" where
  "only_overflow h \<longleftrightarrow> h = SignedOverflow"

lemma only_overflow_SignedOverflow [simp]: "only_overflow SignedOverflow"
  by (simp add: only_overflow_def)

lemma outcome_arith:
  "(\<And>x. P x) \<Longrightarrow> outcome P only_overflow (arith_result oc l r)"
  by (cases "arith_result oc l r")
    (auto simp: only_overflow_def arith_result_def dest: arith_Inl split: opcode.splits)

lemma outcome_trit: "(\<And>x. P x) \<Longrightarrow> outcome P only_overflow (trit_result oc l r)"
  by (simp add: trit_result_def outcome_ssub only_overflow_def Let_def)

lemma heap_segment_in_memory [simp]: "valid_mem s a \<Longrightarrow> unat a < length (memory s)"
  by (auto simp: valid_mem_def split: if_splits)

lemma exec_safe_registers:
  assumes wf: "vm_wf it" and ok: "insn_ok n i" and gap: "gap_free i"
    and st: "stack_ok it"
  shows "outcome (\<lambda>x. True) only_overflow (exec F i pc0 it)"
  using wf st
  by - (rule exec_by_handler,
    simp_all add: vm_wf_def stack_ok_def handler_defs outcome_rules
      ending_defs helper_defs state_defs Let_def intern_defs ptr_defs
      outcome_arith outcome_trit insn_regs [OF ok] gap_regs [OF ok gap]
      split: option.splits, auto dest: heap_segment_in_memory)

section \<open>The stack pointer\<close>

lemma stack_free_sp:
  assumes "vm_wf it" "stack_ok it" "\<not> pops (prog it)" "stack_frames (vm it) \<noteq> []"
  shows "size_add (sp (vm it)) (snd (last (stack_frames (vm it)))) +
           frame_total (butlast (stack_frames (vm it))) \<le> length (insns (prog it)) + 256"
    and "length (insns (prog it)) \<le> size_add (sp (vm it)) (snd (last (stack_frames (vm it))))"
proof -
  have "sp (vm it) + frame_total (butlast (stack_frames (vm it))) +
      snd (last (stack_frames (vm it))) \<le> length (insns (prog it)) + 256"
    using assms by (simp add: stack_ok_def Let_def frame_total_butlast)
  moreover from this have "size_add (sp (vm it)) (snd (last (stack_frames (vm it)))) =
      sp (vm it) + snd (last (stack_frames (vm it)))"
    using assms(1) by (intro size_add_small) (simp add: vm_wf_def Let_def max_program_def)
  ultimately show "size_add (sp (vm it)) (snd (last (stack_frames (vm it)))) +
           frame_total (butlast (stack_frames (vm it))) \<le> length (insns (prog it)) + 256"
    and "length (insns (prog it)) \<le> size_add (sp (vm it)) (snd (last (stack_frames (vm it))))"
    using assms(2) by (simp_all add: stack_ok_def Let_def)
qed

lemma exec_stack_free_ok:
  assumes "vm_wf it" "stack_ok it" "\<not> pops (prog it)"
  shows "outcome (\<lambda>(it', r). stack_ok it') (\<lambda>h. True) (exec_stack_free i pc0 it)"
  using assms stack_free_sp [OF assms]
  by (auto simp: stack_ok_def exec_stack_free_def outcome_rules ending_defs helper_defs
      state_defs Let_def)

lemma exec_stack_ok:
  assumes wf: "vm_wf it" and st: "stack_ok it" and d: "stack_disciplined (prog it)"
    and i: "i \<in> set (insns (prog it))"
  shows "outcome (\<lambda>(it', r). stack_ok it') (\<lambda>h. True) (exec F i pc0 it)"
proof (rule exec_by_handler)
  assume "opcode_of i = StackFree"
  with d i have "\<not> pops (prog it)" by (auto simp: stack_disciplined_def frees_stack_def)
  with wf st show "outcome (\<lambda>(it', r). stack_ok it') (\<lambda>h. True) (exec_stack_free i pc0 it)"
    by (rule exec_stack_free_ok)
next
  from wf st show "outcome (\<lambda>(it', r). stack_ok it') (\<lambda>h. True) (exec_push i pc0 it)"
    by (auto simp: vm_wf_def stack_ok_def exec_push_def outcome_rules ending_defs helper_defs
        state_defs Let_def)
next
  from wf st show "outcome (\<lambda>(it', r). stack_ok it') (\<lambda>h. True) (exec_stack_alloc i pc0 it)"
    by (auto simp: vm_wf_def stack_ok_def exec_stack_alloc_def outcome_rules ending_defs
        helper_defs state_defs Let_def)
next
  assume "opcode_of i = Pop"
  with i have "pops (prog it)" by (auto simp: pops_def)
  with wf st show "outcome (\<lambda>(it', r). stack_ok it') (\<lambda>h. True) (exec_pop i pc0 it)"
    by (simp add: vm_wf_def stack_ok_def exec_pop_def outcome_rules ending_defs helper_defs
        state_defs Let_def)
qed (use wf st in \<open>simp_all add: vm_wf_def stack_ok_def handler_defs outcome_rules ending_defs
      helper_defs state_defs Let_def intern_defs ptr_defs split: option.splits\<close>)

section \<open>Reachable machines\<close>

text \<open>
  The machines a host reaches through the interface: loading, stepping, and, when
  \<open>host\<close> is set, writing registers. \<open>load_program\<close> may start from any earlier object.
\<close>

inductive reach :: "'d fpu \<Rightarrow> bool \<Rightarrow> program \<Rightarrow> interp \<Rightarrow> bool" for F host p where
  loaded: "load_program p it0 = Inr it \<Longrightarrow> reach F host p it"
| stepped: "reach F host p it \<Longrightarrow> step F it = Inr (it', r) \<Longrightarrow> reach F host p it'"
| written: "reach F host p it \<Longrightarrow> host \<Longrightarrow> set_register k v t it = Inr it' \<Longrightarrow> reach F host p it'"

lemma load_vm_wf:
  assumes "load_program p it0 = Inr it" "length (insns p) < max_program"
  shows "vm_wf it \<and> stack_ok it \<and> prog it = p \<and> preload_trap it = validate_program p"
  by (rule load_program_Inr [OF assms(1)])
    (use assms(2) in \<open>simp add: vm_wf_def stack_ok_def default_state_def\<close>)

lemma set_register_wf:
  "vm_wf it \<Longrightarrow> set_register k v t it = Inr it' \<Longrightarrow>
     vm_wf it' \<and> stack_ok it' = stack_ok it \<and> prog it' = prog it \<and>
     preload_trap it' = preload_trap it"
  by (auto simp: set_register_def vm_wf_def stack_ok_def Let_def split: if_splits)

lemma raise_trap_wf:
  "raise_trap tr oc pc0 seg d it = Inr (it', r) \<Longrightarrow>
     vm_wf it' = vm_wf it \<and> stack_ok it' = stack_ok it \<and> prog it' = prog it"
  by (auto simp: raise_trap_eq vm_wf_def stack_ok_def Let_def)

lemma step_vm_wf:
  assumes "step F it = Inr (it', r)" "vm_wf it"
  shows "vm_wf it' \<and> prog it' = prog it"
  using assms(1)
proof (cases rule: step_cases)
  case (run i)
  have "vm_wf (begin_step it)" using assms(2) by simp
  from outcome_InrD [OF exec_vm_wf [OF this] run(5)] outcome_InrD [OF exec_frame run(5)]
  show ?thesis by (simp add: frame_kept_def)
qed (use assms(2) in \<open>auto dest: raise_trap_wf\<close>)

lemma stack_ok_begin_step [simp]: "stack_ok (begin_step it) = stack_ok it"
  by (simp add: stack_ok_def begin_step_def Let_def)

lemma step_stack_ok:
  assumes "step F it = Inr (it', r)" "vm_wf it" "stack_ok it" "stack_disciplined (prog it)"
  shows "stack_ok it'"
  using assms(1)
proof (cases rule: step_cases)
  case (run i)
  have "vm_wf (begin_step it)" "stack_ok (begin_step it)"
    "stack_disciplined (prog (begin_step it))" "i \<in> set (insns (prog (begin_step it)))"
    using assms(2-4) run(3,4) by simp_all
  from outcome_InrD [OF exec_stack_ok [OF this] run(5)] show ?thesis by simp
qed (use assms(3) in \<open>auto dest: raise_trap_wf\<close>)

lemma reach_vm_wf:
  "reach F host p it \<Longrightarrow> length (insns p) < max_program \<Longrightarrow> vm_wf it \<and> prog it = p"
proof (induction rule: reach.induct)
  case (loaded it0 it)
  then show ?case using load_vm_wf by blast
next
  case (stepped it it' r)
  then show ?case using step_vm_wf by metis
next
  case (written it k v t it')
  then show ?case using set_register_wf by metis
qed

lemma reach_stack_ok:
  "reach F host p it \<Longrightarrow> length (insns p) < max_program \<Longrightarrow> stack_disciplined p \<Longrightarrow> stack_ok it"
proof (induction rule: reach.induct)
  case (loaded it0 it)
  then show ?case using load_vm_wf by blast
next
  case (stepped it it' r)
  then show ?case using step_stack_ok reach_vm_wf by metis
next
  case (written it k v t it')
  then show ?case using set_register_wf reach_vm_wf by metis
qed

lemma step_safe:
  assumes "vm_wf it" "stack_ok it" "list_all (insn_ok n) (insns (prog it))"
    "\<forall>i\<in>set (insns (prog it)). gap_free i" "step F it = Inl h"
  shows "h = SignedOverflow"
proof -
  from assms(5) obtain "\<not> halted (vm it)" "preload_trap it = None"
    and len: "pc (vm it) < length (insns (prog it))"
    and ex: "exec F (insns (prog it) ! pc (vm it)) (pc (vm it)) (begin_step it) = Inl h"
    by (auto simp: step_def raise_trap_eq split: if_splits option.splits)
  let ?i = "insns (prog it) ! pc (vm it)"
  from len have "?i \<in> set (insns (prog it))" by simp
  with assms(3,4) have "insn_ok n ?i" "gap_free ?i" by (auto simp: list_all_iff)
  with assms(1,2) have "outcome (\<lambda>x. True) only_overflow (exec F ?i (pc (vm it)) (begin_step it))"
    by (intro exec_safe_registers) simp_all
  from outcome_InlD [OF this ex] show ?thesis by (simp add: only_overflow_def)
qed

section \<open>Properties\<close>

text \<open>
  C1: memory safety. Take any program the validator accepts, whose unary instructions name
  a valid source register and which does not both pop and free stack frames. In every
  machine a host can reach by loading it, stepping and writing registers, the next step
  performs no access outside the register file, guest memory or a tensor and throws no
  exception: the only undefined behaviour left is signed overflow.
\<close>

theorem validated_steps_are_safe:
  assumes "reach F host p it" "validate_program p = None" "length (insns p) < max_program"
    and "\<forall>i\<in>set (insns p). gap_free i" "stack_disciplined p"
  shows "\<forall>h. step F it = Inl h \<longrightarrow> h = SignedOverflow"
proof (intro allI impI)
  fix h assume "step F it = Inl h"
  moreover have "vm_wf it" "prog it = p" using reach_vm_wf [OF assms(1,3)] by simp_all
  moreover have "stack_ok it" using reach_stack_ok [OF assms(1,3,5)] .
  moreover have "list_all (insn_ok (length (insns p))) (insns p)"
    using assms(2) by (simp add: validate_program_def)
  ultimately show "h = SignedOverflow" using assms(4) step_safe by metis
qed

theorem validated_steps_are_safe_witness:
  "\<exists>it. reach int_fpu True (bare_program sample_frames) it \<and>
     (\<forall>h. step int_fpu it = Inl h \<longrightarrow> h = SignedOverflow)"
proof -
  have r: "reach int_fpu True (bare_program sample_frames) (loaded_vm sample_frames)"
    by (rule reach.loaded [OF load_bare])
  have v: "validate_program (bare_program sample_frames) = None"
    by (simp add: validate_program_None sample_frames_def insn_ok_eval)
  have g: "\<forall>i\<in>set (insns (bare_program sample_frames)). gap_free i"
    "stack_disciplined (bare_program sample_frames)"
    "length (insns (bare_program sample_frames)) < max_program"
    by (auto simp: sample_frames_def gap_free_def b_unchecked_def stack_disciplined_def pops_def
        max_program_def)
  from validated_steps_are_safe [OF r v g(3,1,2)] r show ?thesis by blast
qed

end
