(* ===== verification/Execution.thy ===== *)
theory Execution
  imports Safety
begin

text \<open>
  What a host observes of an execution: the trace entry and payload of each step, the
  atomicity of traps, the exact meaning of \<open>run_to_halt\<close>, the collection counter,
  replay of the trace, and independence of an object's history.
\<close>

section \<open>Evaluating sample runs\<close>

lemmas run_eval = run_to_halt_numeral step_def begin_step_def exec_def handler_defs ending_defs
  helper_defs state_defs Let_def validate_program_eval insn_ok_eval gc_interval_def
  sadd_def int64_fits_def arith_result_def is_division_def requested_size_def
  current_opcode_def fault_operands_def

section \<open>Fault operands\<close>

definition operands_recorded :: "program \<Rightarrow> interp \<times> trap option \<Rightarrow> bool" where
  "operands_recorded p = (\<lambda>(it', r). r \<noteq> None \<longrightarrow>
     (\<exists>pl. last_trap_payload (vm it') = Some pl \<and> r = Some (tp_trap pl) \<and>
        (tp_a pl, tp_b pl, tp_c pl) = fault_operands p (tp_opcode pl) (tp_pc pl)))"

lemma exec_operands: "outcome (operands_recorded (prog it)) (\<lambda>h. True) (exec F i pc0 it)"
  by (rule exec_by_handler)
    (simp_all add: operands_recorded_def handler_defs outcome_rules ending_defs
      helper_defs state_defs Let_def intern_defs split: option.splits)

lemma raise_trap_operands:
  "outcome (operands_recorded (prog it)) (\<lambda>h. True) (raise_trap t oc pc0 seg d it)"
  by (simp add: operands_recorded_def raise_trap_eq)

lemma step_operands:
  assumes "step F it = Inr (it', r)"
  shows "operands_recorded (prog it) (it', r)"
  using assms
proof (cases rule: step_cases)
  case stopped
  then show ?thesis by (simp add: operands_recorded_def)
next
  case (preload t)
  from outcome_InrD [OF raise_trap_operands preload(3)] show ?thesis .
next
  case past_end
  from outcome_InrD [OF raise_trap_operands past_end(4)] show ?thesis .
next
  case (run i)
  from outcome_InrD [OF exec_operands run(5)] show ?thesis by simp
qed

section \<open>Every step is recorded\<close>

text \<open>
  C3: the canonical trace. A step of a machine that has not halted appends exactly one trace
  entry: it names the program counter before the step, the opcode there (\<open>Nop\<close> behind the
  last instruction) and the trap the step returns. When the step traps, the payload names
  the same trap, counter and opcode, and the operands \<open>a\<close>, \<open>b\<close>, \<open>c\<close> of the instruction at
  that counter, in this order (zeros behind the last instruction).
\<close>

theorem step_appends_one_entry:
  assumes "step F it = Inr (it', r)" "\<not> halted (vm it)"
  shows "\<exists>e. trace (vm it') = trace (vm it) @ [e] \<and> te_pc e = pc (vm it) \<and>
     te_opcode e = current_opcode it \<and> te_trap e = r \<and>
     (r \<noteq> None \<longrightarrow> (\<exists>pl. last_trap_payload (vm it') = Some pl \<and> Some (tp_trap pl) = r \<and>
        tp_pc pl = pc (vm it) \<and> tp_opcode pl = current_opcode it \<and>
        (if pc (vm it) < length (insns (prog it))
         then tp_a pl = arg_a (insns (prog it) ! pc (vm it)) \<and>
              tp_b pl = arg_b (insns (prog it) ! pc (vm it)) \<and>
              tp_c pl = arg_c (insns (prog it) ! pc (vm it))
         else tp_a pl = 0 \<and> tp_b pl = 0 \<and> tp_c pl = 0)))"
proof -
  from step_traced [OF assms] obtain e where "trace (vm it') = trace (vm it) @ [e]"
    "te_pc e = pc (vm it)" "te_opcode e = current_opcode it" "te_trap e = r"
    "payload_matches (vm it') e"
    by (auto simp: traced_def)
  with step_operands [OF assms(1)] show ?thesis
    by (auto simp: operands_recorded_def payload_matches_def fault_operands_def
        current_opcode_def split: option.splits)
qed

theorem step_appends_one_entry_witness:
  "\<exists>it'. step int_fpu (loaded_vm [mk_insn Ret 1 2 3]) = Inr (it', Some StackFault) \<and>
     (\<exists>e pl. trace (vm it') = [e] \<and> te_opcode e = Ret \<and> te_trap e = Some StackFault \<and>
        last_trap_payload (vm it') = Some pl \<and> tp_a pl = 1 \<and> tp_b pl = 2 \<and> tp_c pl = 3)"
proof -
  let ?it = "loaded_vm [mk_insn Ret 1 2 3]"
  have st: "\<exists>it'. step int_fpu ?it = Inr (it', Some StackFault)"
    by (simp add: run_eval loaded_defs)
  then obtain it' where it': "step int_fpu ?it = Inr (it', Some StackFault)" by blast
  have "\<not> halted (vm ?it)" "trace (vm ?it) = []" "current_opcode ?it = Ret" "pc (vm ?it) = 0"
    "insns (prog ?it) = [mk_insn Ret 1 2 3]"
    by (simp_all add: loaded_defs current_opcode_def)
  with step_appends_one_entry [OF it'] it' show ?thesis by auto
qed

section \<open>Traps are atomic\<close>

lemma erase_records_eq:
  "erase_records x = erase_records y \<Longrightarrow>
     x = y\<lparr>vm := (vm y)\<lparr>trace := trace (vm x), axion_log := axion_log (vm x),
              last_trap_payload := last_trap_payload (vm x), gc_cycles := gc_cycles (vm x)\<rparr>,
           preload_trap := preload_trap x, steps := steps x, cur_write_reg := cur_write_reg x,
           cur_write_value := cur_write_value x, cur_write_tag := cur_write_tag x\<rparr>"
  unfolding erase_records_def
  by (cases x rule: interp.cases, cases y rule: interp.cases, cases "vm x" rule: state.cases,
      cases "vm y" rule: state.cases) simp

lemma step_trap_preload:
  assumes "step F it = Inr (it', Some t)"
  shows "preload_trap it' = None"
  using assms
proof (cases rule: step_cases)
  case (run i)
  from outcome_InrD [OF exec_frame run(5)] run(2) show ?thesis by (simp add: frame_kept_def)
qed (auto simp: raise_trap_eq)

text \<open>
  C4: traps are atomic. A step that traps changes the records and counters only: the trace,
  the event log, the payload, the collection counter, the instruction counter and the
  fields of the last register write may change, and a pending verdict of the validator is
  cleared (\<open>preload_trap\<close> is \<open>None\<close> afterwards). The program, program counter, halt bit,
  registers and tags, flags, memory, both allocators, the value pools, the policy and the
  call stack are those before the step.
\<close>

theorem trap_leaves_machine_unchanged:
  assumes "step F it = Inr (it', Some t)"
  shows "it' = it\<lparr>vm := (vm it)\<lparr>trace := trace (vm it'), axion_log := axion_log (vm it'),
              last_trap_payload := last_trap_payload (vm it'), gc_cycles := gc_cycles (vm it')\<rparr>,
           preload_trap := None, steps := steps it', cur_write_reg := cur_write_reg it',
           cur_write_value := cur_write_value it', cur_write_tag := cur_write_tag it'\<rparr>"
  using erase_records_eq [OF step_atomic_trap [OF assms]]
  unfolding step_trap_preload [OF assms] .

theorem trap_leaves_machine_unchanged_witness:
  "\<exists>it'. step int_fpu (loaded_vm [mk_insn Pop 0 0 0]) = Inr (it', Some StackFault) \<and>
     memory (vm it') = memory (vm (loaded_vm [mk_insn Pop 0 0 0])) \<and> sp (vm it') = 257"
proof -
  let ?it = "loaded_vm [mk_insn Pop 0 0 0]"
  have "\<exists>it'. step int_fpu ?it = Inr (it', Some StackFault)"
    by (simp add: run_eval loaded_defs)
  then obtain it' where st: "step int_fpu ?it = Inr (it', Some StackFault)" by blast
  note unchanged = trap_leaves_machine_unchanged [OF st]
  have "memory (vm it') = memory (vm ?it)" "sp (vm it') = sp (vm ?it)"
    using arg_cong [OF unchanged, of "\<lambda>x. memory (vm x)"]
      arg_cong [OF unchanged, of "\<lambda>x. sp (vm x)"] by simp_all
  with st show ?thesis by (auto simp: loaded_defs)
qed

section \<open>Running to the end\<close>

text \<open>
  C2: what \<open>run_to_halt\<close> returns, exactly. A call with the bound \<open>n\<close> returns a machine and
  an outcome if and only if the machine ends in that way, by halting or by a trap, after
  some \<open>k \<le> n\<close> steps, or it takes \<open>n\<close> successful steps without halting; only in the second
  case is the reported \<open>TrapInstruction\<close> no trap of a step.
\<close>

theorem run_to_halt_exact:
  "run_to_halt F n it = Inr (it', r) \<longleftrightarrow>
     (\<exists>k. k \<le> n \<and> runs F it k (it', r)) \<or> (ongoing F it n it' \<and> r = Some TrapInstruction)"
proof
  assume "run_to_halt F n it = Inr (it', r)"
  from run_to_halt_cases [OF this] show
    "(\<exists>k. k \<le> n \<and> runs F it k (it', r)) \<or> (ongoing F it n it' \<and> r = Some TrapInstruction)"
    by simp
next
  assume "(\<exists>k. k \<le> n \<and> runs F it k (it', r)) \<or> (ongoing F it n it' \<and> r = Some TrapInstruction)"
  then show "run_to_halt F n it = Inr (it', r)"
    using runs_run_to_halt ongoing_run_to_halt by auto
qed

text \<open>An invariant of steps is an invariant of runs.\<close>

lemma run_to_halt_invariant:
  assumes "run_to_halt F n it = Inr (it', r)" "P it"
    and "\<And>it it' r. step F it = Inr (it', r) \<Longrightarrow> P it \<Longrightarrow> P it'"
  shows "P it'"
  using assms(1,2)
proof (induction n arbitrary: it)
  case (Suc n)
  from Suc.prems(1) obtain it1 r1 where st: "step F it = Inr (it1, r1)"
    and rest: "(case r1 of Some t \<Rightarrow> Inr (it1, Some t)
       | None \<Rightarrow> if halted (vm it1) then Inr (it1, None) else run_to_halt F n it1) = Inr (it', r)"
    by (auto simp: ebind_eq_Inr)
  from assms(3) [OF st Suc.prems(2)] rest Suc.IH show ?case
    by (auto split: option.splits if_splits)
qed simp

lemma load_fresh_machine:
  assumes "load_program p it0 = Inr it"
  shows "trace (vm it) = []" "\<not> halted (vm it)" "pc (vm it) = 0" "prog it = p"
    "steps it = 0" "gc_cycles (vm it) = 0" "registers (vm it) = replicate 243 0"
    "register_tags (vm it) = replicate 243 IntTag" "preload_trap it = validate_program p"
  by (rule load_program_Inr [OF assms]; simp add: default_state_def)+

section \<open>Counters\<close>

lemma exec_steps: "exec F i pc0 it = Inr (it', r) \<Longrightarrow> steps it' = steps it"
  using outcome_InrD [OF exec_frame] by (simp add: frame_kept_def) blast

lemma step_steps: "step F it = Inr (it', r) \<Longrightarrow> steps it' \<le> Suc (steps it)"
  by (cases rule: step_cases) (auto simp: raise_trap_eq dest: exec_steps)

lemma set_register_steps:
  "set_register k v t it = Inr it' \<Longrightarrow> steps it' = steps it \<and> trace (vm it') = trace (vm it) \<and>
     gc_cycles (vm it') = gc_cycles (vm it)"
  by (auto simp: set_register_def register_defs ebind_eq_Inr vwrite_eq_Inr split: if_splits)

text \<open>
  The executed instructions are read off the trace: an entry records one unless its program
  counter lies behind the last instruction, or it is the first entry of a program the
  validator rejected, which records the verdict.
\<close>

definition executed_entries :: "program \<Rightarrow> trace_entry list \<Rightarrow> trace_entry list" where
  "executed_entries p es =
     filter (\<lambda>e. te_pc e < length (insns p)) (if validate_program p = None then es else tl es)"

lemma executed_entries_snoc:
  "executed_entries p (es @ [e]) = executed_entries p es @
     (if te_pc e < length (insns p) \<and> (es \<noteq> [] \<or> validate_program p = None) then [e] else [])"
  by (cases es) (simp_all add: executed_entries_def)

definition counted :: "program \<Rightarrow> interp \<Rightarrow> bool" where
  "counted p it \<longleftrightarrow> prog it = p \<and> gc_counted it \<and>
     preload_trap it = (if trace (vm it) = [] then validate_program p else None) \<and>
     steps it = length (executed_entries p (trace (vm it)))"

lemma step_counted:
  assumes "step F it = Inr (it', r)" "counted p it"
  shows "counted p it'"
proof (cases "halted (vm it)")
  case True
  with assms show ?thesis by (simp add: step_def)
next
  case False
  from step_gc_counted [OF assms(1)] assms(2) have gc: "gc_counted it'" by (simp add: counted_def)
  from step_traced [OF assms(1) False] obtain e where
    e: "trace (vm it') = trace (vm it) @ [e]" "te_pc e = pc (vm it)" by (auto simp: traced_def)
  from assms(1) show ?thesis
  proof (cases rule: step_cases)
    case (run i)
    from outcome_InrD [OF exec_frame run(5)] run(2) have
      "prog it' = prog it" "steps it' = Suc (steps it)" "preload_trap it' = None"
      by (simp_all add: frame_kept_def begin_step_def Let_def)
    with assms(2) gc e run(2,3) show ?thesis
      by (auto simp: counted_def executed_entries_snoc split: if_splits)
  qed (use assms(2) gc e False in
    \<open>auto simp: counted_def executed_entries_snoc raise_trap_eq split: if_splits\<close>)
qed

lemma reach_counted: "reach F host p it \<Longrightarrow> counted p it"
proof (induction rule: reach.induct)
  case (loaded it0 it)
  from load_fresh_machine [OF loaded] show ?case
    by (simp add: counted_def gc_counted_def executed_entries_def)
next
  case (stepped it it' r)
  then show ?case by (simp add: step_counted)
next
  case (written it k v t it')
  from written(3) have "prog it' = prog it \<and> preload_trap it' = preload_trap it"
    by (auto simp: set_register_def register_defs ebind_eq_Inr vwrite_eq_Inr split: if_splits)
  with set_register_steps [OF written(3)] written.IH show ?case
    by (simp add: counted_def gc_counted_def)
qed

text \<open>
  C33: the deterministic collection counter. In every reachable machine it is the number of
  instructions executed since the program was loaded, as the trace records them, divided by
  the interval of 64.
\<close>

theorem collection_counter:
  assumes "reach F host p it"
  shows "gc_cycles (vm it) = length (executed_entries p (trace (vm it))) div 64"
  using reach_counted [OF assms] by (simp add: counted_def gc_counted_def gc_interval_def)

text \<open>A loop that executes as many instructions as one asks for.\<close>

definition sample_spin :: "insn list" where
  "sample_spin = [mk_insn Jump 0 0 0]"

lemma spin_reach:
  "\<exists>it. reach F host (bare_program sample_spin) it \<and> prog it = bare_program sample_spin \<and>
     \<not> halted (vm it) \<and> pc (vm it) = 0 \<and> preload_trap it = None \<and>
     length (executed_entries (bare_program sample_spin) (trace (vm it))) = n"
proof (induction n)
  case 0
  have "reach F host (bare_program sample_spin) (loaded_vm sample_spin)"
    by (rule reach.loaded [OF load_bare])
  then show ?case
    by (intro exI [of _ "loaded_vm sample_spin"]) (simp add: loaded_defs executed_entries_def validate_program_eval
        insn_ok_eval sample_spin_def)
next
  case (Suc n)
  then obtain it where it: "reach F host (bare_program sample_spin) it"
    "prog it = bare_program sample_spin" "\<not> halted (vm it)" "pc (vm it) = 0" "preload_trap it = None"
    "length (executed_entries (bare_program sample_spin) (trace (vm it))) = n" by blast
  from it(2-5) have st: "\<exists>it'. step F it = Inr (it', None) \<and> prog it' = prog it \<and>
      \<not> halted (vm it') \<and> pc (vm it') = 0 \<and> preload_trap it' = None"
    by (simp add: step_def exec_def exec_jump_def check_jump_target_def target_outside_def
        jump_taken_def ending_defs helper_defs state_defs Let_def
        begin_step_def sample_spin_def)
  then obtain it' where it': "step F it = Inr (it', None)" "prog it' = prog it"
    "\<not> halted (vm it')" "pc (vm it') = 0" "preload_trap it' = None" by blast
  have ok: "validate_program (bare_program sample_spin) = None"
    by (simp add: validate_program_None insn_ok_eval sample_spin_def)
  from step_traced [OF it'(1) it(3)] it(4,6) ok
  have "length (executed_entries (bare_program sample_spin) (trace (vm it'))) = Suc n"
    by (auto simp: traced_def executed_entries_snoc sample_spin_def)
  with it' it(1,2) reach.stepped [OF it(1) it'(1)] show ?case by auto
qed

theorem collection_counter_witness:
  "\<exists>it. reach int_fpu False (bare_program sample_spin) it \<and>
     length (executed_entries (bare_program sample_spin) (trace (vm it))) = 130 \<and>
     gc_cycles (vm it) = 2"
proof -
  from spin_reach [of int_fpu False 130] obtain it where
    it: "reach int_fpu False (bare_program sample_spin) it"
      "length (executed_entries (bare_program sample_spin) (trace (vm it))) = 130" by blast
  from collection_counter [OF it(1)] it show ?thesis by auto
qed

section \<open>Replaying the trace\<close>

definition apply_write ::
  "trace_entry \<Rightarrow> i64 list \<times> value_tag list \<Rightarrow> i64 list \<times> value_tag list" where
  "apply_write e rf =
     (case (te_write_reg e, te_write_value e, te_write_tag e) of
        (Some k, Some v, Some t) \<Rightarrow> ((fst rf)[k := v], (snd rf)[k := t])
      | _ \<Rightarrow> rf)"

definition register_file :: "interp \<Rightarrow> i64 list \<times> value_tag list" where
  "register_file it = (registers (vm it), register_tags (vm it))"

definition logs_writes :: "opcode \<Rightarrow> bool" where
  "logs_writes oc \<longleftrightarrow> oc \<notin> {Inc, Dec, Pop}"

text \<open>A stale write, as \<open>raise_trap\<close> would record it, is the current content.\<close>

definition writes_replayed :: "interp \<Rightarrow> interp \<times> trap option \<Rightarrow> bool" where
  "writes_replayed it = (\<lambda>(it', r). \<exists>e. trace (vm it') = trace (vm it) @ [e] \<and>
     te_write_reg e = cur_write_reg it' \<and> te_write_value e = cur_write_value it' \<and>
     te_write_tag e = cur_write_tag it' \<and>
     register_file it' = apply_write e (register_file it))"

lemma exec_writes_replayed:
  assumes "logs_writes (opcode_of i)" "cur_write_reg it = None" "cur_write_value it = None"
    "cur_write_tag it = None"
  shows "outcome (writes_replayed it) (\<lambda>h. True) (exec F i pc0 it)"
  using assms
  by - (rule exec_by_handler,
    simp_all add: logs_writes_def writes_replayed_def apply_write_def register_file_def
      handler_defs outcome_rules ending_defs helper_defs state_defs Let_def intern_defs
      split: option.splits)

lemma apply_write_twice: "apply_write e (apply_write e rf) = apply_write e rf"
  by (auto simp: apply_write_def split: option.splits)

lemma begin_step_register_file [simp]: "register_file (begin_step it) = register_file it"
  by (simp add: register_file_def begin_step_def Let_def)

text \<open>The register file is the replayed trace; a write still pending is in it already.\<close>

definition replayed :: "interp \<Rightarrow> bool" where
  "replayed it \<longleftrightarrow> list_all (\<lambda>i. logs_writes (opcode_of i)) (insns (prog it)) \<and>
     register_file it = fold apply_write (trace (vm it)) (replicate 243 0, replicate 243 IntTag) \<and>
     (\<forall>e. te_write_reg e = cur_write_reg it \<longrightarrow> te_write_value e = cur_write_value it \<longrightarrow>
        te_write_tag e = cur_write_tag it \<longrightarrow> apply_write e (register_file it) = register_file it)"

lemma raise_trap_replayed:
  "raise_trap t oc pc0 seg d it = Inr (it', r) \<Longrightarrow> replayed it \<Longrightarrow> replayed it'"
  by (auto simp: raise_trap_eq replayed_def register_file_def)

lemma step_replayed:
  assumes "step F it = Inr (it', r)" "replayed it"
  shows "replayed it'"
  using assms(1)
proof (cases rule: step_cases)
  case (run i)
  have "logs_writes (opcode_of i)" using assms(2) run(3,4) by (simp add: replayed_def list_all_iff)
  from outcome_InrD [OF exec_writes_replayed [OF this] run(5)] obtain e where
    e: "trace (vm it') = trace (vm it) @ [e]" "te_write_reg e = cur_write_reg it'"
      "te_write_value e = cur_write_value it'" "te_write_tag e = cur_write_tag it'"
      "register_file it' = apply_write e (register_file it)"
    by (auto simp: writes_replayed_def)
  have same: "apply_write e' rf = apply_write e rf" if "te_write_reg e' = cur_write_reg it'"
    "te_write_value e' = cur_write_value it'" "te_write_tag e' = cur_write_tag it'" for e' rf
    using that e(2-4) by (simp add: apply_write_def)
  have "prog it' = prog it" using outcome_InrD [OF exec_frame run(5)] by (simp add: frame_kept_def)
  then show ?thesis
    using assms(2) e(1,5) same by (simp add: replayed_def apply_write_twice)
qed (use assms(2) in \<open>auto dest: raise_trap_replayed\<close>)

text \<open>The write fields an object kept from before matter to no executed instruction.\<close>

lemma begin_step_forgets_write:
  "begin_step (it\<lparr>cur_write_reg := w, cur_write_value := v, cur_write_tag := t\<rparr>) = begin_step it"
  by (simp add: begin_step_def Let_def)

lemma step_forgets_write:
  assumes "preload_trap it = None" "pc (vm it) < length (insns (prog it))" "\<not> halted (vm it)"
  shows "step F (it\<lparr>cur_write_reg := w, cur_write_value := v, cur_write_tag := t\<rparr>) = step F it"
  using assms by (simp add: step_def begin_step_forgets_write)

lemma load_twice:
  assumes "load_program p a = Inr x" "load_program p b = Inr y"
  shows "y = x\<lparr>cur_write_reg := cur_write_reg b, cur_write_value := cur_write_value b,
               cur_write_tag := cur_write_tag b\<rparr>"
  using assms by (cases a, cases b) (auto simp: load_program_def ebind_eq_Inr)

lemma load_bare_on:
  "load_program (bare_program is) b =
     Inr ((loaded_vm is)\<lparr>cur_write_reg := cur_write_reg b, cur_write_value := cur_write_value b,
       cur_write_tag := cur_write_tag b\<rparr>)"
  by (simp add: load_program_def load_program_image_def parse_policy_def tier_re_def
      loaded_vm_def default_state_def make_interpreter_vm_def)

lemma run_replayed:
  assumes "run_to_halt F n it = Inr (it', r)" "replayed it"
  shows "replayed it'"
  using run_to_halt_invariant [where P = replayed, OF assms step_replayed] .

lemma load_replayed:
  assumes "load_program p b = Inr it" "\<forall>i\<in>set (insns p). opcode_of i \<notin> {Inc, Dec, Pop}"
  shows "replayed (it\<lparr>cur_write_reg := None, cur_write_value := v, cur_write_tag := t\<rparr>)"
  using load_fresh_machine [OF assms(1)] assms(2)
  by (auto simp: replayed_def register_file_def apply_write_def logs_writes_def list_all_iff)

text \<open>
  C10: the trace determines the registers. Load a program without \<open>Inc\<close>, \<open>Dec\<close> and \<open>Pop\<close>
  (these write registers without recording it) and run it: the register file and its tags
  at the end are what one gets by applying the writes of the trace, in order, to a cleared
  register file. The object may have been used before if the program is non-empty and the
  validator accepts it; otherwise the object must hold no register write from before, as a
  fresh one does (the entry that reports the refusal would repeat it).
\<close>

theorem trace_replays_registers:
  assumes "load_program p b = Inr it"
    and "cur_write_reg b = None \<or> validate_program p = None \<and> insns p \<noteq> []"
    and "\<forall>i\<in>set (insns p). opcode_of i \<notin> {Inc, Dec, Pop}"
    and "run_to_halt F n it = Inr (it', r)"
  shows "(registers (vm it'), register_tags (vm it')) =
     fold apply_write (trace (vm it')) (replicate 243 0, replicate 243 IntTag)"
proof -
  note fresh = load_fresh_machine [OF assms(1)]
  let ?clear = "it\<lparr>cur_write_reg := None, cur_write_value := cur_write_value it,
      cur_write_tag := cur_write_tag it\<rparr>"
  have "register_file it' = fold apply_write (trace (vm it')) (replicate 243 0, replicate 243 IntTag)"
  proof (cases n)
    case 0
    with assms(4) fresh show ?thesis by (simp add: register_file_def)
  next
    case (Suc m)
    have "run_to_halt F n ?clear = Inr (it', r)"
    proof (cases "cur_write_reg b = None")
      case True
      have "?clear = it" using assms(1) True by (auto simp: load_program_def ebind_eq_Inr)
      with assms(4) show ?thesis by simp
    next
      case False
      have "step F ?clear = step F it"
        by (rule step_forgets_write) (use fresh assms(2) False in auto)
      with assms(4) Suc show ?thesis by simp
    qed
    from run_replayed [OF this load_replayed [OF assms(1,3)]] show ?thesis
      by (simp add: replayed_def)
  qed
  then show ?thesis by (simp add: register_file_def)
qed

theorem trace_replays_registers_witness:
  "\<exists>b it it' r. step int_fpu (loaded_vm [mk_insn LoadImm 5 9 0]) = Inr (b, None) \<and>
     load_program (bare_program sample_push) b = Inr it \<and> cur_write_reg it = Some 5 \<and>
     run_to_halt int_fpu 8 it = Inr (it', r) \<and>
     registers (vm it') = fst (fold apply_write (trace (vm it')) (replicate 243 0, replicate 243 IntTag))"
proof -
  have "\<exists>b. step int_fpu (loaded_vm [mk_insn LoadImm 5 9 0]) = Inr (b, None) \<and> cur_write_reg b = Some 5"
    by (simp add: run_eval loaded_defs)
  then obtain b where b: "step int_fpu (loaded_vm [mk_insn LoadImm 5 9 0]) = Inr (b, None)"
    "cur_write_reg b = Some 5" by blast
  let ?it = "(loaded_vm sample_push)\<lparr>cur_write_reg := cur_write_reg b,
      cur_write_value := cur_write_value b, cur_write_tag := cur_write_tag b\<rparr>"
  have regs: "\<forall>i\<in>set (insns (bare_program sample_push)). opcode_of i \<notin> {Inc, Dec, Pop}"
    by (simp add: sample_push_def)
  have ok: "cur_write_reg b = None \<or>
      validate_program (bare_program sample_push) = None \<and> insns (bare_program sample_push) \<noteq> []"
    by (simp add: validate_program_None sample_push_def insn_ok_eval)
  have "\<exists>it' r. run_to_halt int_fpu 8 ?it = Inr (it', r)"
    by (simp add: run_eval loaded_defs sample_push_def)
  then obtain it' r where run: "run_to_halt int_fpu 8 ?it = Inr (it', r)" by blast
  have "registers (vm it') = fst (fold apply_write (trace (vm it')) (replicate 243 0, replicate 243 IntTag))"
    using arg_cong [OF trace_replays_registers [OF load_bare_on ok regs run], of fst] by simp
  moreover have "cur_write_reg ?it = Some 5" using b(2) by simp
  ultimately show ?thesis using b(1) load_bare_on [of sample_push b] run by blast
qed

section \<open>Reuse of an object\<close>

text \<open>
  C11: executions do not depend on what an object ran before. Loading a non-empty program
  that the validator accepts into any two objects and running it with the same bound gives
  the same result, down to the machine and the hazard.
\<close>

theorem reload_is_deterministic:
  assumes "load_program p a = Inr x" "load_program p b = Inr y"
    and "validate_program p = None" "insns p \<noteq> []"
  shows "run_to_halt F (Suc n) x = run_to_halt F (Suc n) y"
proof -
  note fresh = load_fresh_machine [OF assms(1)]
  have "step F y = step F x"
    unfolding load_twice [OF assms(1,2)] by (rule step_forgets_write) (use fresh assms(3,4) in auto)
  then show ?thesis by simp
qed

text \<open>A used object: its last instruction wrote \<open>9\<close> to register \<open>5\<close>.\<close>

definition used_vm :: interp where
  "used_vm = make_interpreter_vm\<lparr>cur_write_reg := Some 5, cur_write_value := Some 9,
     cur_write_tag := Some IntTag\<rparr>"

lemma load_used:
  "load_program (bare_program is) used_vm =
     Inr ((loaded_vm is)\<lparr>cur_write_reg := Some 5, cur_write_value := Some 9,
       cur_write_tag := Some IntTag\<rparr>)"
  by (simp add: load_bare_on used_vm_def)

theorem reload_is_deterministic_witness:
  "\<exists>y. load_program (bare_program sample_push) used_vm = Inr y \<and> y \<noteq> loaded_vm sample_push \<and>
     run_to_halt int_fpu (Suc 7) (loaded_vm sample_push) = run_to_halt int_fpu (Suc 7) y"
proof -
  have ok: "validate_program (bare_program sample_push) = None"
    by (simp add: validate_program_None sample_push_def insn_ok_eval)
  have "insns (bare_program sample_push) \<noteq> []" by (simp add: sample_push_def)
  note same = reload_is_deterministic [OF load_bare load_used ok this, of int_fpu 7]
  have "(loaded_vm sample_push)\<lparr>cur_write_reg := Some 5, cur_write_value := Some 9,
      cur_write_tag := Some IntTag\<rparr> \<noteq> loaded_vm sample_push"
    by (simp add: loaded_vm_def make_interpreter_vm_def)
  with same load_used show ?thesis by blast
qed

end
