(* ===== verification/Memory_Facts.thy ===== *)
theory Memory_Facts
  imports Execution
begin

text \<open>
  Guest memory: the segment map, and reading back what was stored or pushed.
\<close>

section \<open>The segment map\<close>

lemma segment_of_layout:
  "segment_of (initial_layout n) addr =
     (if addr < n then CodeSeg else if addr < n + 256 then StackSeg
      else if addr < n + 1024 then HeapSeg else if addr < n + 1280 then TensorSeg
      else if addr < n + 1536 then MetaSeg else UnknownSeg)"
  by (simp add: segment_of_def seg_contains_iff)

lemma valid_mem_wf:
  "vm_wf it \<Longrightarrow> valid_mem (vm it) a \<longleftrightarrow>
     0 \<le> sint a \<and> sint a < int (length (insns (prog it))) + 1536"
  using unat_of_sint_nonneg [of a]
  by (auto simp: valid_mem_def vm_wf_def Let_def segment_of_layout)

text \<open>
  C15: every address belongs to one segment or to none. In a reachable machine the code,
  stack, heap, tensor and meta segments tile the addresses from \<open>0\<close> to 1536 words past the
  program, guest memory has exactly that size, and the access check accepts an address if
  and only if it is non-negative and below that size.
\<close>

theorem segments_tile_memory:
  assumes "reach F host p it" "length (insns p) < max_program"
  shows "length (memory (vm it)) = length (insns p) + 1536 \<and>
     (\<forall>a. valid_mem (vm it) a \<longleftrightarrow> 0 \<le> sint a \<and> sint a < int (length (insns p)) + 1536) \<and>
     (\<forall>addr. segment_of (layout (vm it)) addr =
        (if addr < length (insns p) then CodeSeg
         else if addr < length (insns p) + 256 then StackSeg
         else if addr < length (insns p) + 1024 then HeapSeg
         else if addr < length (insns p) + 1280 then TensorSeg
         else if addr < length (insns p) + 1536 then MetaSeg else UnknownSeg))"
proof -
  from reach_vm_wf [OF assms] have wf: "vm_wf it" and p: "prog it = p" by simp_all
  then have "layout (vm it) = initial_layout (length (insns p))"
    "length (memory (vm it)) = length (insns p) + 1536"
    by (simp_all add: vm_wf_def Let_def)
  then show ?thesis by (simp add: valid_mem_wf [OF wf] p segment_of_layout)
qed

lemma small_sample: "length (insns (bare_program sample_frames)) < max_program"
  by (simp add: sample_frames_def max_program_def)

theorem segments_tile_memory_witness:
  "length (memory (vm (loaded_vm sample_frames))) = 1543 \<and>
     valid_mem (vm (loaded_vm sample_frames)) 1542 \<and>
     \<not> valid_mem (vm (loaded_vm sample_frames)) 1543"
  using segments_tile_memory [OF reach.loaded [OF load_bare, of int_fpu False] small_sample]
  by (simp add: sample_frames_def)

section \<open>One instruction at a time\<close>

text \<open>A step that neither stops nor traps runs the instruction at the program counter.\<close>

lemma step_running:
  assumes "step F it = Inr (it', None)" "\<not> halted (vm it)"
  shows "exec F (insns (prog it) ! pc (vm it)) (pc (vm it)) (begin_step it) = Inr (it', None)"
    and "prog it' = prog it"
proof -
  have "exec F (insns (prog it) ! pc (vm it)) (pc (vm it)) (begin_step it) = Inr (it', None) \<and>
      prog it' = prog it"
    using assms(1)
  proof (cases rule: step_cases)
    case (run i)
    with outcome_InrD [OF exec_frame run(5)] show ?thesis by (simp add: frame_kept_def)
  qed (use assms(2) in \<open>auto simp: raise_trap_eq\<close>)
  then show "exec F (insns (prog it) ! pc (vm it)) (pc (vm it)) (begin_step it) = Inr (it', None)"
    "prog it' = prog it" by simp_all
qed

text \<open>Both step facts for two successive instructions.\<close>

lemma two_steps:
  assumes "step F it = Inr (it1, None)" "step F it1 = Inr (it2, None)"
    "\<not> halted (vm it)" "\<not> halted (vm it1)"
    "insns (prog it) ! pc (vm it) = i" "insns (prog it) ! Suc (pc (vm it)) = j"
    "pc (vm it1) = Suc (pc (vm it))"
  shows "exec F i (pc (vm it)) (begin_step it) = Inr (it1, None)"
    "exec F j (Suc (pc (vm it))) (begin_step it1) = Inr (it2, None)"
  using step_running [OF assms(1,3)] step_running(1) [OF assms(2,4)] assms(5-7) by simp_all

lemma begin_step_data [simp]:
  "registers (vm (begin_step it)) = registers (vm it)"
  "register_tags (vm (begin_step it)) = register_tags (vm it)"
  "memory (vm (begin_step it)) = memory (vm it)" "layout (vm (begin_step it)) = layout (vm it)"
  "sp (vm (begin_step it)) = sp (vm it)" "heap_ptr (vm (begin_step it)) = heap_ptr (vm it)"
  "heap_frames (vm (begin_step it)) = heap_frames (vm it)"
  "stack_frames (vm (begin_step it)) = stack_frames (vm it)"
  "halted (vm (begin_step it)) = halted (vm it)" "flags_of (vm (begin_step it)) = flags_of (vm it)"
  "policy_of (vm (begin_step it)) = policy_of (vm it)"
  by (simp_all add: begin_step_def Let_def)

lemma exec_store_effect:
  assumes "exec_store i pc0 it = Inr (it', None)"
  shows "valid_mem (vm it) (arg_a i)" "idx_b i < length (registers (vm it))"
    "memory (vm it') = (memory (vm it))[idx_a i := registers (vm it) ! idx_b i]"
    "idx_a i < length (memory (vm it))"
    "registers (vm it') = registers (vm it)" "register_tags (vm it') = register_tags (vm it)"
    "pc (vm it') = Suc (pc (vm it))" "halted (vm it') = halted (vm it)"
  using assms
  by (auto simp: exec_store_def ending_defs helper_defs state_defs ebind_eq_Inr vread_eq_Inr
      vwrite_eq_Inr split: if_splits)

lemma exec_load_effect:
  assumes "exec_load i pc0 it = Inr (it', None)"
  shows "valid_mem (vm it) (arg_b i)" "idx_b i < length (memory (vm it))"
    "registers (vm it') = (registers (vm it))[idx_a i := memory (vm it) ! idx_b i]"
    "register_tags (vm it') = (register_tags (vm it))[idx_a i := IntTag]"
    "memory (vm it') = memory (vm it)" "idx_a i < length (registers (vm it))"
  using assms
  by (auto simp: exec_load_def ending_defs helper_defs state_defs ebind_eq_Inr vread_eq_Inr
      vwrite_eq_Inr split: if_splits)

text \<open>
  C19: a load returns what the last store put there. When \<open>Store addr rb\<close> and then
  \<open>Load rc addr\<close> execute, register \<open>rc\<close> holds what \<open>rb\<close> held, tagged \<open>Int\<close>, the other
  registers keep their contents, and memory differs from before in the one cell.
\<close>

theorem store_then_load:
  assumes "insns (prog it) ! pc (vm it) = mk_insn Store addr b x"
    "insns (prog it) ! Suc (pc (vm it)) = mk_insn Load c addr y" "\<not> halted (vm it)"
    "step F it = Inr (it1, None)" "step F it1 = Inr (it2, None)"
  shows "registers (vm it2) = (registers (vm it))[unat c := registers (vm it) ! unat b] \<and>
     register_tags (vm it2) = (register_tags (vm it))[unat c := IntTag] \<and>
     memory (vm it2) = (memory (vm it))[unat addr := registers (vm it) ! unat b]"
proof -
  have "exec_store (mk_insn Store addr b x) (pc (vm it)) (begin_step it) = Inr (it1, None)"
    using step_running(1) [OF assms(4,3)] assms(1) by (simp add: exec_def)
  note st = exec_store_effect [OF this, simplified]
  from two_steps(2) [OF assms(4,5,3) _ assms(1,2)] st(7,8) assms(3)
  have "exec_load (mk_insn Load c addr y) (Suc (pc (vm it))) (begin_step it1) = Inr (it2, None)"
    by (simp add: exec_def)
  note ld = exec_load_effect [OF this, simplified]
  from ld st show ?thesis by simp
qed

text \<open>\<open>LoadImm\<close> puts 9 into register 4, \<open>Store\<close> puts it into cell 100, \<open>Load\<close> into register 6.\<close>

definition sample_store :: "insn list" where
  "sample_store = [mk_insn LoadImm 4 9 0, mk_insn Store 100 4 0, mk_insn Load 6 100 0]"

theorem store_then_load_witness:
  "\<exists>it it1 it2. step int_fpu (loaded_vm sample_store) = Inr (it, None) \<and> \<not> halted (vm it) \<and>
     insns (prog it) ! pc (vm it) = mk_insn Store 100 4 0 \<and>
     insns (prog it) ! Suc (pc (vm it)) = mk_insn Load 6 100 0 \<and>
     step int_fpu it = Inr (it1, None) \<and> step int_fpu it1 = Inr (it2, None) \<and>
     registers (vm it2) = (registers (vm it))[6 := 9] \<and>
     register_tags (vm it2) = (register_tags (vm it))[6 := IntTag] \<and>
     memory (vm it2) = (memory (vm it))[100 := 9]"
proof -
  have "\<exists>it it1 it2. step int_fpu (loaded_vm sample_store) = Inr (it, None) \<and>
      step int_fpu it = Inr (it1, None) \<and> step int_fpu it1 = Inr (it2, None) \<and>
      \<not> halted (vm it) \<and> pc (vm it) = 1 \<and> insns (prog it) = sample_store \<and>
      registers (vm it) ! 4 = 9"
    by (simp add: run_eval loaded_defs valid_mem_def segment_of_def seg_contains_iff
        sample_store_def)
  then obtain it it1 it2 where s: "step int_fpu (loaded_vm sample_store) = Inr (it, None)"
    "step int_fpu it = Inr (it1, None)" "step int_fpu it1 = Inr (it2, None)"
    and it: "\<not> halted (vm it)" "pc (vm it) = 1" "insns (prog it) = sample_store"
      "registers (vm it) ! 4 = 9" by blast
  have i: "insns (prog it) ! pc (vm it) = mk_insn Store 100 4 0"
    "insns (prog it) ! Suc (pc (vm it)) = mk_insn Load 6 100 0"
    using it(2,3) by (simp_all add: sample_store_def)
  from store_then_load [OF i it(1) s(2,3)] it(4) have
    "registers (vm it2) = (registers (vm it))[6 := 9]"
    "register_tags (vm it2) = (register_tags (vm it))[6 := IntTag]"
    "memory (vm it2) = (memory (vm it))[100 := 9]" by simp_all
  with s i it(1) show ?thesis by blast
qed

lemma exec_push_effect:
  assumes "exec_push i pc0 it = Inr (it', None)"
  shows "sp (vm it') = sp (vm it) - 1" "seg_start (stack_seg (layout (vm it))) < sp (vm it)"
    "memory (vm it') = (memory (vm it))[sp (vm it) - 1 := registers (vm it) ! idx_a i]"
    "sp (vm it) - 1 < length (memory (vm it))" "layout (vm it') = layout (vm it)"
    "registers (vm it') = registers (vm it)" "register_tags (vm it') = register_tags (vm it)"
    "pc (vm it') = Suc (pc (vm it))" "halted (vm it') = halted (vm it)"
  using assms
  by (auto simp: exec_push_def ending_defs helper_defs state_defs ebind_eq_Inr vread_eq_Inr
      vwrite_eq_Inr Let_def split: if_splits option.splits)

lemma exec_pop_effect:
  assumes "exec_pop i pc0 it = Inr (it', None)"
  shows "sp (vm it') = Suc (sp (vm it))" "sp (vm it) < seg_limit (stack_seg (layout (vm it)))"
    "registers (vm it') = (registers (vm it))[idx_a i := memory (vm it) ! sp (vm it)]"
    "register_tags (vm it') = (register_tags (vm it))[idx_a i := IntTag]"
    "memory (vm it') = memory (vm it)" "idx_a i < length (registers (vm it))"
  using assms
  by (auto simp: exec_pop_def ending_defs helper_defs state_defs ebind_eq_Inr vread_eq_Inr
      vwrite_eq_Inr Let_def split: if_splits option.splits)

text \<open>
  C20: a pop undoes a push. When \<open>Push ra\<close> and then \<open>Pop rb\<close> execute, register \<open>rb\<close> holds
  what \<open>ra\<close> held, the other registers keep their contents, and the stack pointer is back.
\<close>

theorem push_then_pop:
  assumes "insns (prog it) ! pc (vm it) = mk_insn Push a x y"
    "insns (prog it) ! Suc (pc (vm it)) = mk_insn Pop b z w" "\<not> halted (vm it)"
    "step F it = Inr (it1, None)" "step F it1 = Inr (it2, None)"
  shows "registers (vm it2) = (registers (vm it))[unat b := registers (vm it) ! unat a] \<and>
     sp (vm it2) = sp (vm it)"
proof -
  have "exec_push (mk_insn Push a x y) (pc (vm it)) (begin_step it) = Inr (it1, None)"
    using step_running(1) [OF assms(4,3)] assms(1) by (simp add: exec_def)
  note pu = exec_push_effect [OF this, simplified]
  from two_steps(2) [OF assms(4,5,3) _ assms(1,2)] pu(8,9) assms(3)
  have "exec_pop (mk_insn Pop b z w) (Suc (pc (vm it))) (begin_step it1) = Inr (it2, None)"
    by (simp add: exec_def)
  note po = exec_pop_effect [OF this, simplified]
  from po pu show ?thesis by simp
qed

text \<open>\<open>LoadImm\<close> puts 9 into register 4, \<open>Push\<close> and \<open>Pop\<close> move it to register 6.\<close>

definition sample_swap :: "insn list" where
  "sample_swap = [mk_insn LoadImm 4 9 0, mk_insn Push 4 0 0, mk_insn Pop 6 0 0]"

theorem push_then_pop_witness:
  "\<exists>it it1 it2. step int_fpu (loaded_vm sample_swap) = Inr (it, None) \<and> \<not> halted (vm it) \<and>
     insns (prog it) ! pc (vm it) = mk_insn Push 4 0 0 \<and>
     insns (prog it) ! Suc (pc (vm it)) = mk_insn Pop 6 0 0 \<and>
     step int_fpu it = Inr (it1, None) \<and> step int_fpu it1 = Inr (it2, None) \<and>
     sp (vm it1) = 258 \<and> registers (vm it2) = (registers (vm it))[6 := 9] \<and>
     sp (vm it2) = sp (vm it)"
proof -
  have "\<exists>it it1 it2. step int_fpu (loaded_vm sample_swap) = Inr (it, None) \<and>
      step int_fpu it = Inr (it1, None) \<and> step int_fpu it1 = Inr (it2, None) \<and>
      \<not> halted (vm it) \<and> pc (vm it) = 1 \<and> insns (prog it) = sample_swap \<and>
      registers (vm it) ! 4 = 9 \<and> sp (vm it1) = 258"
    by (simp add: run_eval loaded_defs sample_swap_def)
  then obtain it it1 it2 where s: "step int_fpu (loaded_vm sample_swap) = Inr (it, None)"
    "step int_fpu it = Inr (it1, None)" "step int_fpu it1 = Inr (it2, None)"
    and it: "\<not> halted (vm it)" "pc (vm it) = 1" "insns (prog it) = sample_swap"
      "registers (vm it) ! 4 = 9" "sp (vm it1) = 258" by blast
  have i: "insns (prog it) ! pc (vm it) = mk_insn Push 4 0 0"
    "insns (prog it) ! Suc (pc (vm it)) = mk_insn Pop 6 0 0"
    using it(2,3) by (simp_all add: sample_swap_def)
  from push_then_pop [OF i it(1) s(2,3)] it(4) have
    "registers (vm it2) = (registers (vm it))[6 := 9]" "sp (vm it2) = sp (vm it)" by simp_all
  with s i it(1,5) show ?thesis by blast
qed

end
