(* ===== verification/Boundary.thy ===== *)
theory Boundary
  imports Memory_Facts
begin

text \<open>
  Where the guarantees stop: the gaps between the validator and the instructions, between
  loading and stepping, and between the stack and its frames, each as a statement about
  every program or machine that meets it.
\<close>

section \<open>The unchecked source register\<close>

lemma not_valid_reg: "\<not> valid_reg x \<Longrightarrow> 243 \<le> unat x"
  using sint_of_nat_small [of "unat x"] by (auto simp: valid_reg_def not_less intro: ccontr)

text \<open>
  C37: the source register of the unary conversions is not validated. For \<open>Neg\<close>, \<open>I2F\<close>,
  \<open>F2I\<close>, \<open>I2Frac\<close> and \<open>Frac2I\<close> with a valid destination and any source that names no
  register, the one-instruction program passes the validator, and its first step reads the
  register file out of bounds.
\<close>

theorem unary_source_unchecked:
  assumes "oc \<in> {Neg, I2F, F2I, I2Frac, Frac2I}" "valid_reg a" "\<not> valid_reg b"
  shows "validate_program (bare_program [mk_insn oc a b c]) = None \<and>
     step F (loaded_vm [mk_insn oc a b c]) = Inl RegisterIndex"
proof
  show ok: "validate_program (bare_program [mk_insn oc a b c]) = None"
    using assms(1,2) by (auto simp: validate_program_None insn_ok_def valid_opcode_def operands_ok_def)
  have "reg (begin_step (loaded_vm [mk_insn oc a b c])) (unat b) = Inl RegisterIndex"
    using not_valid_reg [OF assms(3)]
    by (simp add: reg_def begin_step_def Let_def loaded_defs vread_def)
  with assms(1) ok show "step F (loaded_vm [mk_insn oc a b c]) = Inl RegisterIndex"
    by (auto simp: step_def exec_def exec_neg_def exec_convert_def loaded_vm_def
        make_interpreter_vm_def default_state_def)
qed

theorem unary_source_unchecked_witness:
  "validate_program (bare_program [mk_insn Neg 0 243 0]) = None \<and>
     step int_fpu (loaded_vm [mk_insn Neg 0 243 0]) = Inl RegisterIndex"
  by (rule unary_source_unchecked) (simp_all add: valid_reg_def)

section \<open>A rejected program\<close>

lemma load_rejected_step:
  assumes "load_program p b = Inr y" "validate_program p \<noteq> None"
  obtains y' where "step F y = Inr (y', Some DecodeFault)" "pc (vm y') = 0" "prog y' = p"
    "preload_trap y' = None" "\<not> halted (vm y')"
    "trace (vm y') = [\<lparr>te_pc = 0, te_opcode = current_opcode y, te_write_reg = cur_write_reg b,
        te_write_value = cur_write_value b, te_write_tag = cur_write_tag b,
        te_trap = Some DecodeFault\<rparr>]"
proof -
  note fresh = load_fresh_machine [OF assms(1)]
  have cur: "cur_write_reg y = cur_write_reg b" "cur_write_value y = cur_write_value b"
    "cur_write_tag y = cur_write_tag b"
    using assms(1) by (auto simp: load_program_def ebind_eq_Inr)
  from assms(2) have "validate_program p = Some DecodeFault"
    using validate_program_Some [of p] by auto
  with fresh cur that show ?thesis by (simp add: step_def raise_trap_eq)
qed

text \<open>
  C39: rejection lasts for one step. Load a non-empty program the validator refuses: the
  first step reports \<open>DecodeFault\<close> and executes nothing, but the second executes the first
  instruction of the refused program, operands unchecked.
\<close>

theorem rejected_program_runs_on_retry:
  assumes "load_program p b = Inr y" "validate_program p \<noteq> None" "insns p \<noteq> []"
  shows "\<exists>y'. step F y = Inr (y', Some DecodeFault) \<and>
     step F y' = exec F (insns p ! 0) 0 (begin_step y')"
proof -
  from load_rejected_step [OF assms(1,2), of F] obtain y' where
    "step F y = Inr (y', Some DecodeFault)" "pc (vm y') = 0" "prog y' = p"
    "preload_trap y' = None" "\<not> halted (vm y')" .
  with assms(3) show ?thesis by (auto simp: step_def)
qed

theorem rejected_program_runs_on_retry_witness:
  "\<exists>y'. step int_fpu (loaded_vm [mk_insn LoadImm 300 7 0]) = Inr (y', Some DecodeFault) \<and>
     step int_fpu y' = Inl RegisterIndex"
proof -
  let ?p = "[mk_insn LoadImm 300 7 0]"
  have bad: "validate_program (bare_program ?p) \<noteq> None"
    by (simp add: validate_program_None insn_ok_eval)
  have "insns (bare_program ?p) \<noteq> []" by simp
  from rejected_program_runs_on_retry [OF load_bare bad this, of int_fpu] obtain y' where
    y': "step int_fpu (loaded_vm ?p) = Inr (y', Some DecodeFault)"
    and retry: "step int_fpu y' = exec int_fpu (mk_insn LoadImm 300 7 0) 0 (begin_step y')"
    by auto
  have "length (registers (vm y')) = 243"
    using arg_cong [OF step_atomic_trap [OF y'], of "\<lambda>x. length (registers (vm x))"]
    by (simp add: erase_records_def loaded_defs)
  with retry have "step int_fpu y' = Inl RegisterIndex"
    by (simp add: exec_def exec_load_imm_def register_defs begin_step_def Let_def)
  with y' show ?thesis by blast
qed

text \<open>The write fields of an object are those of its last trace entry.\<close>

definition same_write :: "trace_entry \<Rightarrow> interp \<Rightarrow> bool" where
  "same_write e it \<longleftrightarrow> te_write_reg e = cur_write_reg it \<and> te_write_value e = cur_write_value it \<and>
     te_write_tag e = cur_write_tag it"

definition write_shown :: "state \<Rightarrow> interp \<times> trap option \<Rightarrow> bool" where
  "write_shown s = (\<lambda>(it', r). \<exists>e. trace (vm it') = trace s @ [e] \<and> same_write e it')"

lemma exec_write_shown: "outcome (write_shown (vm it)) (\<lambda>h. True) (exec F i pc0 it)"
  by (rule exec_by_handler)
    (simp_all add: write_shown_def same_write_def handler_defs outcome_rules ending_defs
      helper_defs state_defs Let_def intern_defs split: option.splits)

lemma step_write_shown:
  assumes "step F it = Inr (it', r)" "\<not> halted (vm it)"
  shows "write_shown (vm it) (it', r)"
  using assms(1)
proof (cases rule: step_cases)
  case (run i)
  from outcome_InrD [OF exec_write_shown run(5)] show ?thesis by (simp add: write_shown_def)
qed (use assms(2) in \<open>auto simp: raise_trap_eq write_shown_def same_write_def\<close>)

lemma reach_last_write:
  "reach F False q b \<Longrightarrow> trace (vm b) \<noteq> [] \<Longrightarrow> same_write (last (trace (vm b))) b"
proof (induction rule: reach.induct)
  case (loaded it0 it)
  with load_fresh_machine [OF loaded.hyps] show ?case by simp
next
  case (stepped it it' r)
  show ?case
  proof (cases "halted (vm it)")
    case True
    with stepped show ?thesis by (simp add: step_def)
  next
    case False
    from step_write_shown [OF stepped.hyps(2) False] show ?thesis by (auto simp: write_shown_def)
  qed
qed simp

text \<open>
  C40: the refusal of a program shows a stale write. Let an object have run any program, by
  steps only, and then load a program the validator refuses. The trace entry of the step
  that reports the refusal repeats the register write of the last trace entry of the
  earlier run: register, value and tag if that last step wrote one (the run was stopped by
  its bound behind a \<open>LoadImm\<close>, say), and no write if it wrote none (after \<open>Halt\<close>, say).
\<close>

theorem rejected_program_shows_stale_write:
  assumes "reach F False q b" "trace (vm b) \<noteq> []"
    and "load_program p b = Inr y" "validate_program p \<noteq> None"
  shows "\<exists>y' e. step F y = Inr (y', Some DecodeFault) \<and> trace (vm y') = [e] \<and>
     te_write_reg e = te_write_reg (last (trace (vm b))) \<and>
     te_write_value e = te_write_value (last (trace (vm b))) \<and>
     te_write_tag e = te_write_tag (last (trace (vm b)))"
proof -
  from reach_last_write [OF assms(1,2)]
  have "te_write_reg (last (trace (vm b))) = cur_write_reg b"
    "te_write_value (last (trace (vm b))) = cur_write_value b"
    "te_write_tag (last (trace (vm b))) = cur_write_tag b" by (simp_all add: same_write_def)
  with load_rejected_step [OF assms(3,4), of F] show ?thesis
    by (metis trace_entry.select_convs)
qed

text \<open>An object stopped behind a \<open>LoadImm\<close> reports \<open>r5=9\<close> for a program that never ran.\<close>

theorem rejected_program_shows_stale_write_witness:
  "\<exists>b y y' e. step int_fpu (loaded_vm [mk_insn LoadImm 5 9 0]) = Inr (b, None) \<and>
     load_program (bare_program [mk_insn Jump 7 0 0]) b = Inr y \<and>
     step int_fpu y = Inr (y', Some DecodeFault) \<and> trace (vm y') = [e] \<and>
     te_write_reg e = Some 5 \<and> te_write_value e = Some 9"
proof -
  let ?it = "loaded_vm [mk_insn LoadImm 5 9 0]"
  have bad: "validate_program (bare_program [mk_insn Jump 7 0 0]) \<noteq> None"
    by (simp add: validate_program_None insn_ok_eval)
  have "\<exists>b e. step int_fpu ?it = Inr (b, None) \<and> trace (vm b) = [e] \<and>
      te_write_reg e = Some 5 \<and> te_write_value e = Some 9"
    by (simp add: run_eval loaded_defs)
  then obtain b e where b: "step int_fpu ?it = Inr (b, None)" "trace (vm b) = [e]"
    "te_write_reg e = Some 5" "te_write_value e = Some 9" by blast
  have r: "reach int_fpu False (bare_program [mk_insn LoadImm 5 9 0]) b"
    by (rule reach.stepped [OF reach.loaded [OF load_bare] b(1)])
  have "trace (vm b) \<noteq> []" using b(2) by simp
  from rejected_program_shows_stale_write [OF r this load_bare_on bad] b
    load_bare_on [of "[mk_insn Jump 7 0 0]" b]
  show ?thesis by auto
qed

section \<open>The stack pointer outside the stack\<close>

lemma exec_stack_free_effect:
  assumes "exec_stack_free i pc0 it = Inr (it', None)"
  shows "sp (vm it') = size_add (sp (vm it)) (requested_size (arg_b i))"
    "memory (vm it') = memory (vm it)" "registers (vm it') = registers (vm it)"
    "pc (vm it') = Suc (pc (vm it))" "halted (vm it') = halted (vm it)"
  using assms
  by (auto simp: exec_stack_free_def ending_defs helper_defs state_defs ebind_eq_Inr vread_eq_Inr
      Let_def split: if_splits)

lemma segment_behind_stack:
  assumes "n + 256 \<le> w" "w < n + 1536"
  shows "segment_of (initial_layout n) w \<in> {HeapSeg, TensorSeg, MetaSeg}"
  using assms by (simp add: segment_of_layout)

text \<open>A push far above the start of the stack: no check fires, and the cell decides.\<close>

lemma push_step_above:
  assumes "vm_wf it" "\<not> halted (vm it)" "preload_trap it = None"
    and "pc (vm it) < length (insns (prog it))" "insns (prog it) ! pc (vm it) = mk_insn Push r x y"
    and "unat r < 243" "length (insns (prog it)) < sp (vm it)"
  shows "if sp (vm it) - 1 < length (memory (vm it))
     then \<exists>it'. step F it = Inr (it', None) \<and> sp (vm it') = sp (vm it) - 1 \<and>
        memory (vm it') = (memory (vm it))[sp (vm it) - 1 := registers (vm it) ! unat r] \<and>
        layout (vm it') = layout (vm it)
     else step F it = Inl MemoryIndex"
proof -
  have "length (registers (vm it)) = 243" "seg_start (stack_seg (layout (vm it))) = length (insns (prog it))"
    using assms(1) by (simp_all add: vm_wf_def Let_def)
  with assms(2-7) show ?thesis
    by (auto simp: step_def exec_def exec_push_def push_register_def mem_write_def vwrite_def
        reg_def ending_defs helper_defs state_defs Let_def)
qed

text \<open>
  C38: a push behind the stack. Suppose \<open>StackFree\<close> succeeds in a reachable machine after
  \<open>Pop\<close> has moved the stack pointer inside the frame, so far that the pointer plus the
  frame's size lies behind the stack segment. Then a \<open>Push\<close> as next instruction is not
  refused: below the end of guest memory it writes the register into a cell of the heap,
  tensor or meta segment, and from there on it writes outside the memory vector.
\<close>

theorem push_escapes_into_heap:
  assumes "reach F host p it" "length (insns p) < max_program" "\<not> halted (vm it)"
    and "insns p ! pc (vm it) = mk_insn StackFree a sz x" "0 < sint sz"
    and "Suc (pc (vm it)) < length (insns p)" "insns p ! Suc (pc (vm it)) = mk_insn Push r y z"
    and "unat r < 243" "step F it = Inr (it1, None)"
    and "length (insns p) + 256 < sp (vm it) + unat sz" "sp (vm it) + unat sz < 2 ^ 64"
  defines "w \<equiv> sp (vm it) + unat sz - 1"
  shows "if w < length (insns p) + 1536
     then \<exists>it2. step F it1 = Inr (it2, None) \<and> sp (vm it2) = w \<and>
        memory (vm it2) = (memory (vm it))[w := registers (vm it) ! unat r] \<and>
        segment_of (layout (vm it2)) w \<in> {HeapSeg, TensorSeg, MetaSeg}
     else step F it1 = Inl MemoryIndex"
proof -
  from reach_vm_wf [OF assms(1,2)] have prog: "prog it = p" by simp
  note run = step_running [OF assms(9,3)]
  from run(1) assms(4) prog have
    "exec_stack_free (mk_insn StackFree a sz x) (pc (vm it)) (begin_step it) = Inr (it1, None)"
    by (simp add: exec_def)
  note sf = exec_stack_free_effect [OF this, simplified]
  have sp1: "sp (vm it1) = Suc w"
    using sf(1) assms(5,10,11) by (simp add: size_add_def requested_size_def w_def)
  have pc1: "pc (vm it1) = Suc (pc (vm it))" using sf(4) by (simp add: begin_step_def Let_def)
  from reach_vm_wf [OF reach.stepped [OF assms(1,9)] assms(2)]
  have wf: "vm_wf it1" "prog it1 = p" by simp_all
  then have lay: "layout (vm it1) = initial_layout (length (insns p))"
    "length (memory (vm it1)) = length (insns p) + 1536" by (simp_all add: vm_wf_def Let_def)
  have pre: "preload_trap it1 = None"
    using assms(9)
  proof (cases rule: step_cases)
    case (run i)
    from outcome_InrD [OF exec_frame run(5)] run(2) show ?thesis by (simp add: frame_kept_def)
  qed (use assms(3) in \<open>auto simp: raise_trap_eq\<close>)
  have "length (insns p) + 256 \<le> w" using assms(10) by (simp add: w_def)
  with push_step_above [OF wf(1) _ pre, of r y z F] sf(2,3,5) assms(3,6-8) sp1 pc1 wf(2) lay
    segment_behind_stack [of "length (insns p)" w] show ?thesis
    by (auto split: if_splits)
qed

text \<open>
  Allocate the whole stack, pop from inside the frame, free the frame, push: the value 7
  arrives in the first cell of the heap segment.
\<close>

definition sample_escape :: "insn list" where
  "sample_escape = [mk_insn StackAlloc 0 256 0, mk_insn LoadImm 2 7 0, mk_insn Pop 1 0 0,
                    mk_insn StackFree 0 256 0, mk_insn Push 2 0 0, mk_insn Halt 0 0 0]"

theorem push_escapes_into_heap_witness:
  "validate_program (bare_program sample_escape) = None \<and>
   (\<exists>it it1 it2. reach int_fpu False (bare_program sample_escape) it \<and>
      insns (bare_program sample_escape) ! pc (vm it) = mk_insn StackFree 0 256 0 \<and>
      step int_fpu it = Inr (it1, None) \<and> step int_fpu it1 = Inr (it2, None) \<and>
      memory (vm it2) ! 262 = 7 \<and> segment_of (layout (vm it2)) 262 \<in> {HeapSeg, TensorSeg, MetaSeg})"
proof -
  let ?p = "bare_program sample_escape"
  have "\<exists>m1 m2 it it1. step int_fpu (loaded_vm sample_escape) = Inr (m1, None) \<and>
      step int_fpu m1 = Inr (m2, None) \<and> step int_fpu m2 = Inr (it, None) \<and>
      step int_fpu it = Inr (it1, None) \<and> \<not> halted (vm it) \<and> pc (vm it) = 3 \<and> sp (vm it) = 7 \<and>
      registers (vm it) ! 2 = 7 \<and> length (memory (vm it)) = 1542"
    by (simp add: run_eval loaded_defs sample_escape_def size_add_def)
  then obtain m1 m2 it it1 where m: "step int_fpu (loaded_vm sample_escape) = Inr (m1, None)"
    "step int_fpu m1 = Inr (m2, None)" "step int_fpu m2 = Inr (it, None)"
    and it: "step int_fpu it = Inr (it1, None)" "\<not> halted (vm it)" "pc (vm it) = 3" "sp (vm it) = 7"
      "registers (vm it) ! 2 = 7" "length (memory (vm it)) = 1542" by blast
  have r: "reach int_fpu False ?p it"
    by (rule reach.stepped [OF reach.stepped [OF reach.stepped [OF reach.loaded [OF load_bare] m(1)] m(2)] m(3)])
  have len: "length (insns ?p) < max_program" by (simp add: sample_escape_def max_program_def)
  have ins: "insns ?p ! pc (vm it) = mk_insn StackFree 0 256 0"
    "insns ?p ! Suc (pc (vm it)) = mk_insn Push 2 0 0" "Suc (pc (vm it)) < length (insns ?p)"
    "length (insns ?p) = 6" using it(3) by (simp_all add: sample_escape_def)
  have ok: "validate_program ?p = None"
    by (simp add: validate_program_None insn_ok_eval sample_escape_def)
  from push_escapes_into_heap [OF r len it(2) ins(1) _ ins(3,2) _ it(1)] it ins(4)
  have "\<exists>it2. step int_fpu it1 = Inr (it2, None) \<and> memory (vm it2) = (memory (vm it))[262 := 7] \<and>
      segment_of (layout (vm it2)) 262 \<in> {HeapSeg, TensorSeg, MetaSeg}" by auto
  with r ins(1) it ok show ?thesis by auto
qed

end
