(* ===== verification/Allocators.thy ===== *)
theory Allocators
  imports Memory_Facts
begin

text \<open>
  The heap allocator. \<open>block_region\<close> is the contract its clients rely on: blocks lie one
  after the other between two bounds. The interpreter's heap meets it, and \<open>HeapAlloc\<close> and
  \<open>HeapFree\<close> refine a specification that knows only the sizes of the live blocks.
\<close>

section \<open>Regions of consecutive blocks\<close>

lemma contiguous_end: "contiguous b fs e \<Longrightarrow> e = b + sum_list (map snd fs)"
  by (induction b fs e rule: contiguous.induct) auto

lemma contiguous_nth:
  "contiguous b fs e \<Longrightarrow> i < length fs \<Longrightarrow>
     fst (fs ! i) = b + sum_list (map snd (take i fs)) \<and> 0 < snd (fs ! i)"
proof (induction b fs e arbitrary: i rule: contiguous.induct)
  case (2 b a n fs e)
  then show ?case by (cases i) auto
qed simp

lemma contiguous_before:
  "contiguous b fs e \<Longrightarrow> i < j \<Longrightarrow> j < length fs \<Longrightarrow>
     fst (fs ! i) + snd (fs ! i) \<le> fst (fs ! j)"
proof (induction b fs e arbitrary: i j rule: contiguous.induct)
  case (2 b a n fs e)
  then obtain j' where j: "j = Suc j'" by (cases j) auto
  show ?case
  proof (cases i)
    case 0
    with 2 j show ?thesis using contiguous_nth [of "b + n" fs e j'] by simp
  next
    case (Suc i')
    with 2 j show ?thesis by simp
  qed
qed simp

locale block_region =
  fixes wf :: "'s \<Rightarrow> bool" and blocks :: "'s \<Rightarrow> (nat \<times> nat) list" and top :: "'s \<Rightarrow> nat"
    and base limit :: nat
  assumes filled: "wf s \<Longrightarrow> contiguous base (blocks s) (top s)"
    and bounded: "wf s \<Longrightarrow> top s \<le> limit"
begin

lemma top_eq: "wf s \<Longrightarrow> top s = base + sum_list (map snd (blocks s))"
  by (rule contiguous_end [OF filled])

lemma blocks_ordered:
  "wf s \<Longrightarrow> i < j \<Longrightarrow> j < length (blocks s) \<Longrightarrow>
     fst (blocks s ! i) + snd (blocks s ! i) \<le> fst (blocks s ! j)"
  by (rule contiguous_before [OF filled])

lemma last_address:
  "wf s \<Longrightarrow> blocks s \<noteq> [] \<Longrightarrow>
     fst (last (blocks s)) = base + sum_list (map snd (butlast (blocks s)))"
  using contiguous_nth [OF filled, of s "length (blocks s) - 1"]
  by (simp add: last_conv_nth butlast_conv_take)

lemma blocks_inside:
  assumes "wf s" "i < length (blocks s)"
  shows "base \<le> fst (blocks s ! i) \<and> 0 < snd (blocks s ! i) \<and>
    fst (blocks s ! i) + snd (blocks s ! i) \<le> limit"
proof -
  have "sum_list (map snd (take (Suc i) (blocks s))) \<le> sum_list (map snd (blocks s))"
    by (metis append_take_drop_id le_add1 map_append sum_list_append)
  with contiguous_nth [OF filled [OF assms(1)] assms(2)] top_eq [OF assms(1)] bounded [OF assms(1)] assms(2)
  show ?thesis by (simp add: take_Suc_conv_app_nth)
qed

end

section \<open>The interpreter's heap\<close>

definition heap_of :: "nat \<Rightarrow> interp \<Rightarrow> bool" where
  "heap_of n it \<longleftrightarrow> vm_wf it \<and> length (insns (prog it)) = n"

interpretation heap: block_region "heap_of n" "\<lambda>it. heap_frames (vm it)" "\<lambda>it. heap_ptr (vm it)"
  "n + 256" "n + 1024" for n
  by unfold_locales (auto simp: heap_of_def vm_wf_def Let_def)

lemma reach_heap:
  "reach F host p it \<Longrightarrow> length (insns p) < max_program \<Longrightarrow> heap_of (length (insns p)) it"
  using reach_vm_wf by (auto simp: heap_of_def)

text \<open>
  C14: heap blocks never overlap. In every reachable machine each block the guest holds is
  non-empty and inside the heap segment, and each ends before the next one begins.
\<close>

theorem heap_blocks_disjoint:
  assumes "reach F host p it" "length (insns p) < max_program"
  shows "(\<forall>i. i < length (heap_frames (vm it)) \<longrightarrow>
       length (insns p) + 256 \<le> fst (heap_frames (vm it) ! i) \<and> 0 < snd (heap_frames (vm it) ! i) \<and>
       fst (heap_frames (vm it) ! i) + snd (heap_frames (vm it) ! i) \<le> length (insns p) + 1024) \<and>
     (\<forall>i j. i < j \<and> j < length (heap_frames (vm it)) \<longrightarrow>
       fst (heap_frames (vm it) ! i) + snd (heap_frames (vm it) ! i) \<le> fst (heap_frames (vm it) ! j))"
  using heap.blocks_inside [OF reach_heap [OF assms]] heap.blocks_ordered [OF reach_heap [OF assms]]
  by blast

theorem heap_blocks_disjoint_witness:
  "\<exists>it. reach int_fpu False (bare_program sample_frames) it \<and>
     (\<forall>i. i < length (heap_frames (vm it)) \<longrightarrow> 263 \<le> fst (heap_frames (vm it) ! i))"
proof -
  note r = reach.loaded [OF load_bare, of int_fpu False sample_frames]
  from heap_blocks_disjoint [OF r small_sample] r show ?thesis by (auto simp: sample_frames_def)
qed

section \<open>Refinement of a specification over sizes\<close>

text \<open>The specification: a stack of block sizes over \<open>cap\<close> words from \<open>base\<close> on.\<close>

definition spec_alloc :: "nat \<Rightarrow> nat \<Rightarrow> int \<Rightarrow> nat list \<Rightarrow> (nat \<times> nat list) option" where
  "spec_alloc base cap k sizes =
     (if 0 < k \<and> int (sum_list sizes) + k \<le> int cap
      then Some (base + sum_list sizes, sizes @ [nat k]) else None)"

definition spec_free :: "nat \<Rightarrow> nat \<Rightarrow> int \<Rightarrow> nat list \<Rightarrow> nat list option" where
  "spec_free base addr k sizes =
     (if sizes \<noteq> [] \<and> addr = base + sum_list (butlast sizes) \<and> int (last sizes) = k
      then Some (butlast sizes) else None)"

definition block_sizes :: "interp \<Rightarrow> nat list" where
  "block_sizes it = map snd (heap_frames (vm it))"

definition executes :: "interp \<Rightarrow> insn \<Rightarrow> bool" where
  "executes it i \<longleftrightarrow> \<not> halted (vm it) \<and> preload_trap it = None \<and>
     pc (vm it) < length (insns (prog it)) \<and> insns (prog it) ! pc (vm it) = i"

lemma step_executes: "executes it i \<Longrightarrow> step F it = exec F i (pc (vm it)) (begin_step it)"
  by (auto simp: executes_def step_def)

lemma positive_i64:
  assumes "0 < sint (k :: i64)"
  obtains m where "0 < m" "unat k = m" "sint k = int m"
  using assms unat_of_sint_nonneg [of k] by (intro that [of "nat (sint k)"]) simp_all

lemma requested_size_eq: "0 < m \<Longrightarrow> (requested_size k = m) = (sint k = int m)"
  by (cases "0 < sint k") (auto simp: requested_size_def unat_of_sint_nonneg)

lemma alloc_fits:
  assumes "heap_of n it" "0 < sint (k :: i64)"
  shows "size_add (heap_ptr (vm it)) (unat k) = n + 256 + sum_list (block_sizes it) + unat k"
proof -
  have "size_add (heap_ptr (vm it)) (unat k) = heap_ptr (vm it) + unat k"
    using assms by (intro size_add_heap) (auto simp: heap_of_def vm_wf_def Let_def)
  with heap.top_eq [OF assms(1)] show ?thesis by (simp add: block_sizes_def)
qed

lemma heap_machine:
  assumes "heap_of n it"
  shows "length (registers (vm it)) = 243" "length (register_tags (vm it)) = 243"
    "layout (vm it) = initial_layout n" "heap_ptr (vm it) = n + 256 + sum_list (block_sizes it)"
  using assms heap.top_eq [OF assms] by (auto simp: heap_of_def vm_wf_def Let_def block_sizes_def)

text \<open>
  C6: \<open>HeapAlloc\<close> implements the specification. When a reachable machine executes it with a
  valid destination, it succeeds exactly when the requested size is positive and the live
  blocks leave room for it; then the destination receives the address after the last live
  block and the block is on top. Otherwise it traps and the blocks stay as they were.
\<close>

theorem heap_alloc_refines:
  assumes "reach F host p it" "length (insns p) < max_program"
    and "executes it (mk_insn HeapAlloc a k x)" "valid_reg a"
  shows "case spec_alloc (length (insns p) + 256) 768 (sint k) (block_sizes it) of
      Some (addr, sizes) \<Rightarrow> \<exists>it'. step F it = Inr (it', None) \<and> block_sizes it' = sizes \<and>
         registers (vm it') ! unat a = of_nat addr
    | None \<Rightarrow> \<exists>it' t. step F it = Inr (it', Some t) \<and> block_sizes it' = block_sizes it"
proof -
  note hp = reach_heap [OF assms(1,2)]
  note st = step_executes [OF assms(3), of F]
  show ?thesis
  proof (cases "0 < sint k")
    case True
    obtain m where k: "0 < m" "unat k = m" "sint k = int m" by (rule positive_i64 [OF True])
    show ?thesis
      using k alloc_fits [OF hp True] heap_machine [OF hp] valid_reg_less [OF assms(4)]
      by (simp add: st exec_def exec_heap_alloc_def spec_alloc_def Let_def k ending_defs
          helper_defs state_defs) (use k(1) in \<open>simp add: block_sizes_def\<close>)
  next
    case False
    then show ?thesis
      by (simp add: st exec_def exec_heap_alloc_def spec_alloc_def block_sizes_def Let_def raise_trap_eq)
  qed
qed

definition sample_heap :: "insn list" where
  "sample_heap = [mk_insn HeapAlloc 1 8 0, mk_insn HeapFree 1 8 0]"

lemma small_heap: "length (insns (bare_program sample_heap)) < max_program"
  by (simp add: sample_heap_def max_program_def)

theorem heap_alloc_refines_witness:
  "\<exists>it'. step int_fpu (loaded_vm sample_heap) = Inr (it', None) \<and> block_sizes it' = [8] \<and>
     registers (vm it') ! 1 = 258"
proof -
  have ex: "executes (loaded_vm sample_heap) (mk_insn HeapAlloc 1 8 0)"
    by (simp add: executes_def loaded_defs sample_heap_def validate_program_None insn_ok_eval)
  have "block_sizes (loaded_vm sample_heap) = []" by (simp add: block_sizes_def loaded_defs)
  with heap_alloc_refines [OF reach.loaded [OF load_bare, of int_fpu False] small_heap ex]
  show ?thesis by (simp add: spec_alloc_def sample_heap_def valid_reg_def)
qed

text \<open>
  C7: \<open>HeapFree\<close> implements the specification. It succeeds exactly when the operands name
  the address and size of the most recent live block, and then removes that block; otherwise
  it traps and the blocks stay as they were.
\<close>

theorem heap_free_refines:
  assumes "reach F host p it" "length (insns p) < max_program"
    and "executes it (mk_insn HeapFree a k x)" "valid_reg a"
  shows "case spec_free (length (insns p) + 256) (unat (registers (vm it) ! unat a)) (sint k)
        (block_sizes it) of
      Some sizes \<Rightarrow> \<exists>it'. step F it = Inr (it', None) \<and> block_sizes it' = sizes
    | None \<Rightarrow> \<exists>it'. step F it = Inr (it', Some DecodeFault) \<and> block_sizes it' = block_sizes it"
proof -
  note hp = reach_heap [OF assms(1,2)]
  note st = step_executes [OF assms(3), of F]
  show ?thesis
  proof (cases "heap_frames (vm it) = []")
    case True
    then show ?thesis
      by (simp add: st exec_def exec_heap_free_def spec_free_def block_sizes_def Let_def raise_trap_eq)
  next
    case False
    with heap.blocks_inside [OF hp, of "length (heap_frames (vm it)) - 1"]
    have "0 < snd (last (heap_frames (vm it)))" by (simp add: last_conv_nth)
    note sz = requested_size_eq [OF this]
    show ?thesis
      using False heap.last_address [OF hp False] heap_machine(1,2) [OF hp]
        valid_reg_less [OF assms(4)]
      by (simp add: st exec_def exec_heap_free_def spec_free_def block_sizes_def Let_def
          ending_defs helper_defs state_defs sz last_map map_butlast)
  qed
qed

theorem heap_free_refines_witness:
  "\<exists>it it'. reach int_fpu False (bare_program sample_heap) it \<and> block_sizes it = [8] \<and>
     step int_fpu it = Inr (it', None) \<and> block_sizes it' = []"
proof -
  let ?l = "loaded_vm sample_heap"
  have "\<exists>it. step int_fpu ?l = Inr (it, None) \<and> executes it (mk_insn HeapFree 1 8 0) \<and>
      block_sizes it = [8] \<and> registers (vm it) ! 1 = 258"
    by (simp add: run_eval loaded_defs sample_heap_def executes_def block_sizes_def size_add_def)
  then obtain it where st: "step int_fpu ?l = Inr (it, None)"
    and it: "executes it (mk_insn HeapFree 1 8 0)" "block_sizes it = [8]"
      "registers (vm it) ! 1 = 258" by blast
  have r: "reach int_fpu False (bare_program sample_heap) it"
    by (rule reach.stepped [OF reach.loaded [OF load_bare] st])
  have "valid_reg 1" by (simp add: valid_reg_def)
  from heap_free_refines [OF r small_heap it(1) this] it(2,3)
  show ?thesis using r by (auto simp: spec_free_def sample_heap_def)
qed

end
