(* ===== verification/Scalar_Facts.thy ===== *)
theory Scalar_Facts
  imports Allocators
begin

text \<open>
  The scalar instructions against specifications over the integers: arithmetic with its
  division faults and overflows, balanced-ternary logic, and comparison followed by a
  conditional jump.
\<close>

section \<open>Registers of a reachable machine\<close>

lemma reach_registers:
  assumes "reach F host p it" "length (insns p) < max_program"
  shows "length (registers (vm it)) = 243" "length (register_tags (vm it)) = 243"
  using reach_vm_wf [OF assms] by (simp_all add: vm_wf_def Let_def)

definition wrote :: "nat \<Rightarrow> int \<Rightarrow> interp \<Rightarrow> bool" where
  "wrote k z it \<longleftrightarrow> sint (registers (vm it) ! k) = z \<and> register_tags (vm it) ! k = IntTag \<and>
     flags_of (vm it) = \<lparr>flag_zero = (z = 0), flag_negative = (z < 0), flag_positive = (z > 0)\<rparr>"

lemma sint_zero_iff: "(sint (x :: i64) = 0) = (x = 0)"
  by (metis signed_0 signed_word_eqI)

lemma set_flags_wrote:
  "k < length (registers (vm it)) \<Longrightarrow> k < length (register_tags (vm it)) \<Longrightarrow>
     commit i pc0 v IntTag it = Inr (it', r) \<Longrightarrow> idx_a i = k \<Longrightarrow> r = None \<and> wrote k (sint v) it'"
  by (auto simp: commit_def ending_defs state_defs wrote_def sint_zero_iff)

section \<open>Arithmetic\<close>

datatype arith_outcome = DivisionByZero | Undefined | Exact int

definition truncated_quotient :: "int \<Rightarrow> int \<Rightarrow> int" where
  "truncated_quotient x y = sgn x * sgn y * (\<bar>x\<bar> div \<bar>y\<bar>)"

definition exact_if_fits :: "int \<Rightarrow> arith_outcome" where
  "exact_if_fits z = (if int64_fits z then Exact z else Undefined)"

text \<open>
  The specification of the thirteen arithmetic opcodes. The remainder is undefined in C++
  where the quotient does not fit, although the remainder itself is \<open>0\<close> there.
\<close>

definition arith_spec :: "opcode \<Rightarrow> int \<Rightarrow> int \<Rightarrow> arith_outcome" where
  "arith_spec oc x y =
     (if oc \<in> {Add, FAdd, FracAdd} then exact_if_fits (x + y)
      else if oc \<in> {Sub, FSub, FracSub} then exact_if_fits (x - y)
      else if oc \<in> {Mul, FMul, FracMul} then exact_if_fits (x * y)
      else if y = 0 then DivisionByZero
      else if oc = Mod then
        (if int64_fits (truncated_quotient x y)
         then Exact (x - y * truncated_quotient x y) else Undefined)
      else exact_if_fits (truncated_quotient x y))"

definition arith_opcodes :: "opcode set" where
  "arith_opcodes = {Add, Sub, Mul, Div, Mod, FAdd, FSub, FMul, FDiv, FracAdd, FracSub, FracMul, FracDiv}"

lemma truncated_quotient_sdiv: "truncated_quotient x y = x sdiv y"
  by (simp add: truncated_quotient_def signed_divide_int_def)

lemma smod_fits:
  assumes "y \<noteq> 0"
  shows "int64_fits (sint x smod sint (y :: i64))"
proof -
  have "sint y \<noteq> 0" using assms by (simp add: sint_zero_iff)
  then have "sint x smod sint y \<in> {- \<bar>sint y\<bar> + 1..\<bar>sint y\<bar> - 1}" by (rule smod_int_range)
  then show ?thesis using sint_i64_bounds [of y] by (auto simp: int64_fits_def)
qed

definition meets :: "arith_outcome \<Rightarrow> hazard + i64 \<Rightarrow> bool" where
  "meets spec res = (case spec of DivisionByZero \<Rightarrow> False | Undefined \<Rightarrow> res = Inl SignedOverflow
     | Exact z \<Rightarrow> (\<exists>v. res = Inr v \<and> sint v = z))"

lemma arith_result_meets:
  assumes "oc \<in> arith_opcodes" "\<not> (is_division oc \<and> y = 0)"
  shows "meets (arith_spec oc (sint x) (sint y)) (arith_result oc x y)"
  using assms smod_fits [of y x]
  by (auto simp: arith_opcodes_def is_division_def arith_spec_def exact_if_fits_def meets_def
      arith_result_def sadd_def ssub_def smul_def squot_def srem_def sint_add_fits sint_sub_fits
      sint_mult_fits sint_of_int_fits truncated_quotient_sdiv sint_zero_iff
      minus_mult_sdiv_eq_smod)

lemma arith_spec_division:
  "oc \<in> arith_opcodes \<Longrightarrow> arith_spec oc x y = DivisionByZero \<longleftrightarrow> is_division oc \<and> y = 0"
  by (auto simp: arith_opcodes_def is_division_def arith_spec_def exact_if_fits_def)

lemma exec_arith_opcode: "opcode_of i \<in> arith_opcodes \<Longrightarrow> exec F i pc0 it = exec_arith i pc0 it"
  by (auto simp: arith_opcodes_def exec_def)

text \<open>
  C5: arithmetic is exact, traps, or is undefined, and the specification says which. When a
  reachable machine executes one of the thirteen arithmetic instructions with valid
  registers, division by zero traps with \<open>DivisionFault\<close>; a sum, difference, product,
  truncated quotient or remainder that fits 64 bits is committed with its flags; and only
  where it does not fit (or, for the remainder, the quotient does not) is the C++ code
  undefined.
\<close>

theorem arithmetic_is_exact:
  assumes "reach F host p it" "length (insns p) < max_program"
    and "executes it (mk_insn oc a b c)" "oc \<in> arith_opcodes"
    and "valid_reg a" "valid_reg b" "valid_reg c"
  shows "case arith_spec oc (sint (registers (vm it) ! unat b)) (sint (registers (vm it) ! unat c)) of
      DivisionByZero \<Rightarrow> \<exists>it'. step F it = Inr (it', Some DivisionFault)
    | Undefined \<Rightarrow> step F it = Inl SignedOverflow
    | Exact z \<Rightarrow> \<exists>it'. step F it = Inr (it', None) \<and> wrote (unat a) z it'"
proof -
  let ?x = "registers (vm it) ! unat b" and ?y = "registers (vm it) ! unat c"
  note regs = reach_registers [OF assms(1,2)] assms(5-7) [THEN valid_reg_less]
  have ex: "step F it = exec_arith (mk_insn oc a b c) (pc (vm it)) (begin_step it)"
    using assms(4) by (simp add: step_executes [OF assms(3)] exec_arith_opcode)
  show ?thesis
  proof (cases "is_division oc \<and> ?y = 0")
    case True
    with arith_spec_division [OF assms(4), of "sint ?x" "sint ?y"] regs show ?thesis
      by (simp add: ex exec_arith_def raise_trap_eq)
  next
    case False
    from arith_result_meets [OF assms(4) False, of ?x] False regs show ?thesis
      by (auto simp: ex exec_arith_def meets_def ending_defs state_defs wrote_def sint_zero_iff
          split: arith_outcome.splits)
  qed
qed

definition sample_mod :: "insn list" where
  "sample_mod = [mk_insn LoadImm 1 (-7) 0, mk_insn LoadImm 2 2 0, mk_insn Mod 0 1 2]"

theorem arithmetic_is_exact_witness:
  "\<exists>it it'. reach int_fpu False (bare_program sample_mod) it \<and>
     step int_fpu it = Inr (it', None) \<and> wrote 0 (-1) it'"
proof -
  let ?l = "loaded_vm sample_mod"
  have "\<exists>it1 it. step int_fpu ?l = Inr (it1, None) \<and> step int_fpu it1 = Inr (it, None) \<and>
      executes it (mk_insn Mod 0 1 2) \<and> registers (vm it) ! 1 = -7 \<and> registers (vm it) ! 2 = 2"
    by (simp add: run_eval loaded_defs sample_mod_def executes_def)
  then obtain it1 it where st: "step int_fpu ?l = Inr (it1, None)" "step int_fpu it1 = Inr (it, None)"
    and it: "executes it (mk_insn Mod 0 1 2)" "registers (vm it) ! 1 = -7" "registers (vm it) ! 2 = 2"
    by blast
  have r: "reach int_fpu False (bare_program sample_mod) it"
    by (rule reach.stepped [OF reach.stepped [OF reach.loaded [OF load_bare] st(1)] st(2)])
  have "length (insns (bare_program sample_mod)) < max_program"
    by (simp add: sample_mod_def max_program_def)
  moreover have "Mod \<in> arith_opcodes" "valid_reg 0" "valid_reg 1" "valid_reg 2"
    by (simp_all add: arith_opcodes_def valid_reg_def)
  moreover have "arith_spec Mod (-7) 2 = Exact (-1)"
    by (simp add: arith_spec_def truncated_quotient_def int64_fits_def)
  ultimately show ?thesis
    using arithmetic_is_exact [OF r _ it(1)] r it(2,3) by auto
qed

section \<open>Balanced-ternary logic\<close>

definition trit_clamp :: "int \<Rightarrow> int" where
  "trit_clamp z = max (- 1) (min 1 z)"

text \<open>The balanced residue modulo 3.\<close>

definition balanced :: "int \<Rightarrow> int" where
  "balanced z = (z + 1) mod 3 - 1"

definition trit_spec :: "opcode \<Rightarrow> int \<Rightarrow> int \<Rightarrow> int" where
  "trit_spec oc x y =
     (if oc = TAnd then min (trit_clamp x) (trit_clamp y)
      else if oc = TOr then max (trit_clamp x) (trit_clamp y)
      else balanced (trit_clamp x - trit_clamp y))"

lemma sint_clamp_trit: "sint (clamp_trit v) = trit_clamp (sint v)"
  by (simp add: clamp_trit_def trit_clamp_def)

lemma trit_clamp_cases: "trit_clamp z = - 1 \<or> trit_clamp z = 0 \<or> trit_clamp z = 1"
  by (auto simp: trit_clamp_def)

lemma trit_sub:
  assumes "sint l = trit_clamp x" "sint r = trit_clamp y"
  shows "ssub l r = Inr (l - r)" "sint (l - r) = trit_clamp x - trit_clamp y"
proof -
  have "int64_fits (sint l - sint r)"
    using assms trit_clamp_cases [of x] trit_clamp_cases [of y] by (auto simp: int64_fits_def)
  then show "ssub l r = Inr (l - r)" "sint (l - r) = trit_clamp x - trit_clamp y"
    using assms by (simp_all add: ssub_def sint_sub_fits)
qed

lemma trit_result_spec:
  assumes "oc \<in> {TAnd, TOr, TXor}"
  shows "\<exists>v. trit_result oc (clamp_trit x) (clamp_trit y) = Inr v \<and> sint v = trit_spec oc (sint x) (sint y)"
proof -
  note sub = trit_sub [OF sint_clamp_trit sint_clamp_trit, of x y]
  show ?thesis
    using assms sub trit_clamp_cases [of "sint x"] trit_clamp_cases [of "sint y"]
    by (auto simp: trit_result_def trit_spec_def balanced_def sint_clamp_trit Let_def)
qed

text \<open>
  C32: the ternary instructions never overflow. Executed with valid registers they always
  succeed: \<open>TAnd\<close>, \<open>TOr\<close> and \<open>TXor\<close> commit the minimum, the maximum and the balanced residue
  modulo 3 of the difference of the two operands clamped to \<open>-1\<close>, \<open>0\<close>, \<open>1\<close>.
\<close>

theorem trit_logic_total:
  assumes "reach F host p it" "length (insns p) < max_program"
    and "executes it (mk_insn oc a b c)" "oc \<in> {TAnd, TOr, TXor}"
    and "valid_reg a" "valid_reg b" "valid_reg c"
  shows "\<exists>it'. step F it = Inr (it', None) \<and>
     wrote (unat a) (trit_spec oc (sint (registers (vm it) ! unat b))
       (sint (registers (vm it) ! unat c))) it'"
proof -
  let ?x = "registers (vm it) ! unat b" and ?y = "registers (vm it) ! unat c"
  note regs = reach_registers [OF assms(1,2)] assms(5-7) [THEN valid_reg_less]
  have ex: "step F it = exec_trit (mk_insn oc a b c) (pc (vm it)) (begin_step it)"
    using assms(4) by (auto simp: step_executes [OF assms(3)] exec_def)
  from trit_result_spec [OF assms(4), of ?x ?y] obtain v where
    "trit_result oc (clamp_trit ?x) (clamp_trit ?y) = Inr v" "sint v = trit_spec oc (sint ?x) (sint ?y)"
    by blast
  with regs show ?thesis
    by (auto simp: ex exec_trit_def ending_defs state_defs wrote_def sint_zero_iff)
qed

theorem trit_logic_total_witness:
  "\<exists>it'. step int_fpu (loaded_vm [mk_insn TXor 3 4 5]) = Inr (it', None) \<and> wrote 3 0 it'"
proof -
  let ?p = "[mk_insn TXor 3 4 5]"
  have ex: "executes (loaded_vm ?p) (mk_insn TXor 3 4 5)"
    by (simp add: executes_def loaded_defs validate_program_None insn_ok_eval)
  have len: "length (insns (bare_program ?p)) < max_program" by (simp add: max_program_def)
  have "trit_spec TXor 0 0 = 0" by (simp add: trit_spec_def trit_clamp_def balanced_def)
  moreover have "registers (vm (loaded_vm ?p)) = replicate 243 0" by (simp add: loaded_defs)
  ultimately show ?thesis
    using trit_logic_total [OF reach.loaded [OF load_bare, of int_fpu False] len ex]
    by (simp add: valid_reg_def)
qed

section \<open>Comparison and conditional jump\<close>

lemma exec_cmp_effect:
  assumes "exec_cmp i pc0 it = Inr (it', None)"
  shows "flags_of (vm it') = \<lparr>flag_zero = (sint (registers (vm it) ! idx_a i) = sint (registers (vm it) ! idx_b i)),
      flag_negative = (sint (registers (vm it) ! idx_a i) < sint (registers (vm it) ! idx_b i)),
      flag_positive = (sint (registers (vm it) ! idx_a i) > sint (registers (vm it) ! idx_b i))\<rparr>"
    "pc (vm it') = Suc (pc (vm it))" "halted (vm it') = halted (vm it)"
    "prog it' = prog it" "preload_trap it' = preload_trap it"
proof -
  from assms obtain d where d: "ssub (registers (vm it) ! idx_a i) (registers (vm it) ! idx_b i) = Inr d"
    and it': "it' = push_trace (opcode_of i) pc0 None (bump_pc (set_flags d it))"
    by (auto simp: exec_cmp_def reg_def ebind_eq_Inr vread_eq_Inr next_ok_def trace_ok_def)
  from ssub_Inr [OF d] have z: "(d = 0) = (sint (registers (vm it) ! idx_a i) = sint (registers (vm it) ! idx_b i))"
    by (simp add: sint_zero_iff [symmetric])
  show "flags_of (vm it') = \<lparr>flag_zero = (sint (registers (vm it) ! idx_a i) = sint (registers (vm it) ! idx_b i)),
      flag_negative = (sint (registers (vm it) ! idx_a i) < sint (registers (vm it) ! idx_b i)),
      flag_positive = (sint (registers (vm it) ! idx_a i) > sint (registers (vm it) ! idx_b i))\<rparr>"
    using ssub_Inr [OF d] z by (simp add: it' state_defs)
  show "pc (vm it') = Suc (pc (vm it))" "halted (vm it') = halted (vm it)"
    "prog it' = prog it" "preload_trap it' = preload_trap it"
    by (simp_all add: it' state_defs)
qed

definition jump_condition :: "opcode \<Rightarrow> int \<Rightarrow> int \<Rightarrow> bool" where
  "jump_condition oc x y \<longleftrightarrow>
     oc = JumpIfZero \<and> x = y \<or> oc = JumpIfNotZero \<and> x \<noteq> y \<or>
     oc = JumpIfNegative \<and> x < y \<or> oc = JumpIfPositive \<and> x > y"

text \<open>
  C31: comparing and branching. When \<open>Cmp ra rb\<close> and then a conditional jump to an
  instruction of the program execute, control continues at the target if the two registers
  compare as the jump asks (equal, different, less, greater), and behind the jump otherwise;
  registers and memory are untouched.
\<close>

theorem compare_then_branch:
  assumes "insns (prog it) ! pc (vm it) = mk_insn Cmp a b x"
    "insns (prog it) ! Suc (pc (vm it)) = mk_insn oc target y z" "\<not> halted (vm it)"
    "oc \<in> {JumpIfZero, JumpIfNotZero, JumpIfNegative, JumpIfPositive}"
    "0 \<le> sint target" "unat target < length (insns (prog it))"
    "step F it = Inr (it1, None)" "step F it1 = Inr (it2, r)"
    "Suc (pc (vm it)) < length (insns (prog it))"
  shows "r = None \<and> pc (vm it2) =
     (if jump_condition oc (sint (registers (vm it) ! unat a)) (sint (registers (vm it) ! unat b))
      then unat target else Suc (Suc (pc (vm it))))"
proof -
  have "exec_cmp (mk_insn Cmp a b x) (pc (vm it)) (begin_step it) = Inr (it1, None)"
    using step_running(1) [OF assms(7,3)] assms(1) by (simp add: exec_def)
  note cmp = exec_cmp_effect [OF this, simplified]
  from assms(7,3) have "preload_trap it = None" by (auto simp: step_def raise_trap_eq split: option.splits)
  with cmp assms(2,3,9) have "executes it1 (mk_insn oc target y z)" by (simp add: executes_def)
  from step_executes [OF this, of F] assms(4,8)
  have "exec_jump (mk_insn oc target y z) (pc (vm it1)) (begin_step it1) = Inr (it2, r)"
    by (auto simp: exec_def)
  with assms(4-6) cmp show ?thesis
    by (auto simp: exec_jump_def jump_taken_def check_jump_target_def target_outside_def
        jump_condition_def ending_defs state_defs split: if_splits)
qed

theorem compare_then_branch_witness:
  "\<exists>it1 it2. step int_fpu (loaded_vm [mk_insn Cmp 1 2 0, mk_insn JumpIfZero 3 0 0,
       mk_insn Nop 0 0 0, mk_insn Halt 0 0 0]) = Inr (it1, None) \<and>
     step int_fpu it1 = Inr (it2, None) \<and> pc (vm it2) = 3"
proof -
  let ?l = "loaded_vm [mk_insn Cmp 1 2 0, mk_insn JumpIfZero 3 0 0, mk_insn Nop 0 0 0,
       mk_insn Halt 0 0 0]"
  have "\<exists>it1 it2 r. step int_fpu ?l = Inr (it1, None) \<and> step int_fpu it1 = Inr (it2, r)"
    by (simp add: run_eval loaded_defs ssub_def target_outside_def jump_taken_def)
  then obtain it1 it2 r where st: "step int_fpu ?l = Inr (it1, None)" "step int_fpu it1 = Inr (it2, r)"
    by blast
  have l: "insns (prog ?l) ! pc (vm ?l) = mk_insn Cmp 1 2 0"
    "insns (prog ?l) ! Suc (pc (vm ?l)) = mk_insn JumpIfZero 3 0 0" "\<not> halted (vm ?l)"
    "length (insns (prog ?l)) = 4" "pc (vm ?l) = 0" "registers (vm ?l) = replicate 243 0"
    by (simp_all add: loaded_defs)
  from compare_then_branch [OF l(1-3) _ _ _ st] l st show ?thesis
    by (auto simp: jump_condition_def)
qed

end
