(* ===== verification/Control_Facts.thy ===== *)
theory Control_Facts
  imports Scalar_Facts
begin

text \<open>
  Control flow and policy: the program counter and the return addresses stay in the program,
  calls return behind themselves, and the Axion guard faults exactly under tier 0.
\<close>

section \<open>Control stays in the program\<close>

definition control_in :: "nat \<Rightarrow> interp \<Rightarrow> bool" where
  "control_in n it \<longleftrightarrow> pc (vm it) \<le> n \<and> (\<forall>x\<in>set (call_stack it). x \<le> n)"

lemma exec_control_in:
  assumes "control_in n it" "pc0 = pc (vm it)" "pc0 < n" "n = length (insns (prog it))"
  shows "outcome (\<lambda>(it', r). control_in n it') (\<lambda>h. True) (exec F i pc0 it)"
  using assms
  by - (rule exec_by_handler,
    simp_all add: control_in_def handler_defs outcome_rules ending_defs helper_defs state_defs
      Let_def intern_defs target_outside_def split: option.splits, auto dest: in_set_butlastD)

lemma control_in_begin_step [simp]: "control_in n (begin_step it) = control_in n it"
  by (simp add: control_in_def)

lemma step_control_in:
  assumes "step F it = Inr (it', r)" "control_in (length (insns (prog it))) it"
  shows "control_in (length (insns (prog it))) it' \<and> prog it' = prog it"
  using assms(1)
proof (cases rule: step_cases)
  case (run i)
  have "control_in (length (insns (prog it))) (begin_step it)" using assms(2) by simp
  from outcome_InrD [OF exec_control_in [OF this _ run(3)] run(5)] outcome_InrD [OF exec_frame run(5)]
  show ?thesis by (simp add: frame_kept_def)
qed (use assms(2) in \<open>auto simp: raise_trap_eq control_in_def\<close>)

lemma set_register_control:
  "set_register k v t it = Inr it' \<Longrightarrow> pc (vm it') = pc (vm it) \<and> call_stack it' = call_stack it \<and>
     prog it' = prog it \<and> policy_of (vm it') = policy_of (vm it) \<and> halted (vm it') = halted (vm it) \<and>
     preload_trap it' = preload_trap it"
  by (auto simp: set_register_def register_defs ebind_eq_Inr vwrite_eq_Inr split: if_splits)

lemma load_control: "load_program p it0 = Inr it \<Longrightarrow> call_stack it = []"
  by (auto simp: load_program_def ebind_eq_Inr)

lemma reach_control:
  "reach F host p it \<Longrightarrow> control_in (length (insns p)) it \<and> prog it = p"
proof (induction rule: reach.induct)
  case (loaded it0 it)
  from load_fresh_machine [OF loaded] load_control [OF loaded] show ?case by (simp add: control_in_def)
next
  case (stepped it it' r)
  then show ?case using step_control_in by blast
next
  case (written it k v t it')
  from set_register_control [OF written(3)] written.IH show ?case by (simp add: control_in_def)
qed

lemma step_preload: "step F it = Inr (it', r) \<Longrightarrow> preload_trap it' \<in> {None, preload_trap it}"
proof (erule step_cases)
  fix i
  assume "preload_trap it = None" "exec F i (pc (vm it)) (begin_step it) = Inr (it', r)"
  with outcome_InrD [OF exec_frame this(2)] show ?thesis by (simp add: frame_kept_def)
qed (auto simp: raise_trap_eq)

lemma reach_preload: "reach F host p it \<Longrightarrow> preload_trap it \<in> {None, Some DecodeFault}"
proof (induction rule: reach.induct)
  case (loaded it0 it)
  from load_fresh_machine(9) [OF loaded] show ?case by (simp add: validate_program_eval)
next
  case (stepped it it' r)
  then show ?case using step_preload by fastforce
next
  case (written it k v t it')
  then show ?case using set_register_control by metis
qed

lemma exec_not_NoTrap: "outcome (\<lambda>(it', r). r \<noteq> Some NoTrap) (\<lambda>h. True) (exec F i pc0 it)"
  by (rule exec_by_handler)
    (simp_all add: handler_defs outcome_rules ending_defs
      helper_defs state_defs Let_def intern_defs split: option.splits)

lemma step_not_NoTrap:
  assumes "step F it = Inr (it', Some t)" "preload_trap it \<noteq> Some NoTrap"
  shows "t \<noteq> NoTrap"
  using assms(1)
proof (cases rule: step_cases)
  case (run i)
  from outcome_InrD [OF exec_not_NoTrap run(5)] show ?thesis by simp
qed (use assms(2) in \<open>auto simp: raise_trap_eq\<close>)

text \<open>
  C13: control flow is confined, whether or not the program is valid. In every reachable
  machine the program counter and every return address are at most the program's length,
  so the only position outside the program is the one behind its last instruction, where
  the next step traps with \<open>DecodeFault\<close> unless the machine has halted (after \<open>Halt\<close> as the
  last instruction the counter is there too, and further steps do nothing).
\<close>

theorem control_is_confined:
  assumes "reach F host p it"
  shows "pc (vm it) \<le> length (insns p) \<and> (\<forall>k. k < length (call_stack it) \<longrightarrow> call_stack it ! k \<le> length (insns p)) \<and>
     (pc (vm it) = length (insns p) \<and> \<not> halted (vm it) \<longrightarrow>
        (\<exists>it'. step F it = Inr (it', Some DecodeFault)))"
proof -
  note ctl = reach_control [OF assms]
  have "\<exists>it'. step F it = Inr (it', Some DecodeFault)"
    if "pc (vm it) = length (insns p)" "\<not> halted (vm it)"
  proof (cases "preload_trap it")
    case None
    with that ctl show ?thesis by (simp add: step_def raise_trap_eq)
  next
    case (Some t)
    from reach_preload [OF assms] Some have "t = DecodeFault" by simp
    with that Some show ?thesis by (simp add: step_def raise_trap_eq)
  qed
  with ctl show ?thesis by (auto simp: control_in_def)
qed

theorem control_is_confined_witness:
  "\<exists>it. reach int_fpu False (bare_program sample_push) it \<and> pc (vm it) \<le> 4"
  using control_is_confined [OF reach.loaded [OF load_bare, of int_fpu False sample_push]]
    reach.loaded [OF load_bare, of int_fpu False sample_push]
  by (auto simp: sample_push_def)

section \<open>Calls\<close>

lemma exec_call_effect:
  assumes "exec_call i pc0 it = Inr (it', None)"
  shows "call_stack it' = call_stack it @ [Suc pc0]"
    "pc (vm it') = unat (registers (vm it) ! idx_a i)" "halted (vm it') = halted (vm it)"
    "prog it' = prog it" "preload_trap it' = preload_trap it"
    "pc (vm it') < length (insns (prog it))"
  using assms
  by (auto simp: exec_call_def ending_defs helper_defs state_defs ebind_eq_Inr vread_eq_Inr
      target_outside_def split: if_splits)

text \<open>
  C30: a call returns behind itself. When \<open>Call ra\<close> executes and the instruction it reaches
  is \<open>Ret\<close>, the return succeeds, control continues at the instruction after the call, and
  the call stack is as before the call, at any depth of nesting.
\<close>

theorem call_then_return:
  assumes "insns (prog it) ! pc (vm it) = mk_insn Call a x y" "\<not> halted (vm it)"
    "step F it = Inr (it1, None)" "opcode_of (insns (prog it) ! pc (vm it1)) = Ret"
  shows "\<exists>it2. step F it1 = Inr (it2, None) \<and> pc (vm it2) = Suc (pc (vm it)) \<and>
     call_stack it2 = call_stack it"
proof -
  have "exec_call (mk_insn Call a x y) (pc (vm it)) (begin_step it) = Inr (it1, None)"
    using step_running(1) [OF assms(3,2)] assms(1) by (simp add: exec_def)
  note call = exec_call_effect [OF this, simplified]
  from assms(3,2) have "preload_trap it = None"
    by (auto simp: step_def raise_trap_eq split: option.splits)
  with call assms(2) have "executes it1 (insns (prog it) ! pc (vm it1))" by (simp add: executes_def)
  from step_executes [OF this, of F] assms(4) call show ?thesis
    by (auto simp: exec_def exec_ret_def ending_defs state_defs)
qed

theorem call_then_return_witness:
  "\<exists>it it1 it2. reach int_fpu False (bare_program [mk_insn LoadImm 1 2 0, mk_insn Call 1 0 0,
       mk_insn Ret 0 0 0]) it \<and> step int_fpu it = Inr (it1, None) \<and>
     step int_fpu it1 = Inr (it2, None) \<and> pc (vm it2) = 2"
proof -
  let ?p = "[mk_insn LoadImm 1 2 0, mk_insn Call 1 0 0, mk_insn Ret 0 0 0]"
  have "\<exists>it it1. step int_fpu (loaded_vm ?p) = Inr (it, None) \<and> step int_fpu it = Inr (it1, None) \<and>
      prog it = bare_program ?p \<and> pc (vm it) = 1 \<and> pc (vm it1) = 2 \<and> \<not> halted (vm it)"
    by (simp add: run_eval loaded_defs target_outside_def)
  then obtain it it1 where st: "step int_fpu (loaded_vm ?p) = Inr (it, None)"
    "step int_fpu it = Inr (it1, None)" and it: "prog it = bare_program ?p" "pc (vm it) = 1"
    "pc (vm it1) = 2" "\<not> halted (vm it)" by blast
  have "insns (prog it) ! pc (vm it) = mk_insn Call 1 0 0"
    "opcode_of (insns (prog it) ! pc (vm it1)) = Ret" using it by simp_all
  from call_then_return [OF this(1) it(4) st(2) this(2)]
    reach.stepped [OF reach.loaded [OF load_bare] st(1)] st(2) it(2)
  show ?thesis by fastforce
qed

section \<open>The Axion guard\<close>

definition axion_guarded :: "opcode \<Rightarrow> bool" where
  "axion_guarded oc \<longleftrightarrow> oc \<in> {AxRead, AxSet, AxVerify}"

definition policy_tier :: "program \<Rightarrow> int option" where
  "policy_tier p = (case re_search tier_re (axion_policy_text p) of
      None \<Rightarrow> None | Some digits \<Rightarrow> (case stoi digits of Inl h \<Rightarrow> None | Inr t \<Rightarrow> Some t))"

lemma axion_denied_begin_step [simp]: "axion_denied (vm (begin_step it)) = axion_denied (vm it)"
  by (simp add: axion_denied_def)

lemma exec_unguarded:
  "\<not> axion_guarded (opcode_of i) \<Longrightarrow>
     outcome (\<lambda>(it', r). r \<noteq> Some SecurityFault) (\<lambda>h. True) (exec F i pc0 it)"
  by (rule exec_by_handler)
    (simp_all add: axion_guarded_def handler_defs outcome_rules ending_defs
      helper_defs state_defs Let_def intern_defs split: option.splits)

lemma exec_guarded:
  "axion_guarded (opcode_of i) \<Longrightarrow>
     outcome (\<lambda>(it', r). (r = Some SecurityFault) = axion_denied (vm it)) (\<lambda>h. True) (exec F i pc0 it)"
  by (auto simp: axion_guarded_def exec_def handler_defs outcome_rules ending_defs helper_defs
      state_defs Let_def)

lemma load_policy:
  assumes "load_program p it0 = Inr it"
  shows "axion_denied (vm it) \<longleftrightarrow> policy_tier p = Some 0"
  using assms
  by (auto simp: load_program_def load_program_image_def parse_policy_def axion_denied_def
      policy_tier_def ebind_eq_Inr default_state_def split: option.splits sum.splits)

lemma step_policy: "step F it = Inr (it', r) \<Longrightarrow> policy_of (vm it') = policy_of (vm it)"
proof (erule step_cases)
  fix i
  assume "exec F i (pc (vm it)) (begin_step it) = Inr (it', r)"
  from outcome_InrD [OF exec_frame this] show ?thesis by (simp add: frame_kept_def)
qed (auto simp: raise_trap_eq)

lemma reach_policy: "reach F host p it \<Longrightarrow> axion_denied (vm it) \<longleftrightarrow> policy_tier p = Some 0"
proof (induction rule: reach.induct)
  case (loaded it0 it)
  then show ?case by (rule load_policy)
next
  case (stepped it it' r)
  from step_policy [OF stepped(2)] stepped.IH show ?case by (simp add: axion_denied_def)
next
  case (written it k v t it')
  from set_register_control [OF written(3)] written.IH show ?case by (simp add: axion_denied_def)
qed

text \<open>
  C12: the policy decides, and nothing else. A step of a reachable machine raises
  \<open>SecurityFault\<close> if and only if it executes \<open>AxRead\<close>, \<open>AxSet\<close> or \<open>AxVerify\<close> and the policy
  text of the loaded program sets tier 0, for the machine's whole life.
\<close>

theorem axion_policy_enforced:
  assumes "reach F host p it" "executes it i" "step F it = Inr (it', r)"
  shows "r = Some SecurityFault \<longleftrightarrow> axion_guarded (opcode_of i) \<and> policy_tier p = Some 0"
proof -
  from step_executes [OF assms(2), of F] assms(3)
  have "exec F i (pc (vm it)) (begin_step it) = Inr (it', r)" by simp
  with outcome_InrD [OF exec_unguarded this] outcome_InrD [OF exec_guarded this]
    reach_policy [OF assms(1)]
  show ?thesis by auto
qed

text \<open>A program under tier 0, and its loaded machine.\<close>

definition sample_denied :: program where
  "sample_denied = \<lparr>insns = [mk_insn AxVerify 1 0 0], axion_policy_text = ''(policy (tier 0))''\<rparr>"

theorem axion_policy_enforced_witness:
  "\<exists>it it'. load_program sample_denied make_interpreter_vm = Inr it \<and>
     step int_fpu it = Inr (it', Some SecurityFault)"
proof -
  have tier: "policy_tier sample_denied = Some 0"
    by code_simp
  have ok: "validate_program sample_denied = None"
    by (simp add: validate_program_None sample_denied_def insn_ok_eval)
  have "\<exists>it. load_program sample_denied make_interpreter_vm = Inr it"
    using tier by (auto simp: policy_tier_def load_program_def load_program_image_def
        parse_policy_def split: option.splits sum.splits)
  then obtain it where l: "load_program sample_denied make_interpreter_vm = Inr it" by blast
  note fresh = load_fresh_machine [OF l]
  then have ex: "executes it (mk_insn AxVerify 1 0 0)"
    using ok by (simp add: executes_def sample_denied_def)
  have "\<exists>it' r. step int_fpu it = Inr (it', r)"
    using fresh by (simp add: step_executes [OF ex] exec_def exec_ax_verify_def Let_def
        ending_defs state_defs)
  then obtain it' r where st: "step int_fpu it = Inr (it', r)" by blast
  have "axion_guarded AxVerify" by (simp add: axion_guarded_def)
  with axion_policy_enforced [OF reach.loaded [OF l, of int_fpu False] ex st] tier st l
  show ?thesis by auto
qed

end
