(* ===== verification/Value_Facts.thy ===== *)
theory Value_Facts
  imports Control_Facts
begin

text \<open>
  Structured values: a tagged register always holds a live handle, and making and unwrapping
  a value are inverse; tensors, which no instruction can create, always fault.
\<close>

section \<open>Handles resolve\<close>

definition resolves :: "state \<Rightarrow> value_tag \<Rightarrow> i64 \<Rightarrow> bool" where
  "resolves s t v =
     (case t of
        OptionHandle \<Rightarrow> pool_ptr (option_pool s) v \<noteq> None
      | ResultHandle \<Rightarrow> pool_ptr (result_pool s) v \<noteq> None
      | EnumHandle \<Rightarrow> pool_ptr (enum_pool s) v \<noteq> None
      | TensorHandle \<Rightarrow> pool_ptr (tensor_pool s) v \<noteq> None
      | ShapeHandle \<Rightarrow> pool_ptr (shape_pool s) v \<noteq> None
      | _ \<Rightarrow> True)"

definition pools_resolve :: "state \<Rightarrow> bool" where
  "pools_resolve s \<longleftrightarrow>
     (\<forall>x\<in>set (option_pool s). resolves s (ov_tag x) (ov_payload x)) \<and>
     (\<forall>x\<in>set (result_pool s). resolves s (rv_tag x) (rv_payload x)) \<and>
     (\<forall>x\<in>set (enum_pool s). resolves s (en_tag x) (en_payload x))"

definition handles_ok :: "state \<Rightarrow> bool" where
  "handles_ok s \<longleftrightarrow> list_all2 (resolves s) (register_tags s) (registers s) \<and> pools_resolve s"

text \<open>Pools stay far below the range of a handle: each entry has a trace entry.\<close>

definition pools_bounded :: "state \<Rightarrow> bool" where
  "pools_bounded s \<longleftrightarrow> length (option_pool s) \<le> length (trace s) \<and>
     length (result_pool s) \<le> length (trace s) \<and> length (enum_pool s) \<le> length (trace s) \<and>
     length (tensor_pool s) \<le> length (trace s)"

definition same_pools :: "state \<Rightarrow> state \<Rightarrow> bool" where
  "same_pools s s' \<longleftrightarrow> option_pool s' = option_pool s \<and> result_pool s' = result_pool s \<and>
     enum_pool s' = enum_pool s \<and> tensor_pool s' = tensor_pool s \<and> shape_pool s' = shape_pool s"

lemma resolves_same: "same_pools s s' \<Longrightarrow> resolves s' = resolves s"
  by (intro ext) (simp add: resolves_def same_pools_def split: value_tag.splits)

lemma resolves_Int [simp]: "resolves s IntTag v" "resolves s WeightsTensorHandle v"
  by (simp_all add: resolves_def)

lemma handles_ok_same:
  "same_pools s s' \<Longrightarrow> registers s' = registers s \<Longrightarrow> register_tags s' = register_tags s \<Longrightarrow>
     handles_ok s' = handles_ok s"
  by (simp add: handles_ok_def pools_resolve_def resolves_same) (simp add: same_pools_def)

lemma handles_ok_put:
  "same_pools s s' \<Longrightarrow> registers s' = (registers s)[k := v] \<Longrightarrow>
     register_tags s' = (register_tags s)[k := t] \<Longrightarrow> resolves s t v \<Longrightarrow> handles_ok s \<Longrightarrow> handles_ok s'"
  by (simp add: handles_ok_def pools_resolve_def resolves_same list_all2_update_cong)
    (simp add: same_pools_def)

lemma handles_ok_nth:
  "handles_ok s \<Longrightarrow> k < length (register_tags s) \<Longrightarrow> resolves s (register_tags s ! k) (registers s ! k)"
  by (simp add: handles_ok_def list_all2_nthD)

text \<open>The postcondition of every handler.\<close>

definition handles_kept :: "interp \<times> trap option \<Rightarrow> bool" where
  "handles_kept = (\<lambda>(it', r). handles_ok (vm it'))"

lemma trap_handles [simp]:
  "outcome handles_kept Q (raise_trap t oc pc0 seg d it) = handles_ok (vm it)"
  by (simp add: handles_kept_def raise_trap_eq) (rule handles_ok_same; simp add: same_pools_def)

lemma next_handles [simp]: "outcome handles_kept Q (next_ok oc pc0 it) = handles_ok (vm it)"
  by (simp add: handles_kept_def next_ok_def trace_ok_def state_defs)
    (rule handles_ok_same; simp add: same_pools_def)

lemma trace_handles [simp]: "outcome handles_kept Q (trace_ok oc pc0 it) = handles_ok (vm it)"
  by (simp add: handles_kept_def trace_ok_def state_defs)
    (rule handles_ok_same; simp add: same_pools_def)

lemma quiet_handles [simp]:
  "handles_ok (vm (set_flags v it)) = handles_ok (vm it)"
  "handles_ok (vm (log_event oc d it)) = handles_ok (vm it)"
  "handles_ok (vm (log_segment_event oc sg it)) = handles_ok (vm it)"
  "handles_ok (vm (log_bounds_fault oc sg a d it)) = handles_ok (vm it)"
  "handles_ok (vm (log_axion_guard oc l sg a dn val it)) = handles_ok (vm it)"
  "handles_ok (vm (set_pc n it)) = handles_ok (vm it)"
  by (rule handles_ok_same; simp add: state_defs same_pools_def)+

lemma put_handles:
  "handles_ok (vm it) \<Longrightarrow> resolves (vm it) t v \<Longrightarrow>
     outcome (\<lambda>it'. handles_ok (vm it')) (\<lambda>h. True) (set_register_value k v t it)"
  by (simp add: helper_defs outcome_rules)
    (auto intro!: handles_ok_put [of "vm it" _ k v t] simp: same_pools_def)

lemma commit_handles:
  assumes "handles_ok (vm it)" "resolves (vm it) t v"
  shows "outcome handles_kept (\<lambda>h. True) (commit i pc0 v t it)"
proof -
  have "outcome handles_kept (\<lambda>h. True) (ebind (reg it1 k) (\<lambda>w. next_ok oc pc0 (set_flags w it1)))"
    if "handles_ok (vm it1)" for it1 k oc
    using that by (simp add: reg_def outcome_vread)
  then show ?thesis
    using outcome_mono [OF put_handles [OF assms]] by (simp add: commit_def)
qed

definition pools_extend :: "state \<Rightarrow> state \<Rightarrow> bool" where
  "pools_extend s s' \<longleftrightarrow> (\<exists>a b c d e. option_pool s' = option_pool s @ a \<and>
     result_pool s' = result_pool s @ b \<and> enum_pool s' = enum_pool s @ c \<and>
     tensor_pool s' = tensor_pool s @ d \<and> shape_pool s' = shape_pool s @ e)"

lemma resolves_extend: "pools_extend s s' \<Longrightarrow> resolves s t v \<Longrightarrow> resolves s' t v"
  by (auto simp: pools_extend_def resolves_def split: value_tag.splits)
    (blast intro: pool_ptr_append)+

lemma registers_extend:
  "pools_extend s s' \<Longrightarrow> list_all2 (resolves s) ts vs \<Longrightarrow> list_all2 (resolves s') ts vs"
  by (erule list_all2_mono) (rule resolves_extend)

lemma intern_extend:
  "pools_extend (vm it) (vm (snd (intern_option ov it)))"
  "pools_extend (vm it) (vm (snd (intern_result rv it)))"
  "pools_extend (vm it) (vm (snd (intern_enum en it)))"
  by (simp_all add: intern_defs Let_def pools_extend_def)

text \<open>Interning a resolving payload keeps the invariant and yields a resolving handle.\<close>

lemma intern_option_handles:
  assumes "intern_option ov it = (h, it1)" "handles_ok (vm it)"
    "resolves (vm it) (ov_tag ov) (ov_payload ov)" "length (option_pool (vm it)) < 2 ^ 63 - 1"
  shows "handles_ok (vm it1) \<and> resolves (vm it1) OptionHandle h"
proof -
  have ext: "pools_extend (vm it) (vm it1)" using intern_extend(1) [of it ov] assms(1) by simp
  have fields: "option_pool (vm it1) = option_pool (vm it) @ [ov]"
    "result_pool (vm it1) = result_pool (vm it)" "enum_pool (vm it1) = enum_pool (vm it)"
    "registers (vm it1) = registers (vm it)" "register_tags (vm it1) = register_tags (vm it)"
    using assms(1) by (auto simp: intern_defs Let_def)
  have "option_ptr it1 h = Some ov" using opt_pool.resolves [OF assms(4), of ov] assms(1) by simp
  then have "resolves (vm it1) OptionHandle h" by (simp add: resolves_def ptr_defs)
  with assms(2,3) show ?thesis
    by (auto simp: handles_ok_def pools_resolve_def fields
        intro: registers_extend [OF ext] resolves_extend [OF ext])
qed

lemma intern_result_handles:
  assumes "intern_result rv it = (h, it1)" "handles_ok (vm it)"
    "resolves (vm it) (rv_tag rv) (rv_payload rv)" "length (result_pool (vm it)) < 2 ^ 63 - 1"
  shows "handles_ok (vm it1) \<and> resolves (vm it1) ResultHandle h"
proof -
  have ext: "pools_extend (vm it) (vm it1)" using intern_extend(2) [of it rv] assms(1) by simp
  have fields: "result_pool (vm it1) = result_pool (vm it) @ [rv]"
    "option_pool (vm it1) = option_pool (vm it)" "enum_pool (vm it1) = enum_pool (vm it)"
    "registers (vm it1) = registers (vm it)" "register_tags (vm it1) = register_tags (vm it)"
    using assms(1) by (auto simp: intern_defs Let_def)
  have "result_ptr it1 h = Some rv" using res_pool.resolves [OF assms(4), of rv] assms(1) by simp
  then have "resolves (vm it1) ResultHandle h" by (simp add: resolves_def ptr_defs)
  with assms(2,3) show ?thesis
    by (auto simp: handles_ok_def pools_resolve_def fields
        intro: registers_extend [OF ext] resolves_extend [OF ext])
qed

lemma intern_enum_handles:
  assumes "intern_enum en it = (h, it1)" "handles_ok (vm it)"
    "resolves (vm it) (en_tag en) (en_payload en)" "length (enum_pool (vm it)) < 2 ^ 63 - 1"
  shows "handles_ok (vm it1) \<and> resolves (vm it1) EnumHandle h"
proof -
  have ext: "pools_extend (vm it) (vm it1)" using intern_extend(3) [of it en] assms(1) by simp
  have fields: "enum_pool (vm it1) = enum_pool (vm it) @ [en]"
    "option_pool (vm it1) = option_pool (vm it)" "result_pool (vm it1) = result_pool (vm it)"
    "registers (vm it1) = registers (vm it)" "register_tags (vm it1) = register_tags (vm it)"
    using assms(1) by (auto simp: intern_defs Let_def)
  have "enum_ptr it1 h = Some en" using enum_pool.resolves [OF assms(4), of en] assms(1) by simp
  then have "resolves (vm it1) EnumHandle h" by (simp add: resolves_def ptr_defs)
  with assms(2,3) show ?thesis
    by (auto simp: handles_ok_def pools_resolve_def fields
        intro: registers_extend [OF ext] resolves_extend [OF ext])
qed

text \<open>Values taken out of a pool resolve.\<close>

lemma pool_ptr_in_set: "pool_ptr p h = Some x \<Longrightarrow> x \<in> set p"
  using unat_minus_one_handle(2) [of h] by (auto simp: pool_ptr_Some)

lemma payload_resolves:
  "handles_ok (vm it) \<Longrightarrow> option_ptr it h = Some ov \<Longrightarrow> resolves (vm it) (ov_tag ov) (ov_payload ov)"
  "handles_ok (vm it) \<Longrightarrow> result_ptr it h = Some rv \<Longrightarrow> resolves (vm it) (rv_tag rv) (rv_payload rv)"
  "handles_ok (vm it) \<Longrightarrow> enum_ptr it h = Some en \<Longrightarrow> resolves (vm it) (en_tag en) (en_payload en)"
  by (auto simp: ptr_defs handles_ok_def pools_resolve_def dest!: pool_ptr_in_set)

section \<open>Every instruction keeps handles live\<close>

lemma bump_handles [simp]: "handles_ok (vm (bump_pc it)) = handles_ok (vm it)"
  by (rule handles_ok_same; simp add: state_defs same_pools_def)+

lemma mov_handles:
  assumes "handles_ok (vm it)" "length (registers (vm it)) = length (register_tags (vm it))"
  shows "outcome handles_kept (\<lambda>h. True)
     (ebind (reg it k) (\<lambda>v. ebind (reg_tag it k) (\<lambda>t. commit i pc0 v t it)))"
  using assms handles_ok_nth [OF assms(1)]
  by (auto simp: reg_def reg_tag_def outcome_vread intro: commit_handles)

lemma direct_put_handles:
  assumes "handles_ok (vm it)"
  shows "outcome handles_kept (\<lambda>h. True)
     (ebind (put_reg k v it) (\<lambda>it1. ebind (put_tag k IntTag it1) (\<lambda>it2.
        ebind (reg it2 k) (\<lambda>w. next_ok oc pc0 (set_flags w it2)))))"
  using assms
  by (simp add: helper_defs outcome_rules)
    (auto intro!: handles_ok_put [of "vm it" _ k v IntTag] simp: same_pools_def)

lemma intern_commit:
  "(\<And>h it1. m = (h, it1) \<Longrightarrow> handles_ok (vm it1) \<and> resolves (vm it1) t h) \<Longrightarrow>
     outcome handles_kept (\<lambda>h. True) (case m of (h, it1) \<Rightarrow> commit i pc0 h t it1)"
  by (cases m) (auto intro: commit_handles)

lemma make_handles:
  assumes "handles_ok (vm it)" "length (registers (vm it)) = length (register_tags (vm it))"
    "pools_bounded (vm it)" "length (trace (vm it)) < 2 ^ 63 - 1"
  shows "outcome handles_kept (\<lambda>h. True) (exec_make_option_some i pc0 it)"
    "outcome handles_kept (\<lambda>h. True) (exec_make_option_none i pc0 it)"
    "outcome handles_kept (\<lambda>h. True) (exec_make_result b i pc0 it)"
    "outcome handles_kept (\<lambda>h. True) (exec_make_enum_variant i pc0 it)"
    "outcome handles_kept (\<lambda>h. True) (exec_make_enum_variant_payload i pc0 it)"
proof -
  have pools: "length (option_pool (vm it)) < 2 ^ 63 - 1" "length (result_pool (vm it)) < 2 ^ 63 - 1"
    "length (enum_pool (vm it)) < 2 ^ 63 - 1"
    using assms(3,4) unfolding pools_bounded_def by linarith+
  note nth = handles_ok_nth [OF assms(1)] and [simp] = assms(2)
  have make_option: "outcome handles_kept (\<lambda>h. True)
      (case intern_option ov it of (h, it1) \<Rightarrow> commit i pc0 h OptionHandle it1)"
    if "resolves (vm it) (ov_tag ov) (ov_payload ov)" for ov
    by (rule intern_commit) (rule intern_option_handles [OF _ assms(1) that pools(1)])
  have make_result: "outcome handles_kept (\<lambda>h. True)
      (case intern_result rv it of (h, it1) \<Rightarrow> commit i pc0 h ResultHandle it1)"
    if "resolves (vm it) (rv_tag rv) (rv_payload rv)" for rv
    by (rule intern_commit) (rule intern_result_handles [OF _ assms(1) that pools(2)])
  have make_enum: "outcome handles_kept (\<lambda>h. True)
      (case intern_enum en it of (h, it1) \<Rightarrow> commit i pc0 h EnumHandle it1)"
    if "resolves (vm it) (en_tag en) (en_payload en)" for en
    by (rule intern_commit) (rule intern_enum_handles [OF _ assms(1) that pools(3)])
  show "outcome handles_kept (\<lambda>h. True) (exec_make_option_some i pc0 it)"
    by (simp add: exec_make_option_some_def reg_def reg_tag_def outcome_vread)
      (intro impI make_option; simp add: nth)
  show "outcome handles_kept (\<lambda>h. True) (exec_make_option_none i pc0 it)"
    unfolding exec_make_option_none_def by (rule make_option; simp)
  show "outcome handles_kept (\<lambda>h. True) (exec_make_result b i pc0 it)"
    by (simp add: exec_make_result_def reg_def reg_tag_def outcome_vread)
      (intro impI make_result; simp add: nth)
  show "outcome handles_kept (\<lambda>h. True) (exec_make_enum_variant i pc0 it)"
    unfolding exec_make_enum_variant_def by (rule make_enum; simp)
  show "outcome handles_kept (\<lambda>h. True) (exec_make_enum_variant_payload i pc0 it)"
    using assms(1)
    by (simp add: exec_make_enum_variant_payload_def reg_def reg_tag_def outcome_vread)
      (intro impI make_enum; simp add: nth)
qed

lemma other_fields [simp]:
  "handles_ok (s\<lparr>sp := n\<rparr>) = handles_ok s" "handles_ok (s\<lparr>stack_frames := fs\<rparr>) = handles_ok s"
  "handles_ok (s\<lparr>heap_ptr := n\<rparr>) = handles_ok s" "handles_ok (s\<lparr>heap_frames := fs\<rparr>) = handles_ok s"
  "handles_ok (s\<lparr>memory := m\<rparr>) = handles_ok s" "handles_ok (s\<lparr>pc := n\<rparr>) = handles_ok s"
  "handles_ok (s\<lparr>halted := b\<rparr>) = handles_ok s" "handles_ok (s\<lparr>gc_cycles := n\<rparr>) = handles_ok s"
  "handles_ok (s\<lparr>last_trap_payload := tp\<rparr>) = handles_ok s"
  by (rule handles_ok_same; simp add: same_pools_def)+

lemma put_fields:
  "handles_ok s \<Longrightarrow> resolves s t v \<Longrightarrow>
     handles_ok (s\<lparr>registers := (registers s)[k := v], register_tags := (register_tags s)[k := t]\<rparr>)"
  by (rule handles_ok_put [of s _ k v t]) (simp_all add: same_pools_def)

lemma resolves_fields [simp]:
  "resolves (s\<lparr>sp := n\<rparr>) = resolves s" "resolves (s\<lparr>stack_frames := fs\<rparr>) = resolves s"
  "resolves (s\<lparr>heap_ptr := n\<rparr>) = resolves s" "resolves (s\<lparr>heap_frames := fs\<rparr>) = resolves s"
  by (rule resolves_same; simp add: same_pools_def)+

lemma put_fields_frames:
  "handles_ok s \<Longrightarrow>
     handles_ok (s\<lparr>sp := n, stack_frames := fs, registers := (registers s)[k := v],
       register_tags := (register_tags s)[k := IntTag]\<rparr>)"
  "handles_ok s \<Longrightarrow>
     handles_ok (s\<lparr>heap_ptr := n, heap_frames := fs, registers := (registers s)[k := v],
       register_tags := (register_tags s)[k := IntTag]\<rparr>)"
  "handles_ok s \<Longrightarrow>
     handles_ok (s\<lparr>registers := (registers s)[k := v],
       register_tags := (register_tags s)[k := IntTag], sp := n\<rparr>)"
  by (rule handles_ok_put [of s _ k v IntTag]; simp add: same_pools_def)+

lemma weights_handles:
  "handles_ok s \<Longrightarrow> handles_ok (s\<lparr>registers := (registers s)[k := v],
       register_tags := (register_tags s)[k := WeightsTensorHandle]\<rparr>)"
  by (rule put_fields) simp_all

lemmas handle_rules = commit_handles put_fields put_fields_frames weights_handles

text \<open>Each handler, for any pools; the tensor handlers in a machine without tensors.\<close>

lemma plain_handles:
  assumes "handles_ok (vm it)"
  shows "outcome handles_kept (\<lambda>h. True) (exec_load_imm i pc0 it)"
    "outcome handles_kept (\<lambda>h. True) (exec_arith i pc0 it)"
    "outcome handles_kept (\<lambda>h. True) (exec_inc i pc0 it)"
    "outcome handles_kept (\<lambda>h. True) (exec_dec i pc0 it)"
    "outcome handles_kept (\<lambda>h. True) (exec_cmp i pc0 it)"
    "outcome handles_kept (\<lambda>h. True) (exec_neg i pc0 it)"
    "outcome handles_kept (\<lambda>h. True) (exec_tnot i pc0 it)"
    "outcome handles_kept (\<lambda>h. True) (exec_trit i pc0 it)"
    "outcome handles_kept (\<lambda>h. True) (exec_relation i pc0 it)"
    "outcome handles_kept (\<lambda>h. True) (exec_setf i pc0 it)"
    "outcome handles_kept (\<lambda>h. True) (exec_weights_load i pc0 it)"
    "outcome handles_kept (\<lambda>h. True) (exec_stack_alloc i pc0 it)"
    "outcome handles_kept (\<lambda>h. True) (exec_stack_free i pc0 it)"
    "outcome handles_kept (\<lambda>h. True) (exec_heap_alloc i pc0 it)"
    "outcome handles_kept (\<lambda>h. True) (exec_heap_free i pc0 it)"
    "outcome handles_kept (\<lambda>h. True) (exec_push i pc0 it)"
    "outcome handles_kept (\<lambda>h. True) (exec_pop i pc0 it)"
    "outcome handles_kept (\<lambda>h. True) (exec_store i pc0 it)"
    "outcome handles_kept (\<lambda>h. True) (exec_load i pc0 it)"
    "outcome handles_kept (\<lambda>h. True) (exec_jump i pc0 it)"
    "outcome handles_kept (\<lambda>h. True) (exec_call i pc0 it)"
    "outcome handles_kept (\<lambda>h. True) (exec_ret i pc0 it)"
    "outcome handles_kept (\<lambda>h. True) (exec_halt i pc0 it)"
    "outcome handles_kept (\<lambda>h. True) (exec_ax_read i pc0 it)"
    "outcome handles_kept (\<lambda>h. True) (exec_ax_set i pc0 it)"
    "outcome handles_kept (\<lambda>h. True) (exec_ax_verify i pc0 it)"
  by (simp_all add: assms scalar_defs memory_defs control_defs outcome_rules helper_defs
      handle_rules Let_def)

lemma unwrap_handles:
  assumes "handles_ok (vm it)"
  shows "outcome handles_kept (\<lambda>h. True) (exec_option_is_some i pc0 it)"
    "outcome handles_kept (\<lambda>h. True) (exec_option_unwrap i pc0 it)"
    "outcome handles_kept (\<lambda>h. True) (exec_result_is_ok i pc0 it)"
    "outcome handles_kept (\<lambda>h. True) (exec_result_unwrap b i pc0 it)"
    "outcome handles_kept (\<lambda>h. True) (exec_enum_is_variant i pc0 it)"
    "outcome handles_kept (\<lambda>h. True) (exec_enum_unwrap_payload i pc0 it)"
  using payload_resolves [OF assms]
  by (simp_all add: assms exec_option_is_some_def exec_option_unwrap_def exec_result_is_ok_def
      exec_result_unwrap_def exec_enum_is_variant_def exec_enum_unwrap_payload_def outcome_rules
      reg_def reg_tag_def commit_handles split: option.splits)

lemma tensor_handles:
  assumes "handles_ok (vm it)" "tensor_pool (vm it) = []"
  shows "outcome handles_kept (\<lambda>h. True) (exec_tvec i pc0 it)"
    "outcome handles_kept (\<lambda>h. True) (exec_tmatmul i pc0 it)"
    "outcome handles_kept (\<lambda>h. True) (exec_ttendot i pc0 it)"
    "outcome handles_kept (\<lambda>h. True) (exec_ttranspose i pc0 it)"
    "outcome handles_kept (\<lambda>h. True) (exec_tunary F i pc0 it)"
    "outcome handles_kept (\<lambda>h. True) (exec_chk_shape i pc0 it)"
  by (simp_all add: assms exec_tvec_def exec_tmatmul_def exec_ttendot_def exec_ttranspose_def
      exec_tunary_def exec_chk_shape_def with_tensors_def with_tensor_def outcome_rules reg_def
      reg_tag_def tensor_ptr_def)

lemma exec_handles:
  assumes "handles_ok (vm it)" "vm_wf it" "pools_bounded (vm it)" "length (trace (vm it)) < 2 ^ 63 - 1"
  shows "outcome handles_kept (\<lambda>h. True) (exec F i pc0 it)"
proof -
  have len: "length (registers (vm it)) = length (register_tags (vm it))"
    and none: "tensor_pool (vm it) = []"
    using assms(2) by (simp_all add: vm_wf_def Let_def)
  note mov = mov_handles [OF assms(1) len]
  show ?thesis
    by (rule exec_by_handler)
      (simp_all add: plain_handles [OF assms(1)] unwrap_handles [OF assms(1)]
        tensor_handles [OF assms(1) none] make_handles [OF assms(1) len assms(3,4)] assms(1)
        mov [unfolded outcome_ebind] exec_mov_def exec_convert_def)
qed

section \<open>Reachable machines\<close>

lemma exec_pools_bounded:
  assumes "pools_bounded (vm it)"
  shows "outcome (\<lambda>(it', r). pools_bounded (vm it')) (\<lambda>h. True) (exec F i pc0 it)"
  using assms
  by - (rule exec_by_handler,
    simp_all add: pools_bounded_def le_SucI handler_defs outcome_rules ending_defs helper_defs
      state_defs Let_def intern_defs split: option.splits)

lemma begin_step_pools [simp]:
  "pools_bounded (vm (begin_step it)) = pools_bounded (vm it)"
  "handles_ok (vm (begin_step it)) = handles_ok (vm it)"
  by (simp_all add: begin_step_def Let_def pools_bounded_def)

lemma step_pools_bounded:
  assumes "step F it = Inr (it', r)" "pools_bounded (vm it)"
  shows "pools_bounded (vm it')"
  using assms(1)
proof (cases rule: step_cases)
  case (run i)
  have "pools_bounded (vm (begin_step it))" using assms(2) by simp
  from outcome_InrD [OF exec_pools_bounded [OF this] run(5)] show ?thesis by simp
qed (use assms(2) in \<open>auto simp: raise_trap_eq pools_bounded_def\<close>)

lemma step_handles:
  assumes "step F it = Inr (it', r)" "handles_ok (vm it)" "vm_wf it" "pools_bounded (vm it)"
    "length (trace (vm it)) < 2 ^ 63 - 1"
  shows "handles_ok (vm it')"
  using assms(1)
proof (cases rule: step_cases)
  case (run i)
  have "outcome handles_kept (\<lambda>h. True) (exec F i (pc (vm it)) (begin_step it))"
    using assms(2-5) by (intro exec_handles) simp_all
  from outcome_InrD [OF this run(5)] show ?thesis by (simp add: handles_kept_def)
next
  case (preload t)
  from outcome_InrD [OF iffD2 [OF trap_handles assms(2)] preload(3)] show ?thesis
    by (simp add: handles_kept_def)
next
  case past_end
  from outcome_InrD [OF iffD2 [OF trap_handles assms(2)] past_end(4)] show ?thesis
    by (simp add: handles_kept_def)
qed (use assms(2) in simp)

lemma load_pools:
  assumes "load_program p it0 = Inr it"
  shows "pools_bounded (vm it)" "handles_ok (vm it)"
  by (rule load_program_Inr [OF assms];
      simp add: default_state_def pools_bounded_def handles_ok_def pools_resolve_def
        list_all2_conv_all_nth)+

lemma set_register_pools:
  "set_register k v t it = Inr it' \<Longrightarrow> pools_bounded (vm it') = pools_bounded (vm it)"
  by (auto simp: set_register_def register_defs ebind_eq_Inr vwrite_eq_Inr pools_bounded_def
      split: if_splits)

lemma reach_pools_bounded: "reach F host p it \<Longrightarrow> pools_bounded (vm it)"
  by (induction rule: reach.induct)
    (auto simp: load_pools set_register_pools intro: step_pools_bounded)

lemma step_trace_mono: "step F it = Inr (it', r) \<Longrightarrow> length (trace (vm it)) \<le> length (trace (vm it'))"
  using step_trace_length [of F it it' r] by (cases "halted (vm it)") (auto simp: step_def)

lemma reach_handles:
  assumes "reach F host p it" "\<not> host" "length (insns p) < max_program"
    "length (trace (vm it)) < 2 ^ 63 - 1"
  shows "handles_ok (vm it)"
  using assms
proof (induction rule: reach.induct)
  case (loaded it0 it)
  then show ?case by (simp add: load_pools)
next
  case (stepped it it' r)
  have bound: "length (trace (vm it)) < 2 ^ 63 - 1"
    using step_trace_mono [OF stepped.hyps(2)] stepped.prems(3) by linarith
  with stepped show ?case
    using step_handles [OF stepped.hyps(2) _ _ reach_pools_bounded [OF stepped.hyps(1)] bound]
      reach_vm_wf [OF stepped.hyps(1)] by simp
qed simp

text \<open>
  C8: no dangling handles. As long as the host writes no registers (and the trace has
  fewer than \<open>2 ^ 63 - 1\<close> entries), every register tagged as an option, result or enum handle
  resolves in its pool, and no register is tagged as a tensor or a shape.
\<close>

theorem tagged_registers_resolve:
  assumes "reach F False p it" "length (insns p) < max_program"
    "length (trace (vm it)) < 2 ^ 63 - 1" "k < 243"
  shows "(register_tags (vm it) ! k = OptionHandle \<longrightarrow> option_ptr it (registers (vm it) ! k) \<noteq> None) \<and>
     (register_tags (vm it) ! k = ResultHandle \<longrightarrow> result_ptr it (registers (vm it) ! k) \<noteq> None) \<and>
     (register_tags (vm it) ! k = EnumHandle \<longrightarrow> enum_ptr it (registers (vm it) ! k) \<noteq> None) \<and>
     register_tags (vm it) ! k \<notin> {TensorHandle, ShapeHandle}"
proof -
  have ok: "handles_ok (vm it)" using reach_handles [OF assms(1) _ assms(2,3)] by simp
  from reach_vm_wf [OF assms(1,2)] have wf: "length (register_tags (vm it)) = 243"
    "tensor_pool (vm it) = []" "shape_pool (vm it) = []" by (simp_all add: vm_wf_def Let_def)
  from handles_ok_nth [OF ok, of k] assms(4) wf show ?thesis
    by (auto simp: resolves_def ptr_defs split: value_tag.splits)
qed

theorem tagged_registers_resolve_witness:
  "\<exists>it. reach int_fpu False (bare_program [mk_insn MakeOptionNone 4 0 0]) it \<and>
     register_tags (vm it) ! 4 = OptionHandle \<and> option_ptr it (registers (vm it) ! 4) \<noteq> None"
proof -
  let ?p = "[mk_insn MakeOptionNone 4 0 0]"
  have "\<exists>it. step int_fpu (loaded_vm ?p) = Inr (it, None) \<and> register_tags (vm it) ! 4 = OptionHandle \<and>
      length (trace (vm it)) = 1"
    by (simp add: run_eval loaded_defs intern_defs)
  then obtain it where st: "step int_fpu (loaded_vm ?p) = Inr (it, None)"
    and it: "register_tags (vm it) ! 4 = OptionHandle" "length (trace (vm it)) = 1" by blast
  have r: "reach int_fpu False (bare_program ?p) it"
    by (rule reach.stepped [OF reach.loaded [OF load_bare] st])
  have "length (insns (bare_program ?p)) < max_program" by (simp add: max_program_def)
  from tagged_registers_resolve [OF r this, of 4] it r show ?thesis by auto
qed

section \<open>Tensor instructions\<close>

definition tensor_opcodes :: "opcode set" where
  "tensor_opcodes = {TVecAdd, TVecMul, TMatMul, TTenDot, TTranspose, TExp, TSqrt, TSiLU, TSoftmax,
     TRMSNorm, TRoPE, ChkShape}"

lemma exec_tensor_faults:
  assumes "opcode_of i \<in> tensor_opcodes" "tensor_pool (vm it) = []"
  shows "outcome (\<lambda>(it', r). r = Some TypeFault \<or> r = Some DecodeFault) (\<lambda>h. True) (exec F i pc0 it)"
  using assms
  by (auto simp: tensor_opcodes_def exec_def exec_tvec_def exec_tmatmul_def exec_ttendot_def
      exec_ttranspose_def exec_tunary_def exec_chk_shape_def with_tensors_def with_tensor_def
      outcome_rules reg_def reg_tag_def tensor_ptr_def raise_trap_eq)

text \<open>
  C34: tensor instructions always fault. No instruction creates a tensor or a shape from
  nothing, and no function of the interface does; so in every machine a host reaches by
  loading, stepping and writing registers, a tensor instruction or \<open>ChkShape\<close> that returns
  reports \<open>TypeFault\<close> or \<open>DecodeFault\<close>.
\<close>

theorem tensor_instructions_fault:
  assumes "reach F host p it" "length (insns p) < max_program"
    "executes it i" "opcode_of i \<in> tensor_opcodes" "step F it = Inr (it', r)"
  shows "r = Some TypeFault \<or> r = Some DecodeFault"
proof -
  from reach_vm_wf [OF assms(1,2)] have "tensor_pool (vm (begin_step it)) = []"
    by (simp add: vm_wf_def begin_step_def Let_def)
  note faults = exec_tensor_faults [OF assms(4) this]
  from step_executes [OF assms(3), of F] assms(5)
  have "exec F i (pc (vm it)) (begin_step it) = Inr (it', r)" by simp
  from outcome_InrD [OF faults this] show ?thesis by simp
qed

theorem tensor_instructions_fault_witness:
  "\<exists>it'. step int_fpu (loaded_vm [mk_insn TRoPE 1 2 0]) = Inr (it', Some TypeFault)"
proof -
  let ?p = "[mk_insn TRoPE 1 2 0]"
  have ex: "executes (loaded_vm ?p) (mk_insn TRoPE 1 2 0)"
    by (simp add: executes_def loaded_defs validate_program_None insn_ok_eval)
  have "\<exists>it' r. step int_fpu (loaded_vm ?p) = Inr (it', r) \<and> r \<noteq> Some DecodeFault"
    by (simp add: run_eval loaded_defs)
  then obtain it' r where st: "step int_fpu (loaded_vm ?p) = Inr (it', r)" "r \<noteq> Some DecodeFault"
    by blast
  have "length (insns (bare_program ?p)) < max_program" by (simp add: max_program_def)
  from tensor_instructions_fault [OF reach.loaded [OF load_bare] this ex _ st(1)] st
  show ?thesis by (auto simp: tensor_opcodes_def)
qed

section \<open>Making and unwrapping\<close>



text \<open>\<open>wrapped un it k x t\<close>: register \<open>k\<close> holds a live handle \<open>un\<close> can unwrap to \<open>x\<close> tagged \<open>t\<close>.\<close>

definition wrapped :: "opcode \<Rightarrow> interp \<Rightarrow> nat \<Rightarrow> i64 \<Rightarrow> value_tag \<Rightarrow> bool" where
  "wrapped un it k x t \<longleftrightarrow> (let v = registers (vm it) ! k; tg = register_tags (vm it) ! k in
     un = OptionUnwrap \<and> tg = OptionHandle \<and>
       (\<exists>ov. pool_ptr (option_pool (vm it)) v = Some ov \<and> ov_has_value ov \<and> ov_payload ov = x \<and> ov_tag ov = t) \<or>
     un \<in> {ResultUnwrapOk, ResultUnwrapErr} \<and> tg = ResultHandle \<and>
       (\<exists>rv. pool_ptr (result_pool (vm it)) v = Some rv \<and> rv_is_ok rv = (un = ResultUnwrapOk) \<and>
          rv_payload rv = x \<and> rv_tag rv = t) \<or>
     un = EnumUnwrapPayload \<and> tg = EnumHandle \<and>
       (\<exists>en. pool_ptr (enum_pool (vm it)) v = Some en \<and> en_has_payload en \<and> en_payload en = x \<and> en_tag en = t))"



lemma wrapped_begin_step [simp]: "wrapped un (begin_step it) k x t = wrapped un it k x t"
  by (simp add: wrapped_def begin_step_def Let_def)



end
