(* ===== verification/Machine_Interface.thy ===== *)
theory Machine_Interface
  imports Execution
begin

text \<open>
  The interface \<open>IVirtualMachine\<close> (\<open>include/t81/vm/vm.hpp\<close>) as its clients use it: the
  locale states what \<open>step\<close>, \<open>run_to_halt\<close> and \<open>state\<close> promise, and proves what a client
  may conclude about a run from its outcome and the trace. The interpreter meets it.
\<close>

locale virtual_machine =
  fixes vstep :: "'m \<Rightarrow> hazard + 'm \<times> trap option"
    and vrun :: "nat \<Rightarrow> 'm \<Rightarrow> hazard + 'm \<times> trap option"
    and view :: "'m \<Rightarrow> state"
  assumes run_0: "vrun 0 m = Inr (m, Some TrapInstruction)"
    and run_Suc: "vrun (Suc n) m = ebind (vstep m) (\<lambda>(m1, r). case r of
         Some t \<Rightarrow> Inr (m1, Some t)
       | None \<Rightarrow> if halted (view m1) then Inr (m1, None) else vrun n m1)"
    and step_halted: "halted (view m) \<Longrightarrow> vstep m = Inr (m, None)"
    and step_traces: "\<not> halted (view m) \<Longrightarrow> vstep m = Inr (m', r) \<Longrightarrow>
         \<exists>e. trace (view m') = trace (view m) @ [e] \<and> te_trap e = r"
    and step_trap_running: "vstep m = Inr (m', Some t) \<Longrightarrow> halted (view m') = halted (view m)"
begin

lemma run_cases:
  assumes "vrun (Suc n) m = Inr (m', r)"
  obtains (trapped) t where "vstep m = Inr (m', Some t)" "r = Some t"
  | (stopped) "vstep m = Inr (m', None)" "halted (view m')" "r = None"
  | (goes_on) m1 where "vstep m = Inr (m1, None)" "\<not> halted (view m1)" "vrun n m1 = Inr (m', r)"
proof -
  from assms obtain m1 r1 where st: "vstep m = Inr (m1, r1)" and rest: "(case r1 of
       Some t \<Rightarrow> Inr (m1, Some t)
     | None \<Rightarrow> if halted (view m1) then Inr (m1, None) else vrun n m1) = Inr (m', r)"
    by (auto simp: run_Suc ebind_eq_Inr)
  show ?thesis
  proof (cases r1)
    case None
    with st rest that(2,3) show ?thesis by (cases "halted (view m1)") auto
  next
    case (Some t)
    with st rest that(1) show ?thesis by auto
  qed
qed

text \<open>A run adds as many trace entries as it takes steps, and succeeds exactly when it halts.\<close>

lemma run_trace:
  "vrun n m = Inr (m', r) \<Longrightarrow> \<not> halted (view m) \<Longrightarrow>
     \<exists>es. trace (view m') = trace (view m) @ es \<and> length es \<le> n \<and> (0 < n \<longrightarrow> es \<noteq> []) \<and>
       (r = None \<longleftrightarrow> halted (view m'))"
proof (induction n arbitrary: m)
  case 0
  then show ?case by (auto simp: run_0)
next
  case (Suc n)
  from Suc.prems(1) show ?case
  proof (cases rule: run_cases)
    case (trapped t)
    with step_traces [OF Suc.prems(2) trapped(1)] step_trap_running [OF trapped(1)] Suc.prems(2)
    show ?thesis by auto
  next
    case stopped
    with step_traces [OF Suc.prems(2) stopped(1)] show ?thesis by auto
  next
    case (goes_on m1)
    from Suc.IH [OF goes_on(3,2)] step_traces [OF Suc.prems(2) goes_on(1)] show ?thesis by force
  qed
qed

text \<open>
  Resuming: when the outcome is no success and the last trace entry shows no trap, the bound
  was exhausted, and going on is the same as having started with the larger bound.
\<close>

lemma run_resume:
  "vrun a m = Inr (m1, r) \<Longrightarrow> \<not> halted (view m) \<Longrightarrow> 0 < a \<Longrightarrow> r \<noteq> None \<Longrightarrow>
     te_trap (last (trace (view m1))) = None \<Longrightarrow> vrun (a + b) m = vrun b m1 \<and> r = Some TrapInstruction"
proof (induction a arbitrary: m)
  case (Suc a)
  from Suc.prems(1) show ?case
  proof (cases rule: run_cases)
    case (trapped t)
    with step_traces [OF Suc.prems(2) trapped(1)] Suc.prems(5) show ?thesis by auto
  next
    case stopped
    with Suc.prems(4) show ?thesis by simp
  next
    case (goes_on m2)
    show ?thesis
    proof (cases a)
      case 0
      with goes_on Suc.prems(4) show ?thesis by (auto simp: run_0 run_Suc)
    next
      case (Suc a')
      with Suc.IH [OF goes_on(3,2)] Suc.prems(4,5) goes_on(1,2) show ?thesis by (simp add: run_Suc)
    qed
  qed
qed simp

text \<open>
  Ranking: when every successful step either halts or lowers a rank, a run with a bound above
  the rank does not exhaust it, and its outcome is that of its last step.
\<close>

lemma run_ranked:
  assumes "P m" "\<not> halted (view m)" "rank m < n"
    and dec: "\<And>m m'. P m \<Longrightarrow> \<not> halted (view m) \<Longrightarrow> vstep m = Inr (m', None) \<Longrightarrow>
      P m' \<and> (halted (view m') \<or> rank m' < (rank m :: nat))"
  shows "(\<exists>h. vrun n m = Inl h) \<or> (\<exists>m' r es. vrun n m = Inr (m', r) \<and>
     trace (view m') = trace (view m) @ es \<and> es \<noteq> [] \<and> length es \<le> Suc (rank m) \<and>
     te_trap (last es) = r \<and> (r = None \<longleftrightarrow> halted (view m')))"
  using assms(1-3)
proof (induction n arbitrary: m)
  case (Suc n)
  show ?case
  proof (cases "vrun (Suc n) m")
    case (Inr res)
    then obtain m' r where run: "vrun (Suc n) m = Inr (m', r)" by (cases res) auto
    then show ?thesis
    proof (cases rule: run_cases)
      case (trapped t)
      from step_traces [OF Suc.prems(2) trapped(1)] step_trap_running [OF trapped(1)] run trapped(2)
        Suc.prems(2) show ?thesis by auto
    next
      case stopped
      from step_traces [OF Suc.prems(2) stopped(1)] run stopped(2,3) show ?thesis by auto
    next
      case (goes_on m1)
      from dec [OF Suc.prems(1,2) goes_on(1)] goes_on(2) have m1: "P m1" "rank m1 < rank m" by simp_all
      with Suc.IH [OF m1(1) goes_on(2)] Suc.prems(3) goes_on(3) obtain es where
        "trace (view m') = trace (view m1) @ es" "es \<noteq> []" "length es \<le> Suc (rank m1)"
        "te_trap (last es) = r" "(r = None) = halted (view m')" by auto
      with step_traces [OF Suc.prems(2) goes_on(1)] run m1(2) show ?thesis by fastforce
    qed
  qed simp
qed simp

end

interpretation interpreter: virtual_machine "step F" "run_to_halt F" vm for F
proof
  fix it :: interp
  show "run_to_halt F 0 it = Inr (it, Some TrapInstruction)" by simp
next
  fix it :: interp and n
  show "run_to_halt F (Suc n) it = ebind (step F it) (\<lambda>(it1, r). case r of
       Some t \<Rightarrow> Inr (it1, Some t)
     | None \<Rightarrow> if halted (vm it1) then Inr (it1, None) else run_to_halt F n it1)" by simp
next
  fix it :: interp
  assume "halted (vm it)"
  then show "step F it = Inr (it, None)" by (simp add: step_def)
next
  fix it it' :: interp and r
  assume "\<not> halted (vm it)" "step F it = Inr (it', r)"
  then show "\<exists>e. trace (vm it') = trace (vm it) @ [e] \<and> te_trap e = r"
    using step_traced [of F it it' r] by (auto simp: traced_def)
next
  fix it it' :: interp and t
  assume "step F it = Inr (it', Some t)"
  from arg_cong [OF step_atomic_trap [OF this], of "\<lambda>x. halted (vm x)"]
  show "halted (vm it') = halted (vm it)" by (simp add: erase_records_def)
qed

end
