(* ===== verification/Program_IO.thy ===== *)
theory Program_IO
  imports State Cxx_Text
begin

text \<open>
  Reading program files (\<open>src/vm/program_io.cpp\<close>): opcode names, the line format
  \<open>Text V1\<close>, the object format \<open>TISC JSON V1\<close> with its regular expressions and bracket
  matching, and the choice between them by the file name. The file system is a parameter:
  a map from paths to contents.
\<close>

section \<open>Opcode names\<close>

definition normalize_name :: "string \<Rightarrow> string" where
  "normalize_name raw = map toupper (filter (\<lambda>ch. \<not> (ch = CHR ''_'' \<or> ch = CHR ''-'')) raw)"

definition opcode_table :: "(string \<times> opcode) list" where
  "opcode_table = [
    (''NOP'', Nop), (''HALT'', Halt), (''LOADIMM'', LoadImm), (''LOAD'', Load),
    (''STORE'', Store), (''ADD'', Add), (''SUB'', Sub), (''MUL'', Mul), (''DIV'', Div),
    (''MOD'', Mod), (''JUMP'', Jump), (''JMP'', Jump), (''JUMPIFZERO'', JumpIfZero),
    (''JZ'', JumpIfZero), (''JUMPIFNOTZERO'', JumpIfNotZero), (''JNZ'', JumpIfNotZero),
    (''JUMPIFNEGATIVE'', JumpIfNegative), (''JN'', JumpIfNegative),
    (''JUMPIFPOSITIVE'', JumpIfPositive), (''JP'', JumpIfPositive), (''MOV'', Mov),
    (''INC'', Inc), (''DEC'', Dec), (''CMP'', Cmp), (''PUSH'', Push), (''POP'', Pop),
    (''CALL'', Call), (''RET'', Ret), (''TRAP'', Trap), (''NEG'', Neg), (''I2F'', I2F),
    (''F2I'', F2I), (''I2FRAC'', I2Frac), (''FRAC2I'', Frac2I), (''FADD'', FAdd),
    (''FSUB'', FSub), (''FMUL'', FMul), (''FDIV'', FDiv), (''FRACADD'', FracAdd),
    (''FRACSUB'', FracSub), (''FRACMUL'', FracMul), (''FRACDIV'', FracDiv), (''LESS'', Less),
    (''LT'', Less), (''LESSEQUAL'', LessEqual), (''LE'', LessEqual), (''GREATER'', Greater),
    (''GT'', Greater), (''GREATEREQUAL'', GreaterEqual), (''GE'', GreaterEqual),
    (''EQUAL'', Equal), (''EQ'', Equal), (''NOTEQUAL'', NotEqual), (''NEQ'', NotEqual),
    (''STACKALLOC'', StackAlloc), (''STACKFREE'', StackFree), (''HEAPALLOC'', HeapAlloc),
    (''HEAPFREE'', HeapFree), (''TNOT'', TNot), (''TAND'', TAnd), (''TOR'', TOr),
    (''TXOR'', TXor), (''AXREAD'', AxRead), (''AXSET'', AxSet), (''AXVERIFY'', AxVerify),
    (''TVECADD'', TVecAdd), (''TMATMUL'', TMatMul), (''TTENDOT'', TTenDot),
    (''TVECMUL'', TVecMul), (''TTRANSPOSE'', TTranspose), (''TEXP'', TExp),
    (''TSQRT'', TSqrt), (''TSILU'', TSiLU), (''TSOFTMAX'', TSoftmax),
    (''TRMSNORM'', TRMSNorm), (''TROPE'', TRoPE), (''CHKSHAPE'', ChkShape),
    (''WEIGHTSLOAD'', WeightsLoad), (''SETF'', SetF), (''MAKEOPTIONSOME'', MakeOptionSome),
    (''MAKEOPTIONNONE'', MakeOptionNone), (''MAKERESULTOK'', MakeResultOk),
    (''MAKERESULTERR'', MakeResultErr), (''OPTIONISSOME'', OptionIsSome),
    (''OPTIONUNWRAP'', OptionUnwrap), (''RESULTISOK'', ResultIsOk),
    (''RESULTUNWRAPOK'', ResultUnwrapOk), (''RESULTUNWRAPERR'', ResultUnwrapErr),
    (''MAKEENUMVARIANT'', MakeEnumVariant),
    (''MAKEENUMVARIANTPAYLOAD'', MakeEnumVariantPayload), (''ENUMISVARIANT'', EnumIsVariant),
    (''ENUMUNWRAPPAYLOAD'', EnumUnwrapPayload)]"

definition opcode_from_string :: "string \<Rightarrow> opcode option" where
  "opcode_from_string raw = map_of opcode_table (normalize_name raw)"

section \<open>Load results\<close>

datatype program_format = TextV1 | TiscJsonV1

record program_load_result =
  plr_ok :: bool
  plr_format :: program_format
  plr_program :: program
  plr_error :: string

definition new_result :: "program_format \<Rightarrow> program_load_result" where
  "new_result f = \<lparr>plr_ok = False, plr_format = f,
     plr_program = \<lparr>insns = [], axion_policy_text = []\<rparr>, plr_error = []\<rparr>"

definition fail_with :: "string \<Rightarrow> program_load_result \<Rightarrow> program_load_result" where
  "fail_with msg out = out\<lparr>plr_error := msg\<rparr>"

definition push_insn :: "insn \<Rightarrow> program_load_result \<Rightarrow> program_load_result" where
  "push_insn i out =
     out\<lparr>plr_program := (plr_program out)\<lparr>insns := insns (plr_program out) @ [i]\<rparr>\<rparr>"

definition put_policy :: "string \<Rightarrow> program_load_result \<Rightarrow> program_load_result" where
  "put_policy text out =
     out\<lparr>plr_program := (plr_program out)\<lparr>axion_policy_text := text\<rparr>\<rparr>"

section \<open>Text V1\<close>

definition trim :: "string \<Rightarrow> string" where
  "trim s = rev (dropWhile isspace (rev (dropWhile isspace s)))"

text \<open>The three operands of a line; missing or malformed ones are \<open>0\<close>.\<close>

definition extract_operands :: "string \<Rightarrow> i64 \<times> i64 \<times> i64" where
  "extract_operands s =
     (let (a, st1) = extract_i64 (s, False) 0;
          (b, st2) = extract_i64 st1 0;
          (c, st3) = extract_i64 st2 0
      in (a, b, c))"

fun load_lines :: "program_load_result \<Rightarrow> string list \<Rightarrow> program_load_result" where
  "load_lines out [] = out\<lparr>plr_ok := True\<rparr>"
| "load_lines out (line # rest) =
     (let t = trim line in
      if t = [] \<or> hd t = CHR ''#'' then load_lines out rest
      else let (oc, more) = extract_word t in
        if oc = ''POLICY'' then load_lines (put_policy (trim more) out) rest
        else let (a, b, c) = extract_operands more in
          case opcode_from_string oc of
            None \<Rightarrow> fail_with (''unknown opcode in text program: '' @ oc) out
          | Some opc \<Rightarrow> load_lines (push_insn (mk_insn opc a b c) out) rest)"

definition load_text_v1 :: "string \<Rightarrow> program_load_result" where
  "load_text_v1 contents = load_lines (new_result TextV1) (getlines contents)"

section \<open>TISC JSON V1\<close>

abbreviation dquote :: char where "dquote \<equiv> CHR 0x22"

definition int_field_re :: "string \<Rightarrow> re_item list" where
  "int_field_re key = map RChar ([dquote] @ key @ [dquote]) @
     [RStar isspace, RChar (CHR '':''), RStar isspace, RBeg, ROpt (CHR ''-''),
      RPlus isdigit, REnd]"

definition string_field_re :: "string \<Rightarrow> re_item list" where
  "string_field_re key = map RChar ([dquote] @ key @ [dquote]) @
     [RStar isspace, RChar (CHR '':''), RStar isspace, RChar dquote, RBeg,
      RStar (\<lambda>c. c \<noteq> dquote), REnd, RChar dquote]"

definition parse_int_field :: "string \<Rightarrow> string \<Rightarrow> hazard + i64 option" where
  "parse_int_field obj key =
     (case re_search (int_field_re key) obj of
        None \<Rightarrow> Inr None
      | Some digits \<Rightarrow> ebind (stoll digits) (\<lambda>v. Inr (Some v)))"

definition parse_string_field :: "string \<Rightarrow> string \<Rightarrow> string option" where
  "parse_string_field obj key = re_search (string_field_re key) obj"

text \<open>
  The index of the bracket that closes the first opening one, counting nested pairs;
  the scan starts at depth \<open>d\<close>.
\<close>

fun close_index :: "char \<Rightarrow> char \<Rightarrow> int \<Rightarrow> string \<Rightarrow> nat option" where
  "close_index l r d [] = None"
| "close_index l r d (x # xs) =
     (if x = l then map_option Suc (close_index l r (d + 1) xs)
      else if x = r then
        (if d - 1 = 0 then Some 0 else map_option Suc (close_index l r (d - 1) xs))
      else map_option Suc (close_index l r d xs))"

text \<open>One instruction object: an instruction, or the error message.\<close>

definition parse_insn_object :: "string \<Rightarrow> hazard + (string + insn)" where
  "parse_insn_object obj =
     (case parse_string_field obj ''opcode'' of
        None \<Rightarrow> Inr (Inl ''missing opcode in insn object'')
      | Some opname \<Rightarrow> (case opcode_from_string opname of
          None \<Rightarrow> Inr (Inl (''unknown opcode in json program: '' @ opname))
        | Some oc \<Rightarrow>
            let missing = Inr (Inl ''insn object requires integer fields a,b,c'') in
            ebind (parse_int_field obj ''a'') (\<lambda>fa. case fa of None \<Rightarrow> missing | Some a \<Rightarrow>
            ebind (parse_int_field obj ''b'') (\<lambda>fb. case fb of None \<Rightarrow> missing | Some b \<Rightarrow>
            ebind (parse_int_field obj ''c'') (\<lambda>fc. case fc of None \<Rightarrow> missing | Some c \<Rightarrow>
              Inr (Inr (mk_insn oc a b c)))))))"

text \<open>
  The loop over the array body; the argument is what is left of the body from \<open>pos\<close> on.
\<close>

function load_objects ::
  "program_load_result \<Rightarrow> string \<Rightarrow> hazard + (program_load_result \<times> bool)" where
  "load_objects out s =
     (case find_char (CHR ''{'') s of
        None \<Rightarrow> Inr (out, True)
      | Some ob \<Rightarrow>
          let t = drop ob s in
          (case close_index (CHR ''{'') (CHR ''}'') 0 t of
             None \<Rightarrow> Inr (fail_with ''unterminated insn object'' out, False)
           | Some cb \<Rightarrow>
               (case parse_insn_object (take (cb + 1) t) of
                  Inl h \<Rightarrow> Inl h
                | Inr (Inl msg) \<Rightarrow> Inr (fail_with msg out, False)
                | Inr (Inr i) \<Rightarrow> load_objects (push_insn i out) (drop (cb + 1) t))))"
  by pat_completeness auto
termination
  by (relation "measure (\<lambda>(out, s). length s)")
    (auto simp: diff_less_mono2 elim: find_char.elims)

declare load_objects.simps [simp del]

definition load_tisc_json_v1 :: "string \<Rightarrow> hazard + program_load_result" where
  "load_tisc_json_v1 s =
     (let out0 = new_result TiscJsonV1;
          out = (case parse_string_field s ''axion_policy_text'' of
                   None \<Rightarrow> out0 | Some text \<Rightarrow> put_policy text out0)
      in case find_sub ([dquote] @ ''insns'' @ [dquote]) s of
           None \<Rightarrow> Inr (fail_with ''missing insns array'' out)
         | Some insns_pos \<Rightarrow> (case find_char (CHR ''['') (drop insns_pos s) of
             None \<Rightarrow> Inr (fail_with ''invalid insns array'' out)
           | Some off \<Rightarrow>
               let t = drop (insns_pos + off) s in
               (case close_index (CHR ''['') (CHR '']'') 0 t of
                  None \<Rightarrow> Inr (fail_with ''unterminated insns array'' out)
                | Some rb \<Rightarrow>
                    ebind (load_objects out (take (rb - 1) (drop 1 t))) (\<lambda>(out1, complete).
                      if \<not> complete then Inr out1
                      else if insns (plr_program out1) = []
                      then Inr (fail_with ''insns array is empty'' out1)
                      else Inr (out1\<lparr>plr_ok := True\<rparr>)))))"

section \<open>Files\<close>

definition looks_like_json_path :: "string \<Rightarrow> bool" where
  "looks_like_json_path path \<longleftrightarrow> length path \<ge> 5 \<and> drop (length path - 5) path = ''.json''"

type_synonym file_system = "string \<Rightarrow> string option"

definition load_program_from_file :: "file_system \<Rightarrow> string \<Rightarrow> hazard + program_load_result" where
  "load_program_from_file fs path =
     (case fs path of
        None \<Rightarrow> Inr (fail_with (''unable to open file: '' @ path) (new_result TextV1))
      | Some contents \<Rightarrow>
          if looks_like_json_path path then load_tisc_json_v1 contents
          else Inr (load_text_v1 contents))"

end
