(* ===== verification/Summary.thy ===== *)
theory Summary
  imports State Cxx_Text
begin

unbundle bit_operations_syntax

text \<open>
  The deterministic summary of a state (\<open>src/vm/summary.cpp\<close>): the FNV-style hash over
  the observable fields, the trap payload line, and the snapshot.
\<close>

section \<open>The hash\<close>

definition fnv_offset_basis :: u64 where
  "fnv_offset_basis = 1469598103934665603"

definition fnv_prime :: u64 where
  "fnv_prime = 1099511628211"

definition mix_byte :: "u64 \<Rightarrow> u64 \<Rightarrow> u64" where
  "mix_byte b h = (h XOR b) * fnv_prime"

definition byte_of :: "u64 \<Rightarrow> nat \<Rightarrow> u64" where
  "byte_of v i = drop_bit (8 * i) v AND 255"

definition mix_u64 :: "u64 \<Rightarrow> u64 \<Rightarrow> u64" where
  "mix_u64 v h = fold (\<lambda>i. mix_byte (byte_of v i)) [0..<8] h"

definition opt_word :: "('a \<Rightarrow> u64) \<Rightarrow> 'a option \<Rightarrow> u64" where
  "opt_word f x = (case x of None \<Rightarrow> 0 | Some y \<Rightarrow> f y)"

definition opcode_word :: "opcode \<Rightarrow> u64" where
  "opcode_word oc = ucast (opcode_byte oc)"

definition trap_word :: "trap \<Rightarrow> u64" where
  "trap_word t = word_of_int (trap_code t)"

text \<open>The words \<open>state_hash\<close> mixes in, in its order.\<close>

definition entry_words :: "trace_entry \<Rightarrow> u64 list" where
  "entry_words e =
     [of_nat (te_pc e), opcode_word (te_opcode e),
      opt_word (\<lambda>r. of_nat (r + 1)) (te_write_reg e),
      opt_word id (te_write_value e),
      opt_word (\<lambda>t. of_nat (tag_code t) + 1) (te_write_tag e),
      opt_word trap_word (te_trap e)]"

definition payload_words :: "trap_payload option \<Rightarrow> u64 list" where
  "payload_words po = (case po of
      None \<Rightarrow> [0]
    | Some p \<Rightarrow>
        [1, trap_word (tp_trap p), of_nat (tp_pc p), opcode_word (tp_opcode p),
         tp_a p, tp_b p, tp_c p, of_nat (segment_code (tp_segment p)),
         of_nat (length (tp_detail p))] @
        map (\<lambda>ch. of_nat (code ch)) (tp_detail p))"

definition policy_words :: "policy option \<Rightarrow> u64 list" where
  "policy_words po = (case po of None \<Rightarrow> [0] | Some p \<Rightarrow> [1, word_of_int (tier p)])"

definition state_words :: "state \<Rightarrow> u64 list" where
  "state_words s =
     [of_nat (pc s), if halted s then 1 else 0, of_nat (gc_cycles s)] @
     registers s @ memory s @
     [of_nat (length (trace s))] @ concat (map entry_words (trace s)) @
     payload_words (last_trap_payload s) @ policy_words (policy_of s)"

definition state_hash :: "state \<Rightarrow> u64" where
  "state_hash s = fold mix_u64 (state_words s) fnv_offset_basis"

section \<open>Text\<close>

fun escape_payload_detail :: "string \<Rightarrow> string" where
  "escape_payload_detail [] = []"
| "escape_payload_detail (ch # rest) =
     (if ch = CHR 0x22 \<or> ch = CHR 0x5C then CHR 0x5C # ch # escape_payload_detail rest
      else if ch = newline then CHR 0x5C # CHR ''n'' # escape_payload_detail rest
      else ch # escape_payload_detail rest)"

definition trap_payload_summary_line :: "state \<Rightarrow> string" where
  "trap_payload_summary_line s =
     (case last_trap_payload s of
        None \<Rightarrow> []
      | Some p \<Rightarrow>
          ''TRAP_PAYLOAD'' @ '' trap='' @ trap_to_string (tp_trap p) @
          '' pc='' @ show_nat (tp_pc p) @
          '' opcode='' @ show_nat (unat (opcode_byte (tp_opcode p))) @
          '' a='' @ show_int (sint (tp_a p)) @ '' b='' @ show_int (sint (tp_b p)) @
          '' c='' @ show_int (sint (tp_c p)) @
          '' segment='' @ segment_to_string (tp_segment p) @
          '' detail='' @ [CHR 0x22] @ escape_payload_detail (tp_detail p) @ [CHR 0x22])"

definition hex_digit :: "nat \<Rightarrow> char" where
  "hex_digit d = (if d < 10 then char_of (48 + d) else char_of (87 + d))"

text \<open>\<open>std::hex << std::setfill('0') << std::setw(16)\<close>.\<close>

definition show_hex16 :: "u64 \<Rightarrow> string" where
  "show_hex16 v = map (\<lambda>i. hex_digit (unat (drop_bit (4 * i) v AND 15))) (rev [0..<16])"

definition snapshot_summary :: "state \<Rightarrow> string" where
  "snapshot_summary s =
     ''SNAPSHOT pc='' @ show_nat (pc s) @ '' halted='' @ (if halted s then ''1'' else ''0'') @
     '' gc_cycles='' @ show_nat (gc_cycles s) @
     (case policy_of s of None \<Rightarrow> [] | Some p \<Rightarrow> '' policy_tier='' @ show_int (tier p)) @
     [newline] @
     ''REGISTERS'' @
     concat (map (\<lambda>i. '' r'' @ show_nat i @ ''='' @ show_int (sint (registers s ! i)))
               [0..<length (registers s)]) @ [newline] @
     (let line = trap_payload_summary_line s in if line = [] then [] else line @ [newline]) @
     ''STATE_HASH 0x'' @ show_hex16 (state_hash s) @ [newline]"

end
