(* ===== verification/C_Api.thy ===== *)
theory C_Api
  imports VM Program_IO Summary
begin

text \<open>
  The C interface (\<open>src/vm/c_api.cpp\<close>): a handle owns an interpreter and the code of the
  last trap. A null pointer is \<open>None\<close>; functions that change the handle return it with
  their status. An exception that crosses the interface is a hazard.
\<close>

record handle =
  h_vm :: "interp option"
  h_last_trap :: int

definition kStatusOk :: int where "kStatusOk = 0"
definition kStatusHalted :: int where "kStatusHalted = 1"
definition kStatusInvalidArg :: int where "kStatusInvalidArg = - 1"
definition kStatusParseFault :: int where "kStatusParseFault = - 2"

definition trap_to_status :: "trap \<Rightarrow> int" where
  "trap_to_status t = trap_code t"

text \<open>\<open>allocated\<close> says whether \<open>new (std::nothrow)\<close> returned memory.\<close>

definition t81vm_create :: "bool \<Rightarrow> handle option" where
  "t81vm_create allocated =
     (if \<not> allocated then None
      else Some \<lparr>h_vm = Some make_interpreter_vm, h_last_trap = 0\<rparr>)"

definition t81vm_load_file ::
  "file_system \<Rightarrow> handle option \<Rightarrow> string option \<Rightarrow> hazard + int \<times> handle option" where
  "t81vm_load_file fs ho path =
     (case ho of None \<Rightarrow> Inr (kStatusInvalidArg, ho) | Some h \<Rightarrow>
      (case h_vm h of None \<Rightarrow> Inr (kStatusInvalidArg, ho) | Some v \<Rightarrow>
       (case path of None \<Rightarrow> Inr (kStatusInvalidArg, ho) | Some p \<Rightarrow>
          ebind (load_program_from_file fs p) (\<lambda>loaded.
            if \<not> plr_ok loaded
            then Inr (kStatusParseFault, Some (h\<lparr>h_last_trap := trap_to_status DecodeFault\<rparr>))
            else ebind (load_program (plr_program loaded) v) (\<lambda>v1.
              Inr (kStatusOk, Some (h\<lparr>h_vm := Some v1, h_last_trap := trap_to_status NoTrap\<rparr>)))))))"

definition t81vm_step :: "'d fpu \<Rightarrow> handle option \<Rightarrow> hazard + int \<times> handle option" where
  "t81vm_step F ho =
     (case ho of None \<Rightarrow> Inr (kStatusInvalidArg, ho) | Some h \<Rightarrow>
      (case h_vm h of None \<Rightarrow> Inr (kStatusInvalidArg, ho) | Some v \<Rightarrow>
         ebind (step F v) (\<lambda>(v1, res). case res of
             Some t \<Rightarrow> Inr (trap_to_status t,
                         Some (h\<lparr>h_vm := Some v1, h_last_trap := trap_to_status t\<rparr>))
           | None \<Rightarrow> if halted (vm v1) then Inr (kStatusHalted, Some (h\<lparr>h_vm := Some v1\<rparr>))
                     else Inr (kStatusOk, Some (h\<lparr>h_vm := Some v1\<rparr>)))))"

definition t81vm_run_to_halt ::
  "'d fpu \<Rightarrow> handle option \<Rightarrow> nat \<Rightarrow> hazard + int \<times> handle option" where
  "t81vm_run_to_halt F ho max_steps =
     (case ho of None \<Rightarrow> Inr (kStatusInvalidArg, ho) | Some h \<Rightarrow>
      (case h_vm h of None \<Rightarrow> Inr (kStatusInvalidArg, ho) | Some v \<Rightarrow>
         ebind (run_to_halt F max_steps v) (\<lambda>(v1, res). case res of
             Some t \<Rightarrow> Inr (trap_to_status t,
                         Some (h\<lparr>h_vm := Some v1, h_last_trap := trap_to_status t\<rparr>))
           | None \<Rightarrow> Inr (kStatusOk, Some (h\<lparr>h_vm := Some v1\<rparr>)))))"

definition t81vm_last_trap :: "handle option \<Rightarrow> int" where
  "t81vm_last_trap ho = (case ho of None \<Rightarrow> kStatusInvalidArg | Some h \<Rightarrow> h_last_trap h)"

definition handle_state :: "handle option \<Rightarrow> state option" where
  "handle_state ho = (case ho of None \<Rightarrow> None | Some h \<Rightarrow> map_option vm (h_vm h))"

definition t81vm_pc :: "handle option \<Rightarrow> nat" where
  "t81vm_pc ho = (case handle_state ho of None \<Rightarrow> 0 | Some s \<Rightarrow> pc s)"

definition t81vm_halted :: "handle option \<Rightarrow> int" where
  "t81vm_halted ho = (case handle_state ho of None \<Rightarrow> 0 | Some s \<Rightarrow> if halted s then 1 else 0)"

definition t81vm_state_hash :: "handle option \<Rightarrow> u64" where
  "t81vm_state_hash ho = (case handle_state ho of None \<Rightarrow> 0 | Some s \<Rightarrow> state_hash s)"

definition t81vm_register :: "handle option \<Rightarrow> nat \<Rightarrow> i64" where
  "t81vm_register ho index =
     (case handle_state ho of None \<Rightarrow> 0
      | Some s \<Rightarrow> if index \<ge> length (registers s) then 0 else registers s ! index)"

definition t81vm_trace_len :: "handle option \<Rightarrow> nat" where
  "t81vm_trace_len ho = (case handle_state ho of None \<Rightarrow> 0 | Some s \<Rightarrow> length (trace s))"

record c_trace_entry =
  cte_pc :: nat
  cte_opcode :: u8
  cte_trap :: int

text \<open>\<open>out\<close> is the caller's entry, or \<open>None\<close> for a null pointer; the result holds it.\<close>

definition t81vm_trace_get ::
  "handle option \<Rightarrow> nat \<Rightarrow> c_trace_entry option \<Rightarrow> int \<times> c_trace_entry option" where
  "t81vm_trace_get ho index out =
     (case handle_state ho of None \<Rightarrow> (kStatusInvalidArg, out) | Some s \<Rightarrow>
      (case out of None \<Rightarrow> (kStatusInvalidArg, out) | Some out0 \<Rightarrow>
        if index \<ge> length (trace s) then (kStatusInvalidArg, out)
        else let e = trace s ! index in
          (kStatusOk, Some \<lparr>cte_pc = te_pc e, cte_opcode = opcode_byte (te_opcode e),
             cte_trap = (case te_trap e of None \<Rightarrow> - 1 | Some t \<Rightarrow> trap_code t)\<rparr>)))"

lemmas status_defs = kStatusOk_def kStatusHalted_def kStatusInvalidArg_def
  kStatusParseFault_def trap_to_status_def

end
