(* ===== verification/Api_Facts.thy ===== *)
theory Api_Facts
  imports Machine_Interface C_Api Control_Facts
begin

text \<open>
  What a C client can rely on: the status of a run and running in slices; and the status of
  \<open>t81vm_step\<close> it cannot interpret.
\<close>

lemma trap_status_pos: "t \<noteq> NoTrap \<Longrightarrow> 0 < trap_to_status t"
  by (cases t) (simp_all add: trap_to_status_def)

lemma reach_step_pos:
  assumes "reach F host p it" "step F it = Inr (it', Some t)"
  shows "0 < trap_to_status t"
  using step_not_NoTrap [OF assms(2)] reach_preload [OF assms(1)] trap_status_pos by auto

lemma run_not_NoTrap:
  assumes "run_to_halt F n it = Inr (it', Some t)" "reach F host p it"
  shows "0 < trap_to_status t"
  using assms
proof (induction n arbitrary: it)
  case 0
  then show ?case by (simp add: trap_to_status_def)
next
  case (Suc n)
  from Suc.prems(1) show ?case
  proof (cases rule: interpreter.run_cases)
    case (trapped t')
    with reach_step_pos [OF Suc.prems(2) trapped(1)] show ?thesis by simp
  next
    case (goes_on m1)
    with Suc.IH reach.stepped [OF Suc.prems(2) goes_on(1)] show ?thesis by blast
  qed simp
qed

section \<open>The status of a run\<close>

text \<open>
  C26: the status of a run. For a handle whose machine is reachable and has not halted before
  the call, \<open>t81vm_run_to_halt\<close> returns \<open>0\<close> exactly when the machine has halted afterwards;
  any other status is positive and is what \<open>t81vm_last_trap\<close> then returns; and the trace
  grows by at most \<open>max_steps\<close> entries, and by at least one if \<open>max_steps\<close> is positive.
\<close>

theorem run_status:
  assumes "h_vm h = Some v" "reach F host p v" "\<not> halted (vm v)"
    and "t81vm_run_to_halt F (Some h) n = Inr (st, ho)"
  shows "(st = kStatusOk \<longleftrightarrow> t81vm_halted ho = 1) \<and>
     (st = kStatusOk \<or> 0 < st \<and> t81vm_last_trap ho = st) \<and>
     t81vm_trace_len (Some h) \<le> t81vm_trace_len ho \<and>
     t81vm_trace_len ho \<le> t81vm_trace_len (Some h) + n \<and>
     (n = 0 \<or> t81vm_trace_len (Some h) < t81vm_trace_len ho)"
proof -
  from assms(1,4) obtain v1 r where run: "run_to_halt F n v = Inr (v1, r)"
    and res: "(case r of
        Some t \<Rightarrow> (trap_to_status t, Some (h\<lparr>h_vm := Some v1, h_last_trap := trap_to_status t\<rparr>))
      | None \<Rightarrow> (kStatusOk, Some (h\<lparr>h_vm := Some v1\<rparr>))) = (st, ho)"
    by (auto simp: t81vm_run_to_halt_def ebind_eq_Inr split: option.splits)
  from interpreter.run_trace [OF run assms(3)] obtain es where
    "trace (vm v1) = trace (vm v) @ es" "length es \<le> n" "0 < n \<longrightarrow> es \<noteq> []"
    "(r = None) = halted (vm v1)" by blast
  moreover have "0 < trap_to_status t" if "r = Some t" for t
    using run_not_NoTrap [OF run [unfolded that] assms(2)] .
  ultimately show ?thesis using res assms(1)
    by (cases r) (fastforce simp: t81vm_halted_def t81vm_last_trap_def t81vm_trace_len_def
        handle_state_def kStatusOk_def)+
qed

definition sample_handle :: "insn list \<Rightarrow> handle" where
  "sample_handle is = \<lparr>h_vm = Some (loaded_vm is), h_last_trap = 0\<rparr>"

theorem run_status_witness:
  "\<exists>ho. t81vm_run_to_halt int_fpu (Some (sample_handle sample_push)) 9 = Inr (0, ho) \<and> t81vm_halted ho = 1"
proof -
  have "\<exists>ho. t81vm_run_to_halt int_fpu (Some (sample_handle sample_push)) 9 = Inr (0, ho)"
    by (simp add: t81vm_run_to_halt_def sample_handle_def run_eval loaded_defs sample_push_def
        kStatusOk_def)
  then obtain ho where run: "t81vm_run_to_halt int_fpu (Some (sample_handle sample_push)) 9 = Inr (0, ho)"
    by blast
  have "h_vm (sample_handle sample_push) = Some (loaded_vm sample_push)"
    "\<not> halted (vm (loaded_vm sample_push))"
    by (simp_all add: sample_handle_def loaded_defs)
  from run_status [OF this(1) reach.loaded [OF load_bare, of int_fpu False] this(2) run] run
  show ?thesis by (auto simp: kStatusOk_def)
qed

section \<open>Running in slices\<close>

definition result_machine :: "hazard + int \<times> handle option \<Rightarrow> hazard + int \<times> interp option" where
  "result_machine res = (case res of Inl h \<Rightarrow> Inl h
     | Inr (st, ho) \<Rightarrow> Inr (st, (case ho of None \<Rightarrow> None | Some h \<Rightarrow> h_vm h)))"

text \<open>
  C27: a run can be resumed. Suppose a run of \<open>a > 0\<close> steps returns a non-zero status while
  \<open>t81vm_trace_get\<close> shows no trap (\<open>-1\<close>) in the last trace entry. Then the bound was
  exhausted, and running \<open>b\<close> more steps gives the same status and the same machine as one run
  of \<open>a + b\<close> steps from the start.
\<close>

theorem run_in_slices:
  assumes "h_vm h = Some v" "reach F host p v" "\<not> halted (vm v)" "0 < a"
    and "t81vm_run_to_halt F (Some h) a = Inr (st, Some h1)" "st \<noteq> kStatusOk"
    and "t81vm_trace_get (Some h1) (t81vm_trace_len (Some h1) - 1) (Some out) = (kStatusOk, Some e)"
    and "cte_trap e = - 1"
  shows "result_machine (t81vm_run_to_halt F (Some h1) b) =
     result_machine (t81vm_run_to_halt F (Some h) (a + b))"
proof -
  from assms(1,5,6) obtain v1 t where run: "run_to_halt F a v = Inr (v1, Some t)"
    and h1: "h_vm h1 = Some v1"
    by (auto simp: t81vm_run_to_halt_def ebind_eq_Inr split: option.splits)
  from interpreter.run_trace [OF run assms(3)] assms(4) have "trace (vm v1) \<noteq> []" by auto
  then have "cte_trap e = (case te_trap (last (trace (vm v1))) of None \<Rightarrow> - 1 | Some t \<Rightarrow> trap_code t)"
    using assms(7) h1
    by (auto simp: t81vm_trace_get_def t81vm_trace_len_def handle_state_def last_conv_nth Let_def
        status_defs split: if_splits)
  with assms(8) have "te_trap (last (trace (vm v1))) = None"
    using trap_code_nonneg [of "the (te_trap (last (trace (vm v1))))"]
    by (cases "te_trap (last (trace (vm v1)))") simp_all
  from interpreter.run_resume [OF run assms(3,4) _ this] h1 assms(1) show ?thesis
    by (simp add: t81vm_run_to_halt_def result_machine_def ebind_def split: sum.splits option.splits)
qed

text \<open>A loop of three instructions, run for two steps and then for two more.\<close>

definition sample_slices :: "insn list" where
  "sample_slices = [mk_insn LoadImm 0 5 0, mk_insn Nop 0 0 0, mk_insn Halt 0 0 0]"

theorem run_in_slices_witness:
  "\<exists>h1. t81vm_run_to_halt int_fpu (Some (sample_handle sample_slices)) 2 = Inr (8, Some h1) \<and>
     result_machine (t81vm_run_to_halt int_fpu (Some h1) 2) =
       result_machine (t81vm_run_to_halt int_fpu (Some (sample_handle sample_slices)) (2 + 2))"
proof -
  let ?h = "sample_handle sample_slices"
  have "\<exists>h1 e. t81vm_run_to_halt int_fpu (Some ?h) 2 = Inr (8, Some h1) \<and>
      t81vm_trace_get (Some h1) (t81vm_trace_len (Some h1) - 1) (Some \<lparr>cte_pc = 0, cte_opcode = 0, cte_trap = 0\<rparr>) =
        (kStatusOk, Some e) \<and> cte_trap e = - 1"
    by (simp add: t81vm_run_to_halt_def sample_handle_def run_eval loaded_defs sample_slices_def
        trap_to_status_def t81vm_trace_get_def t81vm_trace_len_def handle_state_def)
  then obtain h1 e where run: "t81vm_run_to_halt int_fpu (Some ?h) 2 = Inr (8, Some h1)"
    and e: "t81vm_trace_get (Some h1) (t81vm_trace_len (Some h1) - 1)
        (Some \<lparr>cte_pc = 0, cte_opcode = 0, cte_trap = 0\<rparr>) = (kStatusOk, Some e)" "cte_trap e = - 1"
    by blast
  have h: "h_vm ?h = Some (loaded_vm sample_slices)" "\<not> halted (vm (loaded_vm sample_slices))"
    by (simp_all add: sample_handle_def loaded_defs)
  have "(0 :: nat) < 2" "(8 :: int) \<noteq> kStatusOk" by (simp_all add: kStatusOk_def)
  from run_in_slices [OF h(1) reach.loaded [OF load_bare, of int_fpu False] h(2) this(1) run this(2) e, of 2] run
  show ?thesis by blast
qed

section \<open>The ambiguous status\<close>

text \<open>Calling \<open>t81vm_step\<close> \<open>k\<close> times: the statuses, in order, and the handle at the end.\<close>

fun client_steps :: "'d fpu \<Rightarrow> nat \<Rightarrow> handle option \<Rightarrow> hazard + int list \<times> handle option" where
  "client_steps F 0 ho = Inr ([], ho)"
| "client_steps F (Suc k) ho =
     ebind (t81vm_step F ho) (\<lambda>(st, ho1).
     ebind (client_steps F k ho1) (\<lambda>(sts, ho2). Inr (st # sts, ho2)))"

definition past_end :: "program \<Rightarrow> interp \<Rightarrow> bool" where
  "past_end p v \<longleftrightarrow> \<not> halted (vm v) \<and> length (insns p) \<le> pc (vm v) \<and> prog v = p \<and>
     preload_trap v \<in> {None, Some DecodeFault}"

lemma past_end_step:
  "past_end p v \<Longrightarrow> \<exists>v1. step F v = Inr (v1, Some DecodeFault) \<and> past_end p v1"
  by (auto simp: past_end_def step_def raise_trap_eq)

lemma past_end_client_steps:
  assumes "h_vm h = Some v" "past_end p v"
  shows "\<exists>h'. client_steps F k (Some h) = Inr (replicate k kStatusHalted, Some h') \<and>
     t81vm_halted (Some h') = 0"
  using assms
proof (induction k arbitrary: h v)
  case 0
  then show ?case by (simp add: t81vm_halted_def handle_state_def past_end_def)
next
  case (Suc k)
  from past_end_step [OF Suc.prems(2)] obtain v1 where
    v1: "step F v = Inr (v1, Some DecodeFault)" "past_end p v1" by blast
  then have "\<exists>h1. t81vm_step F (Some h) = Inr (kStatusHalted, Some h1) \<and> h_vm h1 = Some v1"
    using Suc.prems(1) by (simp add: t81vm_step_def status_defs)
  then obtain h1 where h1: "t81vm_step F (Some h) = Inr (kStatusHalted, Some h1)" "h_vm h1 = Some v1"
    by blast
  from Suc.IH [OF h1(2) v1(2)] h1(1) show ?case by auto
qed

text \<open>
  C36: \<open>t81vm_step\<close> reports a decode fault as "halted". \<open>kStatusHalted\<close> and the code of
  \<open>DecodeFault\<close> are the same number: on a machine that has run past the end of its program
  without halting, any number of calls of \<open>t81vm_step\<close> all return \<open>kStatusHalted\<close>, and
  \<open>t81vm_halted\<close> reports after each number of them that the machine has not halted.
\<close>

theorem step_status_ambiguous:
  assumes "h_vm h = Some v" "reach F host p v" "\<not> halted (vm v)" "length (insns p) \<le> pc (vm v)"
  shows "\<forall>k. \<exists>h'. client_steps F k (Some h) = Inr (replicate k kStatusHalted, Some h') \<and>
     t81vm_halted (Some h') = 0"
proof -
  have "past_end p v"
    using assms(3,4) reach_control [OF assms(2)] reach_preload [OF assms(2)]
    by (simp add: past_end_def)
  from past_end_client_steps [OF assms(1) this] show ?thesis by blast
qed

text \<open>The program \<open>Nop\<close>, after its only instruction.\<close>

theorem step_status_ambiguous_witness:
  "\<exists>it h'. step int_fpu (loaded_vm [mk_insn Nop 0 0 0]) = Inr (it, None) \<and>
     client_steps int_fpu 1000 (Some \<lparr>h_vm = Some it, h_last_trap = 0\<rparr>) =
       Inr (replicate 1000 kStatusHalted, Some h') \<and>
     t81vm_halted (Some h') = 0"
proof -
  let ?h = "\<lambda>it. \<lparr>h_vm = Some it, h_last_trap = 0\<rparr> :: handle"
  have "\<exists>it. step int_fpu (loaded_vm [mk_insn Nop 0 0 0]) = Inr (it, None) \<and> \<not> halted (vm it) \<and>
      pc (vm it) = 1"
    by (simp add: run_eval loaded_defs)
  then obtain it where it: "step int_fpu (loaded_vm [mk_insn Nop 0 0 0]) = Inr (it, None)"
    "\<not> halted (vm it)" "pc (vm it) = 1" by blast
  have h: "h_vm (?h it) = Some it" "length (insns (bare_program [mk_insn Nop 0 0 0])) \<le> pc (vm it)"
    using it(3) by simp_all
  have r: "reach int_fpu False (bare_program [mk_insn Nop 0 0 0]) it"
    by (rule reach.stepped [OF reach.loaded [OF load_bare] it(1)])
  from step_status_ambiguous [OF h(1) r it(2) h(2)] it(1) show ?thesis by blast
qed

end
