(* ===== verification/Cli.thy ===== *)
theory Cli
  imports VM Program_IO Summary
begin

text \<open>
  The command line runner (\<open>src/vm/main.cpp\<close>): argument parsing, the run, and what goes
  to the two output streams and the exit status.
\<close>

section \<open>Trace output\<close>

definition trace_line :: "trace_entry \<Rightarrow> string" where
  "trace_line e =
     show_nat (te_pc e) @ '':'' @ show_nat (unat (opcode_byte (te_opcode e))) @
     (case (te_write_reg e, te_write_value e, te_write_tag e) of
        (Some r, Some v, Some t) \<Rightarrow>
          '':write=r'' @ show_nat r @ ''='' @ show_int (sint v) @ '':'' @ tag_to_string t
      | _ \<Rightarrow> []) @
     (case te_trap e of None \<Rightarrow> [] | Some t \<Rightarrow> '':trap='' @ trap_to_string t) @ [newline]"

definition print_trace :: "state \<Rightarrow> string" where
  "print_trace s = concat (map trace_line (trace s))"

section \<open>Canonical pass-through\<close>

text \<open>The loop over the input, with its flag, and the loop that drops trailing space.\<close>

fun passthrough_loop :: "bool \<Rightarrow> string \<Rightarrow> string \<Rightarrow> string" where
  "passthrough_loop seen out [] = out"
| "passthrough_loop seen out (ch # rest) =
     (if \<not> seen \<and> isspace ch then passthrough_loop seen out rest
      else passthrough_loop True (out @ [ch]) rest)"

function drop_trailing :: "string \<Rightarrow> string" where
  "drop_trailing out =
     (if out \<noteq> [] \<and> isspace (last out) then drop_trailing (butlast out) else out)"
  by pat_completeness auto
termination
  by (relation "measure length") auto

declare drop_trailing.simps [simp del]

definition canonical_passthrough :: "string \<Rightarrow> string" where
  "canonical_passthrough s = drop_trailing (passthrough_loop False [] s)"

section \<open>Arguments\<close>

record cli_options =
  emit_trace :: bool
  emit_snapshot :: bool
  max_steps :: nat
  mode :: string
  program_path :: string

definition default_options :: cli_options where
  "default_options = \<lparr>emit_trace = False, emit_snapshot = False, max_steps = default_max_steps,
     mode = ''interpreter'', program_path = []\<rparr>"

text \<open>\<open>None\<close>: the usage message and exit status 2.\<close>

fun parse_args :: "cli_options \<Rightarrow> string list \<Rightarrow> cli_options option" where
  "parse_args opts [] = Some opts"
| "parse_args opts (arg # rest) =
     (if arg = ''--trace'' then parse_args (opts\<lparr>emit_trace := True\<rparr>) rest
      else if arg = ''--snapshot'' then parse_args (opts\<lparr>emit_snapshot := True\<rparr>) rest
      else if arg = ''--max-steps'' then
        (case rest of [] \<Rightarrow> None
         | raw # rest1 \<Rightarrow> (case stoull raw of
             Inl h \<Rightarrow> None
           | Inr n \<Rightarrow> if n = 0 then None else parse_args (opts\<lparr>max_steps := unat n\<rparr>) rest1))
      else if arg = ''--mode'' then
        (case rest of [] \<Rightarrow> None
         | m # rest1 \<Rightarrow> if m \<noteq> ''interpreter'' \<and> m \<noteq> ''accelerated-preview'' then None
                        else parse_args (opts\<lparr>mode := m\<rparr>) rest1)
      else if arg \<noteq> [] \<and> hd arg = CHR ''-'' then None
      else if program_path opts \<noteq> [] then None
      else parse_args (opts\<lparr>program_path := arg\<rparr>) rest)"

section \<open>The program\<close>

record process_result =
  exit_code :: int
  std_out :: string
  std_err :: string

definition usage_text :: string where
  "usage_text =
     ''usage: t81vm [--trace] [--snapshot] [--max-steps N] [--mode interpreter|accelerated-preview] '' @
     ''<program.t81vm|program.tisc.json>'' @ [newline]"

definition usage_exit :: process_result where
  "usage_exit = \<lparr>exit_code = 2, std_out = [], std_err = usage_text\<rparr>"

definition mode_notice :: "string \<Rightarrow> string" where
  "mode_notice m = (if m = ''accelerated-preview''
     then ''MODE accelerated-preview (preview): using interpreter backend'' @ [newline] else [])"

text \<open>From the loaded file on: the run and its reports.\<close>

definition run_program :: "'d fpu \<Rightarrow> cli_options \<Rightarrow> program \<Rightarrow> hazard + process_result" where
  "run_program F opts p =
     ebind (load_program p make_interpreter_vm) (\<lambda>v.
     ebind (run_to_halt F (max_steps opts) v) (\<lambda>(v1, res).
       let out = (if emit_trace opts then print_trace (vm v1) else []) @
                 (if emit_snapshot opts then snapshot_summary (vm v1) else []);
           line = trap_payload_summary_line (vm v1)
       in Inr (case res of
            Some t \<Rightarrow> \<lparr>exit_code = 1, std_out = out, std_err = mode_notice (mode opts) @
                ''FAULT '' @ trap_to_string t @ [newline] @
                (if line = [] then [] else line @ [newline])\<rparr>
          | None \<Rightarrow> \<lparr>exit_code = 0, std_out = out, std_err = mode_notice (mode opts)\<rparr>)))"

definition run_options :: "'d fpu \<Rightarrow> file_system \<Rightarrow> cli_options \<Rightarrow> hazard + process_result" where
  "run_options F fs opts0 =
     (if program_path opts0 = [] then Inr usage_exit
      else let opts = (if \<not> emit_trace opts0 \<and> \<not> emit_snapshot opts0 then opts0\<lparr>emit_trace := True\<rparr> else opts0)
       in ebind (load_program_from_file fs (program_path opts)) (\<lambda>loaded.
            if \<not> plr_ok loaded
            then Inr \<lparr>exit_code = 1, std_out = [],
                      std_err = ''FAULT ParseError: '' @ plr_error loaded @ [newline]\<rparr>
            else run_program F opts (plr_program loaded)))"

text \<open>\<open>args\<close> is \<open>argv\<close> without the program name.\<close>

definition main :: "'d fpu \<Rightarrow> file_system \<Rightarrow> string list \<Rightarrow> hazard + process_result" where
  "main F fs args =
     (if args = [] then Inr usage_exit
      else if length args = 2 \<and>
        args ! 0 \<in> set [''--canonical-bigint'', ''--canonical-fraction'', ''--canonical-tensor'']
      then Inr \<lparr>exit_code = 0, std_out = canonical_passthrough (args ! 1) @ [newline],
                std_err = []\<rparr>
      else case parse_args default_options args of
          None \<Rightarrow> Inr usage_exit
        | Some opts0 \<Rightarrow> run_options F fs opts0)"

end
