(* ===== verification/Text_Facts.thy ===== *)
theory Text_Facts
  imports Program_IO Validator
begin

text \<open>
  Reading program text: trimming, printing and scanning of numbers, opcode names, and the
  opcodes a loaded program can hold.
\<close>

section \<open>Trimming\<close>

lemma dropWhile_id: "s = [] \<or> \<not> P (hd s) \<Longrightarrow> dropWhile P s = s"
  by (cases s) auto

lemma trim_id: "s = [] \<or> \<not> isspace (hd s) \<and> \<not> isspace (last s) \<Longrightarrow> trim s = s"
  by (cases "s = []") (simp_all add: trim_def dropWhile_id hd_rev)

lemma trim_ends: "trim s = [] \<or> \<not> isspace (hd (trim s)) \<and> \<not> isspace (last (trim s))"
proof -
  let ?d = "dropWhile isspace s" and ?t = "trim s"
  have split: "?d = ?t @ rev (takeWhile isspace (rev ?d))"
    by (metis rev_append rev_rev_ident takeWhile_dropWhile_id trim_def)
  have "\<not> isspace (last ?t)" if "?t \<noteq> []"
    using that hd_dropWhile [of isspace "rev ?d"] by (simp add: trim_def last_rev)
  moreover have "\<not> isspace (hd ?t)" if "?t \<noteq> []"
  proof -
    from that split have "hd ?d = hd ?t" "?d \<noteq> []"
      by (metis hd_append2, metis append_is_Nil_conv)
    with hd_dropWhile [of isspace s] show ?thesis by simp
  qed
  ultimately show ?thesis by blast
qed

lemma trim_trim: "trim (trim s) = trim s"
  using trim_ends by (rule trim_id)

section \<open>Numbers\<close>

lemma digit_char_code: "d < 10 \<Longrightarrow> code (digit_char d) = 48 + d"
  by (simp add: digit_char_def)

lemma digit_char_digit [simp]: "d < 10 \<Longrightarrow> isdigit (digit_char d)"
  by (simp add: isdigit_def digit_char_code)

lemma show_nat_digits: "list_all isdigit (show_nat n) \<and> show_nat n \<noteq> []"
proof (induction n rule: show_nat.induct)
  case (1 n)
  then show ?case by (subst (1 2) show_nat.simps) simp
qed

lemma digits_value_append: "digits_value v (s @ t) = digits_value (digits_value v s) t"
  by (induction s arbitrary: v) simp_all

lemma digits_value_show: "digits_value 0 (show_nat n) = n"
proof (induction n rule: show_nat.induct)
  case (1 n)
  then show ?case
    by (subst show_nat.simps) (simp add: digits_value_append digit_char_code)
qed

lemma isdigit_not_space: "isdigit c \<Longrightarrow> \<not> isspace c"
  by (auto simp: isdigit_def isspace_def)

lemma takeWhile_all: "list_all P s \<Longrightarrow> u = [] \<or> \<not> P (hd u) \<Longrightarrow> takeWhile P (s @ u) = s \<and> dropWhile P (s @ u) = u"
  by (induction s) (cases u; simp)+

lemma show_int_first: "show_int z \<noteq> [] \<and> \<not> isspace (hd (show_int z))"
proof -
  have "isdigit (hd (show_nat n))" for n
    using show_nat_digits [of n] by (cases "show_nat n") auto
  then show ?thesis
    using show_nat_digits by (auto simp: show_int_def isdigit_not_space) (simp add: isspace_def)
qed

text \<open>Scanning a printed number behind white space, up to a character that is no digit.\<close>

lemma scan_show_int:
  assumes "list_all isspace w" "u = [] \<or> \<not> isdigit (hd u)"
  shows "scan_int (w @ show_int z @ u) = (z < 0, show_nat (nat \<bar>z\<bar>), u)"
proof -
  have "dropWhile isspace (w @ show_int z @ u) = show_int z @ u"
    using assms(1) show_int_first [of z] takeWhile_all [of isspace w "show_int z @ u"] by simp
  moreover have "take_sign (show_int z @ u) = (z < 0, show_nat (nat \<bar>z\<bar>) @ u)"
  proof (cases "z < 0")
    case True
    then show ?thesis by (simp add: take_sign_def show_int_def)
  next
    case False
    obtain c cs where s: "show_nat (nat z) = c # cs" "isdigit c"
      using show_nat_digits [of "nat z"] by (cases "show_nat (nat z)") auto
    then have "c \<noteq> CHR ''-''" "c \<noteq> CHR ''+''" by (auto simp: isdigit_def)
    with False s show ?thesis by (simp add: take_sign_def show_int_def)
  qed
  ultimately show ?thesis
    using takeWhile_all [of isdigit "show_nat (nat \<bar>z\<bar>)" u] assms(2) show_nat_digits [of "nat \<bar>z\<bar>"]
    by (simp add: scan_int_def)
qed

lemma signed_value_show: "signed_value (z < 0) (show_nat (nat \<bar>z\<bar>)) = z"
  by (simp add: signed_value_def digits_value_show)

lemma extract_show_int:
  assumes "list_all isspace w" "u = [] \<or> \<not> isdigit (hd u)"
  shows "extract_i64 (w @ show_int (sint (x :: i64)) @ u, False) v0 = (x, u, False)"
  using show_nat_digits
  by (simp add: extract_i64_def scan_show_int [OF assms] signed_value_show)

lemma newline_char: "newline = CHR 0x0A"
  by (simp add: newline_def char_of_eq_iff)

section \<open>Opcode names\<close>

definition plain_name :: "string \<Rightarrow> bool" where
  "plain_name n \<longleftrightarrow> n \<noteq> [] \<and> hd n \<noteq> CHR ''#'' \<and> list_all (\<lambda>c. \<not> isspace c) n \<and> n \<noteq> ''POLICY'' \<and>
     normalize_name n = n"

lemma table_names: "list_all (\<lambda>e. plain_name (fst e)) opcode_table"
  by (simp add: opcode_table_def plain_name_def isspace_def normalize_name_def toupper_def)

lemma table_distinct: "distinct (map fst opcode_table)"
  by (simp add: opcode_table_def)

lemma table_opcodes: "set (map snd opcode_table) = set enumerators"
  by (simp add: opcode_table_def enumerators_def insert_commute)

definition opcode_name :: "opcode \<Rightarrow> string" where
  "opcode_name oc = (case find (\<lambda>e. snd e = oc) opcode_table of None \<Rightarrow> [] | Some e \<Rightarrow> fst e)"

lemma opcode_name_in_table:
  assumes "oc \<in> set enumerators"
  shows "(opcode_name oc, oc) \<in> set opcode_table"
proof -
  from assms table_opcodes obtain n where "(n, oc) \<in> set opcode_table" by force
  then obtain e where e: "find (\<lambda>e. snd e = oc) opcode_table = Some e"
    by (cases "find (\<lambda>e. snd e = oc) opcode_table") (auto simp: find_None_iff)
  then have "e \<in> set opcode_table" "snd e = oc" by (auto simp: find_Some_iff)
  with e show ?thesis by (cases e) (simp add: opcode_name_def)
qed

lemma opcode_name_plain: "oc \<in> set enumerators \<Longrightarrow> plain_name (opcode_name oc)"
  using table_names opcode_name_in_table by (fastforce simp: list_all_iff)

lemma opcode_from_name: "oc \<in> set enumerators \<Longrightarrow> opcode_from_string (opcode_name oc) = Some oc"
  using opcode_name_plain [of oc] map_of_is_SomeI [OF table_distinct opcode_name_in_table]
  by (simp add: opcode_from_string_def plain_name_def)

lemma opcode_from_string_range:
  assumes "opcode_from_string raw = Some oc"
  shows "oc \<in> set enumerators"
proof -
  from assms have "(normalize_name raw, oc) \<in> set opcode_table"
    by (simp add: opcode_from_string_def map_of_SomeD)
  then have "oc \<in> snd ` set opcode_table" by force
  then show ?thesis using table_opcodes by (metis set_map)
qed

lemma toupper_code: "97 \<le> code c \<Longrightarrow> code c \<le> 122 \<Longrightarrow> code (toupper c) = code c - 32"
  by (simp add: toupper_def)

lemma toupper_toupper [simp]: "toupper (toupper c) = toupper c"
proof (cases "97 \<le> code c \<and> code c \<le> 122")
  case True
  then have "\<not> 97 \<le> code (toupper c)" using toupper_code [of c] by linarith
  then show ?thesis by (simp add: toupper_def)
qed (auto simp: toupper_def)

lemma toupper_mark:
  assumes "code m < 65 \<or> 90 < code m \<and> code m < 97"
  shows "toupper c = m \<longleftrightarrow> c = m"
proof (cases "97 \<le> code c \<and> code c \<le> 122")
  case True
  then have "65 \<le> code (toupper c) \<and> code (toupper c) \<le> 90" using toupper_code [of c] by linarith
  with assms True show ?thesis by auto
qed (auto simp: toupper_def)

lemma normalize_toupper: "normalize_name (map toupper raw) = normalize_name raw"
  by (induction raw) (simp_all add: normalize_name_def toupper_mark)

text \<open>
  Opcode names. The names the loaders accept are exactly the names of the 81 opcodes:
  every opcode has one and no other opcode is ever produced; letter case, underscores and
  hyphens do not matter.
\<close>

lemma opcode_names:
  "((\<exists>name. opcode_from_string name = Some oc) \<longleftrightarrow> oc \<in> set enumerators) \<and>
   opcode_from_string (map toupper raw) = opcode_from_string raw \<and>
   opcode_from_string (u @ CHR ''_'' # w) = opcode_from_string (u @ w) \<and>
   opcode_from_string (u @ CHR ''-'' # w) = opcode_from_string (u @ w)"
proof (intro conjI)
  show "(\<exists>name. opcode_from_string name = Some oc) \<longleftrightarrow> oc \<in> set enumerators"
    using opcode_from_string_range opcode_from_name by blast
  show "opcode_from_string (map toupper raw) = opcode_from_string raw"
    by (simp add: opcode_from_string_def normalize_toupper)
qed (simp_all add: opcode_from_string_def normalize_name_def)

section \<open>Programs from files\<close>

definition enumerated :: "program \<Rightarrow> bool" where
  "enumerated p \<longleftrightarrow> (\<forall>i\<in>set (insns p). opcode_of i \<in> set enumerators)"

lemma enumerated_push:
  "enumerated (plr_program out) \<Longrightarrow> opcode_of i \<in> set enumerators \<Longrightarrow>
     enumerated (plr_program (push_insn i out))"
  by (auto simp: enumerated_def push_insn_def)

lemma enumerated_simps [simp]:
  "enumerated (plr_program (put_policy txt out)) = enumerated (plr_program out)"
  "enumerated (plr_program (fail_with msg out)) = enumerated (plr_program out)"
  "enumerated (plr_program (new_result f))"
  by (simp_all add: enumerated_def put_policy_def fail_with_def new_result_def)

lemma load_lines_enumerated:
  "enumerated (plr_program out) \<Longrightarrow> enumerated (plr_program (load_lines out ls))"
proof (induction ls arbitrary: out)
  case (Cons line rest)
  then show ?case
    by (auto simp: Let_def split: prod.splits option.splits
        intro!: Cons.IH enumerated_push opcode_from_string_range)
qed simp

lemma parse_insn_object_enumerated:
  "parse_insn_object obj = Inr (Inr i) \<Longrightarrow> opcode_of i \<in> set enumerators"
  by (auto simp: parse_insn_object_def Let_def ebind_eq_Inr split: option.splits)
    (erule opcode_from_string_range)

lemma load_objects_enumerated:
  "enumerated (plr_program out) \<Longrightarrow> load_objects out s = Inr (out', b) \<Longrightarrow> enumerated (plr_program out')"
proof (induction out s arbitrary: out' b rule: load_objects.induct)
  case (1 out s)
  show ?case
  proof (cases "find_char (CHR ''{'') s")
    case None
    with "1.prems" show ?thesis by (simp add: load_objects.simps [of out s])
  next
    case (Some ob)
    show ?thesis
    proof (cases "close_index (CHR ''{'') (CHR ''}'') 0 (drop ob s)")
      case None
      with Some "1.prems" show ?thesis by (auto simp: load_objects.simps [of out s])
    next
      case cb: (Some cb)
      let ?r = "parse_insn_object (take (cb + 1) (drop ob s))"
      have step: "load_objects out s = (case ?r of Inl h \<Rightarrow> Inl h
          | Inr (Inl msg) \<Rightarrow> Inr (fail_with msg out, False)
          | Inr (Inr i) \<Rightarrow> load_objects (push_insn i out) (drop (cb + 1) (drop ob s)))"
        by (subst load_objects.simps) (simp add: Some cb Let_def)
      consider (hazard) h where "?r = Inl h" | (msg) m where "?r = Inr (Inl m)" | (insn) i where "?r = Inr (Inr i)"
        by (metis sum.exhaust)
      then show ?thesis
      proof cases
        case insn
        with "1.prems" (2) step
        have "load_objects (push_insn i out) (drop (cb + 1) (drop ob s)) = Inr (out', b)" by simp
        with "1.IH" [OF Some refl cb insn refl] enumerated_push [OF "1.prems" (1)]
          parse_insn_object_enumerated [OF insn]
        show ?thesis by blast
      qed (use "1.prems" step in auto)
    qed
  qed
qed

lemma load_tisc_json_enumerated:
  assumes "load_tisc_json_v1 s = Inr res"
  shows "enumerated (plr_program res)"
proof -
  define out where "out = (case parse_string_field s ''axion_policy_text'' of
      None \<Rightarrow> new_result TiscJsonV1 | Some txt \<Rightarrow> put_policy txt (new_result TiscJsonV1))"
  have out: "enumerated (plr_program out)" by (simp add: out_def split: option.split)
  note load = assms [unfolded load_tisc_json_v1_def Let_def out_def [symmetric]]
  show ?thesis
  proof (cases "find_sub ([dquote] @ ''insns'' @ [dquote]) s")
    case None
    with load out show ?thesis by auto
  next
    case pos: (Some pos)
    show ?thesis
    proof (cases "find_char (CHR ''['') (drop pos s)")
      case None
      with load pos out show ?thesis by auto
    next
      case off: (Some off)
      show ?thesis
      proof (cases "close_index (CHR ''['') (CHR '']'') 0 (drop (pos + off) s)")
        case None
        with load pos off out show ?thesis by auto
      next
        case (Some rb)
        with load pos off obtain out1 complete where
          "load_objects out (take (rb - 1) (drop 1 (drop (pos + off) s))) = Inr (out1, complete)"
          and res: "(if \<not> complete then (Inr out1 :: hazard + program_load_result)
              else if insns (plr_program out1) = [] then Inr (fail_with ''insns array is empty'' out1)
              else Inr (out1\<lparr>plr_ok := True\<rparr>)) = Inr res"
          by (auto simp: ebind_eq_Inr)
        from load_objects_enumerated [OF out this(1)] res show ?thesis
          by (auto split: if_splits)
      qed
    qed
  qed
qed

text \<open>
  C28: files hold no illegal opcodes. Whatever a file contains, the program that
  \<open>load_program_from_file\<close> returns, complete or not, has only enumerated opcodes; so the
  validator's opcode check never rejects a program read from a file.
\<close>

theorem file_opcodes_are_valid:
  assumes "load_program_from_file fs path = Inr res"
  shows "\<forall>i\<in>set (insns (plr_program res)). valid_opcode (opcode_of i)"
proof -
  have "enumerated (plr_program res)"
    using assms load_tisc_json_enumerated
    by (auto simp: load_program_from_file_def load_text_v1_def load_lines_enumerated
        split: option.splits if_splits)
  then show ?thesis by (simp add: enumerated_def valid_opcode_iff)
qed

definition sample_files :: file_system where
  "sample_files = [''p.t81'' \<mapsto> ''PUSH 7'' @ [newline] @ ''HALT'']"

lemma load_sample_file:
  "load_program_from_file sample_files ''p.t81'' = Inr
     \<lparr>plr_ok = True, plr_format = TextV1, plr_program = \<lparr>insns = [mk_insn Push 7 0 0, mk_insn Halt 0 0 0],
        axion_policy_text = []\<rparr>, plr_error = []\<rparr>"
proof -
  have lines: "getlines (''PUSH 7'' @ [newline] @ ''HALT'') = [''PUSH 7'', ''HALT'']"
    by (simp add: getlines.simps newline_char)
  have trims: "trim ''PUSH 7'' = ''PUSH 7'' \<and> trim ''HALT'' = ''HALT''"
    by (simp add: trim_def isspace_def)
  have words: "extract_word ''PUSH 7'' = (''PUSH'', '' 7'') \<and> extract_word ''HALT'' = (''HALT'', [])"
    by (simp add: extract_word_def isspace_def)
  have names: "opcode_from_string ''PUSH'' = Some Push \<and> opcode_from_string ''HALT'' = Some Halt"
    by (simp add: opcode_from_string_def normalize_name_def toupper_def opcode_table_def)
  have operands: "extract_operands '' 7'' = (7, 0, 0) \<and> extract_operands [] = (0, 0, 0)"
    by (simp add: extract_operands_def extract_i64_def scan_int_def take_sign_def isdigit_def
        isspace_def signed_value_def int64_fits_def Let_def)
  show ?thesis
    using lines trims words names operands
    by (simp add: load_program_from_file_def sample_files_def looks_like_json_path_def load_text_v1_def
        push_insn_def new_result_def)
qed

lemma file_opcodes_are_valid_witness:
  "\<exists>res. load_program_from_file sample_files ''p.t81'' = Inr res \<and>
     (\<forall>i\<in>set (insns (plr_program res)). valid_opcode (opcode_of i))"
  using file_opcodes_are_valid [OF load_sample_file] load_sample_file by blast

end
