(* ===== verification/Text_Format.thy ===== *)
theory Text_Format
  imports Text_Facts
begin

text \<open>
  The line format \<open>Text V1\<close> can express every program: a printer for it, and the proof that
  \<open>load_text_v1\<close> reads back what it prints.
\<close>

section \<open>The printer\<close>

definition print_insn :: "insn \<Rightarrow> string" where
  "print_insn i = opcode_name (opcode_of i) @ '' '' @ show_int (sint (arg_a i)) @
     '' '' @ show_int (sint (arg_b i)) @ '' '' @ show_int (sint (arg_c i))"

definition program_lines :: "program \<Rightarrow> string list" where
  "program_lines p =
     (if axion_policy_text p = [] then [] else [''POLICY '' @ axion_policy_text p]) @
     map print_insn (insns p)"

definition print_text :: "program \<Rightarrow> string" where
  "print_text p = concat (map (\<lambda>l. l @ [newline]) (program_lines p))"

text \<open>A policy text that fits on a line.\<close>

definition line_policy :: "string \<Rightarrow> bool" where
  "line_policy pol \<longleftrightarrow> trim pol = pol \<and> newline \<notin> set pol"

section \<open>Lines\<close>

lemma insn_eta [simp]: "mk_insn (opcode_of i) (arg_a i) (arg_b i) (arg_c i) = i"
  by (cases i) simp

lemma getlines_line: "newline \<notin> set l \<Longrightarrow> getlines (l @ newline # r) = l # getlines r"
  by (subst getlines.simps) (simp add: takeWhile_append2 dropWhile_append2 takeWhile_tail dropWhile_append)

lemma getlines_concat:
  "\<forall>l\<in>set ls. newline \<notin> set l \<Longrightarrow> getlines (concat (map (\<lambda>l. l @ [newline]) ls)) = ls"
  by (induction ls) (simp add: getlines.simps, simp add: getlines_line)

lemma newline_space: "isspace newline"
  by (simp add: isspace_def newline_def)

lemma show_int_chars: "list_all (\<lambda>c. \<not> isspace c) (show_int z) \<and> show_int z \<noteq> []"
proof -
  have "list_all (\<lambda>c. \<not> isspace c) (show_nat n)" for n
    using show_nat_digits [of n] by (auto simp: list_all_iff isdigit_not_space)
  then show ?thesis using show_nat_digits by (simp add: show_int_def) (simp add: isspace_def)
qed

lemma newline_not_in: "list_all (\<lambda>c. \<not> isspace c) s \<Longrightarrow> newline \<notin> set s"
  using newline_space by (auto simp: list_all_iff)

lemma extract_printed_operands:
  "extract_operands ('' '' @ show_int (sint (a :: i64)) @ '' '' @ show_int (sint (b :: i64)) @ '' '' @
     show_int (sint (c :: i64))) = (a, b, c)"
proof -
  have sp: "list_all isspace '' ''" by (simp add: isspace_def)
  have nd: "\<not> isdigit (CHR '' '')" by (simp add: isdigit_def)
  show ?thesis
    using extract_show_int [OF sp, of "'' '' @ show_int (sint b) @ '' '' @ show_int (sint c)" a 0]
      extract_show_int [OF sp, of "'' '' @ show_int (sint c)" b 0] extract_show_int [OF sp, of "[]" c 0]
    by (simp add: extract_operands_def nd del: append.simps)
qed

section \<open>One line\<close>

lemma word_at_space:
  assumes "list_all (\<lambda>c. \<not> isspace c) w" "w \<noteq> []" "isspace x"
  shows "extract_word (w @ x # r) = (w, x # r)"
proof -
  from assms have "dropWhile isspace (w @ x # r) = w @ x # r" by (cases w) simp_all
  with takeWhile_all [OF assms(1), of "x # r"] assms(3) show ?thesis
    by (simp add: extract_word_def)
qed

lemma print_insn_text:
  assumes "opcode_of i \<in> set enumerators"
  shows "trim (print_insn i) = print_insn i \<and> print_insn i \<noteq> [] \<and> hd (print_insn i) \<noteq> CHR ''#'' \<and>
     newline \<notin> set (print_insn i)"
proof -
  let ?n = "opcode_name (opcode_of i)" and ?c = "show_int (sint (arg_c i))"
  have n: "?n \<noteq> []" "hd ?n \<noteq> CHR ''#''" "list_all (\<lambda>c. \<not> isspace c) ?n"
    using opcode_name_plain [OF assms] by (simp_all add: plain_name_def)
  then have ends: "print_insn i \<noteq> []" "hd (print_insn i) = hd ?n" "last (print_insn i) = last ?c"
    using show_int_chars [of "sint (arg_c i)"] by (simp_all add: print_insn_def)
  have "\<not> isspace (hd ?n)" "\<not> isspace (last ?c)"
    using n show_int_chars [of "sint (arg_c i)"] by (simp_all add: list_all_iff)
  with ends have "trim (print_insn i) = print_insn i" by (intro trim_id) simp
  moreover have "newline \<notin> set (print_insn i)"
    using newline_not_in [OF n(3)] newline_not_in [OF conjunct1 [OF show_int_chars]]
    by (simp add: print_insn_def newline_char)
  ultimately show ?thesis using ends n by simp
qed

lemma load_printed_insn:
  assumes "opcode_of i \<in> set enumerators"
  shows "load_lines out (print_insn i # rest) = load_lines (push_insn i out) rest"
proof -
  let ?n = "opcode_name (opcode_of i)"
  have n: "?n \<noteq> []" "list_all (\<lambda>c. \<not> isspace c) ?n" "?n \<noteq> ''POLICY''"
    using opcode_name_plain [OF assms] by (simp_all add: plain_name_def)
  have word: "extract_word (print_insn i) = (?n, '' '' @ show_int (sint (arg_a i)) @
     '' '' @ show_int (sint (arg_b i)) @ '' '' @ show_int (sint (arg_c i)))"
    unfolding print_insn_def using word_at_space [OF n(2,1), of "CHR '' ''"] by (simp add: isspace_def)
  show ?thesis
    using print_insn_text [OF assms] n(3) opcode_from_name [OF assms]
    by (simp add: Let_def word extract_printed_operands del: append.simps append_Cons)
qed

lemma load_printed_insns:
  "\<forall>i\<in>set is. opcode_of i \<in> set enumerators \<Longrightarrow>
     load_lines out (map print_insn is) =
       out\<lparr>plr_ok := True, plr_program := (plr_program out)\<lparr>insns := insns (plr_program out) @ is\<rparr>\<rparr>"
proof (induction "is" arbitrary: out)
  case (Cons i "is")
  then show ?case
    by (simp only: list.map load_printed_insn list.set_intros ball_simps) (simp add: push_insn_def)
qed simp

lemma load_printed_policy:
  assumes "line_policy pol" "pol \<noteq> []"
  shows "load_lines out ((''POLICY '' @ pol) # rest) = load_lines (put_policy pol out) rest"
proof -
  have pol: "trim pol = pol" using assms(1) by (simp add: line_policy_def)
  have "\<not> isspace (last pol)" using trim_ends [of pol] assms(2) by (simp add: pol)
  then have "trim (''POLICY '' @ pol) = ''POLICY '' @ pol"
    using assms(2) by (intro trim_id) (simp add: isspace_def)
  moreover have "extract_word (''POLICY '' @ pol) = (''POLICY'', '' '' @ pol)"
    using word_at_space [of "''POLICY''" "CHR '' ''" pol] by (simp add: isspace_def)
  moreover have "trim ('' '' @ pol) = pol"
    using pol by (simp add: trim_def isspace_def)
  ultimately show ?thesis by simp
qed

section \<open>Round trip\<close>

text \<open>
  C22: the line format round trip. Every program whose opcodes are enumerated and whose
  policy text fits on a line can be written as \<open>Text V1\<close>, with all 64-bit operands in
  decimal, and \<open>load_text_v1\<close> reads exactly that program back, without an error. So the format
  carries every enumerated opcode; \<open>SPEC.md\<close> 3A.1 lists eight as supported (\<open>NOP\<close>, \<open>HALT\<close>,
  \<open>LOADIMM\<close>, \<open>LOAD\<close>, \<open>STORE\<close>, \<open>DIV\<close>, \<open>MOD\<close>, \<open>JUMP\<close>), and the loader does not refuse the others.
\<close>

theorem text_round_trip:
  assumes "\<forall>i\<in>set (insns p). valid_opcode (opcode_of i)" "line_policy (axion_policy_text p)"
  shows "load_text_v1 (print_text p) =
     \<lparr>plr_ok = True, plr_format = TextV1, plr_program = p, plr_error = []\<rparr>"
proof -
  have enum: "\<forall>i\<in>set (insns p). opcode_of i \<in> set enumerators"
    using assms(1) by (simp add: valid_opcode_iff)
  have "\<forall>l\<in>set (program_lines p). newline \<notin> set l"
    using assms(2) enum print_insn_text by (auto simp: program_lines_def line_policy_def newline_char)
  then have lines: "getlines (print_text p) = program_lines p"
    unfolding print_text_def by (rule getlines_concat)
  show ?thesis
  proof (cases "axion_policy_text p = []")
    case True
    then show ?thesis
      by (simp add: load_text_v1_def lines program_lines_def load_printed_insns [OF enum] new_result_def)
  next
    case False
    then show ?thesis
      by (simp add: load_text_v1_def lines program_lines_def load_printed_policy [OF assms(2), simplified]
          load_printed_insns [OF enum] new_result_def put_policy_def)
  qed
qed

definition sample_text_program :: program where
  "sample_text_program = \<lparr>insns = [mk_insn LoadImm 0 (- 5) 0, mk_insn Halt 0 0 0],
     axion_policy_text = ''(tier 1)''\<rparr>"

lemma text_round_trip_witness:
  "plr_program (load_text_v1 (print_text sample_text_program)) = sample_text_program"
proof -
  have "\<forall>i\<in>set (insns sample_text_program). valid_opcode (opcode_of i)"
    "line_policy (axion_policy_text sample_text_program)"
    by (simp_all add: sample_text_program_def valid_opcode_def line_policy_def trim_def isspace_def
        newline_char)
  from text_round_trip [OF this] show ?thesis by simp
qed

end
