(* ===== verification/Json_Format.thy ===== *)
theory Json_Format
  imports Text_Facts
begin

text \<open>
  The object format \<open>TISC JSON V1\<close> can express every program: a printer for it, and the proof
  that \<open>load_tisc_json_v1\<close>, with its regular expressions and bracket matching, reads back what
  it prints.
\<close>

section \<open>The printer\<close>

definition quoted :: "string \<Rightarrow> string" where
  "quoted s = dquote # s @ [dquote]"

definition json_insn :: "insn \<Rightarrow> string" where
  "json_insn i = CHR ''{'' # quoted ''opcode'' @ '':'' @ quoted (opcode_name (opcode_of i)) @
     '','' @ quoted ''a'' @ '':'' @ show_int (sint (arg_a i)) @
     '','' @ quoted ''b'' @ '':'' @ show_int (sint (arg_b i)) @
     '','' @ quoted ''c'' @ '':'' @ show_int (sint (arg_c i)) @ ''}''"

definition json_body :: "insn list \<Rightarrow> string" where
  "json_body is = concat (map (\<lambda>i. json_insn i @ '','') (butlast is)) @ json_insn (last is)"

definition print_json :: "program \<Rightarrow> string" where
  "print_json p = CHR ''{'' # quoted ''insns'' @ '':['' @ json_body (insns p) @ ''],'' @
     quoted ''axion_policy_text'' @ '':'' @ quoted (axion_policy_text p) @ ''}''"

section \<open>Matching\<close>

text \<open>A literal prefix, and a greedy class that takes a whole run of its characters.\<close>

lemma re_literal: "re_match (map RChar pat @ is) (pat @ s) None r = re_match is s None r"
  by (induction pat) (simp_all add: feed_def)

lemma re_star_run:
  assumes "list_all p u" "s = [] \<or> \<not> p (hd s)"
    and "re_match is s (map_option (\<lambda>cap. cap @ u) g) r = Some res"
  shows "re_match (RStar p # is) (u @ s) g r = Some res"
  using assms
proof (induction u arbitrary: g)
  case Nil
  then show ?case by (cases s; cases g) simp_all
next
  case (Cons c u)
  have "map_option (\<lambda>cap. cap @ u) (feed g c) = map_option (\<lambda>cap. cap @ c # u) g"
    by (cases g) (simp_all add: feed_def)
  with Cons.IH [of "feed g c"] Cons.prems show ?case by simp
qed

lemma re_no_space: "s \<noteq> [] \<Longrightarrow> \<not> isspace (hd s) \<Longrightarrow> re_match is s g r = Some res \<Longrightarrow>
    re_match (RStar isspace # is) s g r = Some res"
  by (cases s) simp_all

lemma isspace_marks: "\<not> isspace (CHR '':'')" "\<not> isspace dquote" "\<not> isdigit (CHR '','')" "\<not> isdigit (CHR ''}'')"
  by (simp_all add: isspace_def isdigit_def)

text \<open>The string field at the start of a text.\<close>

lemma string_field_here:
  assumes "dquote \<notin> set v"
  shows "re_match (string_field_re key) (quoted key @ '':'' @ quoted v @ s) None [] = Some v"
proof -
  have "re_match [REnd, RChar dquote] (dquote # s) (Some v) [] = Some v" by (simp add: feed_def)
  then have "re_match (RStar (\<lambda>c. c \<noteq> dquote) # [REnd, RChar dquote]) (v @ dquote # s) (Some []) [] = Some v"
    using assms by (intro re_star_run) (auto simp: list_all_iff)
  then have "re_match (RStar isspace # RChar (CHR '':'') # RStar isspace # RChar dquote # RBeg #
      RStar (\<lambda>c. c \<noteq> dquote) # [REnd, RChar dquote]) ('':'' @ quoted v @ s) None [] = Some v"
    by (simp add: quoted_def isspace_marks feed_def)
  with re_literal [of "quoted key"] show ?thesis
    by (simp add: string_field_re_def quoted_def)
qed

text \<open>The integer field at the start of a text.\<close>

lemma int_field_here:
  assumes "s = [] \<or> \<not> isdigit (hd s)"
  shows "re_match (int_field_re key) (quoted key @ '':'' @ show_int z @ s) None [] = Some (show_int z)"
proof -
  have run: "re_match [RPlus isdigit, REnd] (show_nat n @ s) (Some cap) [] = Some (cap @ show_nat n)" for n cap
  proof -
    obtain c cs where n: "show_nat n = c # cs" "isdigit c" "list_all isdigit cs"
      using show_nat_digits [of n] by (cases "show_nat n") auto
    have "re_match [RStar isdigit, REnd] (cs @ s) (Some (cap @ [c])) [] = Some (cap @ c # cs)"
      by (rule re_star_run) (use n(3) assms in simp_all)
    with n show ?thesis by (simp add: feed_def)
  qed
  have "re_match [RBeg, ROpt (CHR ''-''), RPlus isdigit, REnd] (show_int z @ s) None [] = Some (show_int z)"
  proof (cases "z < 0")
    case True
    with run [of "nat (- z)" "''-''"] show ?thesis by (simp add: show_int_def feed_def)
  next
    case False
    obtain c cs where n: "show_nat (nat z) = c # cs" "isdigit c"
      using show_nat_digits [of "nat z"] by (cases "show_nat (nat z)") auto
    then have "c \<noteq> CHR ''-''" by (auto simp: isdigit_def)
    with False n run [of "nat z" "[]"] show ?thesis by (simp add: show_int_def)
  qed
  then have "re_match (RStar isspace # RChar (CHR '':'') # RStar isspace #
      [RBeg, ROpt (CHR ''-''), RPlus isdigit, REnd]) ('':'' @ show_int z @ s) None [] = Some (show_int z)"
    using show_int_first [of z] by (simp add: isspace_marks feed_def re_no_space)
  with re_literal [of "quoted key"] show ?thesis
    by (simp add: int_field_re_def quoted_def)
qed

section \<open>Searching\<close>

lemma re_literal_fail: "take (length pat) s \<noteq> pat \<Longrightarrow> re_match (map RChar pat @ is) s g r = None"
proof (induction pat arbitrary: s g)
  case (Cons c pat)
  then show ?case by (cases s) simp_all
qed simp

lemma search_here: "re_match R s None [] = Some v \<Longrightarrow> re_search R s = Some v"
  by (cases s) simp_all

lemma search_skip: "dquote \<notin> set u \<Longrightarrow>
    re_search (map RChar (quoted key) @ is) (u @ s) = re_search (map RChar (quoted key) @ is) s"
  by (induction u) (auto simp: quoted_def)

text \<open>A quoted text that is not the key, in front of a character that does not start the key.\<close>

lemma search_skip_quoted:
  assumes "w \<noteq> key" "dquote \<notin> set w" "dquote \<notin> set key" "key \<noteq> []" "s = [] \<or> hd s \<noteq> hd key"
  shows "re_search (map RChar (quoted key) @ is) (quoted w @ s) = re_search (map RChar (quoted key) @ is) s"
proof -
  let ?R = "map RChar (quoted key) @ is"
  have first: "take (length (quoted key)) (dquote # w @ dquote # s) \<noteq> quoted key"
  proof
    assume "take (length (quoted key)) (dquote # w @ dquote # s) = quoted key"
    then have "take (Suc (length key)) (w @ dquote # s) = key @ [dquote]" by (simp add: quoted_def)
    then obtain z where "w @ dquote # s = key @ dquote # z"
      by (metis append.assoc append_Cons append_Nil append_take_drop_id)
    with assms(1-3) show False by (auto simp: append_eq_append_conv2 append_eq_Cons_conv Cons_eq_append_conv)
  qed
  have second: "take (length (quoted key)) (dquote # s) \<noteq> quoted key"
    using assms(4,5) by (cases s; cases key) (auto simp: quoted_def)
  have "re_search ?R (quoted w @ s) = re_search ?R (w @ dquote # s)"
    using re_literal_fail [OF first] by (simp add: quoted_def)
  also have "\<dots> = re_search ?R (dquote # s)" by (rule search_skip [OF assms(2)])
  also have "\<dots> = re_search ?R s" using re_literal_fail [OF second] by simp
  finally show ?thesis .
qed

section \<open>The characters of names and numbers\<close>

definition name_chars :: string where
  "name_chars = ''ABCDEFGHIJKLMNOPQRSTUVWXYZ2''"

lemma table_name_chars: "list_all (\<lambda>e. set (fst e) \<subseteq> set name_chars) opcode_table"
  by (simp add: opcode_table_def name_chars_def)

lemma opcode_name_chars: "oc \<in> set enumerators \<Longrightarrow> set (opcode_name oc) \<subseteq> set name_chars"
  using table_name_chars opcode_name_in_table by (fastforce simp: list_all_iff)

text \<open>No name or number contains a mark of the format.\<close>

definition marks :: string where
  "marks = dquote # ''{}[],:abc''"

lemma name_no_mark: "oc \<in> set enumerators \<Longrightarrow> set marks \<inter> set (opcode_name oc) = {}"
  using opcode_name_chars [of oc] by (auto simp: name_chars_def marks_def)

lemma show_int_no_mark: "set marks \<inter> set (show_int z) = {}"
proof -
  have "set (show_int z) \<subseteq> set ''-'' \<union> {c. isdigit c}"
    using show_nat_digits by (auto simp: show_int_def list_all_iff)
  then show ?thesis by (auto simp: marks_def isdigit_def)
qed

lemma no_mark:
  "oc \<in> set enumerators \<Longrightarrow> c \<in> set marks \<Longrightarrow> c \<notin> set (opcode_name oc)"
  "c \<in> set marks \<Longrightarrow> c \<notin> set (show_int z)"
  using name_no_mark show_int_no_mark by blast+

section \<open>One object\<close>

text \<open>An expression that starts with a quoted key, as both field expressions do.\<close>

definition field_re :: "re_item list \<Rightarrow> string \<Rightarrow> bool" where
  "field_re R key \<longleftrightarrow> (\<exists>is. R = map RChar (quoted key) @ is) \<and> dquote \<notin> set key \<and> key \<noteq> []"

lemma field_res:
  "dquote \<notin> set key \<Longrightarrow> key \<noteq> [] \<Longrightarrow> field_re (string_field_re key) key"
  "dquote \<notin> set key \<Longrightarrow> key \<noteq> [] \<Longrightarrow> field_re (int_field_re key) key"
  by (auto simp: field_re_def string_field_re_def int_field_re_def quoted_def)

lemma field_skip: "field_re R key \<Longrightarrow> dquote \<notin> set u \<Longrightarrow> re_search R (u @ s) = re_search R s"
  using search_skip by (auto simp: field_re_def)

lemma field_skip_quoted:
  "field_re R key \<Longrightarrow> w \<noteq> key \<Longrightarrow> dquote \<notin> set w \<Longrightarrow> s = [] \<or> hd s \<noteq> hd key \<Longrightarrow>
     re_search R (quoted w @ s) = re_search R s"
  using search_skip_quoted by (auto simp: field_re_def)

text \<open>A member with a key that is not the one sought: \<open>name:\<close> and a value without quotes, up to a comma.\<close>

lemma field_skip_member:
  assumes "field_re R key" "w \<noteq> key" "dquote \<notin> set w" "CHR '':'' \<noteq> hd key" "dquote \<notin> set u"
  shows "re_search R (quoted w @ '':'' @ u @ '','' @ s) = re_search R s"
  using field_skip_quoted [OF assms(1-3), of "'':'' @ u @ '','' @ s"]
    field_skip [OF assms(1), of "'':'' @ u @ '',''" s] assms(4,5)
  by simp

lemma field_skip_string_member:
  assumes "field_re R key" "w \<noteq> key" "v \<noteq> key" "dquote \<notin> set w" "dquote \<notin> set v" "CHR '':'' \<noteq> hd key" "CHR '','' \<noteq> hd key"
  shows "re_search R (quoted w @ '':'' @ quoted v @ '','' @ s) = re_search R s"
  using field_skip_quoted [OF assms(1,2,4), of "'':'' @ quoted v @ '','' @ s"]
    field_skip [OF assms(1), of "'':''" "quoted v @ '','' @ s"]
    field_skip_quoted [OF assms(1,3,5), of "'','' @ s"] field_skip [OF assms(1), of "'',''" s] assms(6,7)
  by simp

lemma stoll_show_int: "stoll (show_int (sint (x :: i64))) = Inr x"
  using scan_show_int [of "[]" "[]" "sint x"] show_nat_digits
  by (simp add: stoll_def signed_value_show)

lemma parse_json_insn:
  assumes "opcode_of i \<in> set enumerators"
  shows "parse_insn_object (json_insn i) = Inr (Inr i)"
proof -
  let ?name = "opcode_name (opcode_of i)"
  let ?num = "\<lambda>k x s. quoted k @ '':'' @ show_int (sint x) @ (s :: string)"
  let ?c = "?num ''c'' (arg_c i) ''}''"
  let ?b = "?num ''b'' (arg_b i) ('','' @ ?c)"
  let ?a = "?num ''a'' (arg_a i) ('','' @ ?b)"
  have obj: "json_insn i = ''{'' @ quoted ''opcode'' @ '':'' @ quoted ?name @ '','' @ ?a"
    by (simp add: json_insn_def)
  note nm = no_mark(1) [OF assms] no_mark(2)
  have dq: "dquote \<notin> set ?name" "\<And>x :: i64. dquote \<notin> set (show_int (sint x))" using nm by (simp_all add: marks_def)
  have key: "?name \<noteq> ''a''" "?name \<noteq> ''b''" "?name \<noteq> ''c''"
    using nm(1) [of "CHR ''a''"] nm(1) [of "CHR ''b''"] nm(1) [of "CHR ''c''"] by (auto simp: marks_def)
  have numbers: "field_re (int_field_re ''a'') ''a''" "field_re (int_field_re ''b'') ''b''" "field_re (int_field_re ''c'') ''c''"
    "field_re (string_field_re ''opcode'') ''opcode''"
    by (simp_all add: field_res)
  have head: "re_search R (json_insn i) = re_search R ?a" if "field_re R k" "k \<in> {''a'', ''b'', ''c''}" for R k
    using that field_skip [OF that(1), of "''{''"] field_skip_string_member [OF that(1), of "''opcode''" ?name ?a] key dq
    by (auto simp: obj)
  have here: "re_search (int_field_re k) (?num k x s) = Some (show_int (sint x))"
    if "s = [] \<or> \<not> isdigit (hd s)" for s k and x :: i64
    by (rule search_here, rule int_field_here, rule that)
  have "parse_string_field (json_insn i) ''opcode'' = Some ?name"
    using field_skip [OF numbers(4), of "''{''" "quoted ''opcode'' @ '':'' @ quoted ?name @ '','' @ ?a"]
      search_here [OF string_field_here [OF dq(1)]]
    by (simp add: obj parse_string_field_def)
  moreover have "re_search (int_field_re ''a'') (json_insn i) = Some (show_int (sint (arg_a i)))"
    using head [OF numbers(1)] here [of "'','' @ ?b" "''a''" "arg_a i"] by (simp add: isspace_marks)
  moreover have "re_search (int_field_re ''b'') (json_insn i) = Some (show_int (sint (arg_b i)))"
    using head [OF numbers(2)] field_skip_member [OF numbers(2), of "''a''", OF _ _ _ dq(2), of "arg_a i" ?b]
      here [of "'','' @ ?c" "''b''" "arg_b i"] by (simp add: isspace_marks)
  moreover have "re_search (int_field_re ''c'') (json_insn i) = Some (show_int (sint (arg_c i)))"
    using head [OF numbers(3)] field_skip_member [OF numbers(3), of "''a''", OF _ _ _ dq(2), of "arg_a i" ?b]
      field_skip_member [OF numbers(3), of "''b''", OF _ _ _ dq(2), of "arg_b i" ?c]
      here [of "''}''" "''c''" "arg_c i"] by (simp add: isspace_marks)
  ultimately show ?thesis
    by (simp add: parse_insn_object_def parse_int_field_def stoll_show_int opcode_from_name [OF assms])
qed

section \<open>Brackets and lists\<close>

lemma close_index_flat:
  "l \<notin> set u \<Longrightarrow> r \<notin> set u \<Longrightarrow> l \<noteq> r \<Longrightarrow> close_index l r 1 (u @ r # s) = Some (length u)"
  by (induction u) auto

lemma close_index_block:
  "l \<notin> set u \<Longrightarrow> r \<notin> set u \<Longrightarrow> l \<noteq> r \<Longrightarrow> close_index l r 0 (l # u @ r # s) = Some (Suc (length u))"
  by (simp add: close_index_flat)

definition insn_text :: "insn \<Rightarrow> string" where
  "insn_text i = tl (butlast (json_insn i))"

lemma json_insn_parts: "json_insn i = CHR ''{'' # insn_text i @ ''}''"
  by (simp add: insn_text_def json_insn_def butlast_append)

lemma insn_text_marks:
  assumes "opcode_of i \<in> set enumerators" "c \<in> set ''{}[]''"
  shows "c \<notin> set (insn_text i)"
proof -
  have "c \<in> set marks" using assms(2) by (auto simp: marks_def)
  with no_mark(1) [OF assms(1)] no_mark(2) assms(2) show ?thesis
    by (auto simp: insn_text_def json_insn_def quoted_def butlast_append)
qed

lemma load_object:
  assumes "opcode_of i \<in> set enumerators" "CHR ''{'' \<notin> set u"
  shows "load_objects out (u @ json_insn i @ s) = load_objects (push_insn i out) s"
proof -
  have start: "find_char (CHR ''{'') (u @ json_insn i @ s) = Some (length u)"
    using assms(2) by (induction u) (auto simp: json_insn_parts)
  have "close_index (CHR ''{'') (CHR ''}'') 0 (json_insn i @ s) = Some (Suc (length (insn_text i)))"
    using close_index_block [of "CHR ''{''" "insn_text i" "CHR ''}''" s] insn_text_marks [OF assms(1)]
    by (simp add: json_insn_parts)
  moreover have "length (json_insn i) = Suc (Suc (length (insn_text i)))" by (simp add: json_insn_parts)
  ultimately show ?thesis
    by (subst load_objects.simps) (simp add: start parse_json_insn [OF assms(1)])
qed

lemma json_body_simps [simp]:
  "json_body [i] = json_insn i" "is \<noteq> [] \<Longrightarrow> json_body (i # is) = json_insn i @ '','' @ json_body is"
  by (simp_all add: json_body_def)

lemma load_comma: "load_objects out '','' = Inr (out, True)" "load_objects out [] = Inr (out, True)"
  by (simp_all add: load_objects.simps)

lemma load_json_body:
  "is \<noteq> [] \<Longrightarrow> \<forall>i\<in>set is. opcode_of i \<in> set enumerators \<Longrightarrow> CHR ''{'' \<notin> set u \<Longrightarrow>
     load_objects out (u @ json_body is) =
       Inr (out\<lparr>plr_program := (plr_program out)\<lparr>insns := insns (plr_program out) @ is\<rparr>\<rparr>, True)"
proof (induction "is" arbitrary: u out)
  case (Cons i "is")
  show ?case
  proof (cases "is = []")
    case True
    with Cons.prems load_object [of i u out "[]"] show ?thesis
      by (simp add: load_comma push_insn_def)
  next
    case False
    then have "load_objects out (u @ json_body (i # is)) = load_objects out (u @ json_insn i @ ('','' @ json_body is))" by simp
    also have "\<dots> = load_objects (push_insn i out) ('','' @ json_body is)"
      using Cons.prems by (intro load_object) simp_all
    also have "\<dots> = Inr ((push_insn i out)\<lparr>plr_program := (plr_program (push_insn i out))
        \<lparr>insns := insns (plr_program (push_insn i out)) @ is\<rparr>\<rparr>, True)"
      using False Cons.prems by (intro Cons.IH) simp_all
    finally show ?thesis by (simp add: push_insn_def)
  qed
qed simp

lemma json_body_brackets:
  "is \<noteq> [] \<Longrightarrow> \<forall>i\<in>set is. opcode_of i \<in> set enumerators \<Longrightarrow> c \<in> set ''[]'' \<Longrightarrow> c \<notin> set (json_body is)"
proof (induction "is")
  case (Cons i "is")
  then have "c \<notin> set (json_insn i)" using insn_text_marks [of i c] by (auto simp: json_insn_parts)
  with Cons show ?case by (cases "is = []") auto
qed simp

text \<open>The search for the policy passes over every instruction object.\<close>

lemma policy_skip_insn:
  assumes "field_re R ''axion_policy_text''" "opcode_of i \<in> set enumerators"
  shows "re_search R (json_insn i @ s) = re_search R s"
proof -
  let ?name = "opcode_name (opcode_of i)"
  let ?num = "\<lambda>k x s. quoted k @ '':'' @ show_int (sint x) @ (s :: string)"
  let ?c = "?num ''c'' (arg_c i) (''}'' @ s)"
  let ?b = "?num ''b'' (arg_b i) ('','' @ ?c)"
  let ?a = "?num ''a'' (arg_a i) ('','' @ ?b)"
  have dq: "dquote \<notin> set ?name" "\<And>x :: i64. dquote \<notin> set (show_int (sint x))"
    using no_mark(1) [OF assms(2)] no_mark(2) by (simp_all add: marks_def)
  have "?name \<noteq> ''axion_policy_text''" using no_mark(1) [OF assms(2), of "CHR ''a''"] by (auto simp: marks_def)
  then have "re_search R (quoted ''opcode'' @ '':'' @ quoted ?name @ '','' @ ?a) = re_search R ?a"
    using dq(1) by (intro field_skip_string_member [OF assms(1)]) simp_all
  moreover have "re_search R ?a = re_search R ?b"
    by (rule field_skip_member [OF assms(1)]) (use dq in simp_all)
  moreover have "re_search R ?b = re_search R ?c"
    by (rule field_skip_member [OF assms(1)]) (use dq in simp_all)
  moreover have "re_search R ?c = re_search R ('':'' @ show_int (sint (arg_c i)) @ ''}'' @ s)"
    by (rule field_skip_quoted [OF assms(1)]) simp_all
  moreover have "re_search R ('':'' @ show_int (sint (arg_c i)) @ ''}'' @ s) = re_search R s"
    using field_skip [OF assms(1), of "'':'' @ show_int (sint (arg_c i)) @ ''}''" s] dq(2) by simp
  moreover have "re_search R (json_insn i @ s) =
      re_search R (quoted ''opcode'' @ '':'' @ quoted ?name @ '','' @ ?a)"
    using field_skip [OF assms(1), of "''{''"] by (simp add: json_insn_def)
  ultimately show ?thesis by simp
qed

lemma policy_skip_body:
  assumes "field_re R ''axion_policy_text''"
  shows "is \<noteq> [] \<Longrightarrow> \<forall>i\<in>set is. opcode_of i \<in> set enumerators \<Longrightarrow> re_search R (json_body is @ s) = re_search R s"
proof (induction "is")
  case (Cons i "is")
  then show ?case
    using policy_skip_insn [OF assms, of i] field_skip [OF assms, of "'',''"]
    by (cases "is = []") simp_all
qed simp

section \<open>Round trip\<close>

text \<open>
  C21: the object format round trip. Every non-empty program with enumerated opcodes and a
  policy text without quotation marks can be written as \<open>TISC JSON V1\<close>, and
  \<open>load_tisc_json_v1\<close> reads exactly that program back: the two field expressions find the
  right members, and the bracket counts find the array and the objects.
\<close>

theorem json_round_trip:
  assumes "\<forall>i\<in>set (insns p). valid_opcode (opcode_of i)" "insns p \<noteq> []" "dquote \<notin> set (axion_policy_text p)"
  shows "load_tisc_json_v1 (print_json p) =
     Inr \<lparr>plr_ok = True, plr_format = TiscJsonV1, plr_program = p, plr_error = []\<rparr>"
proof -
  let ?body = "json_body (insns p)" and ?pol = "axion_policy_text p" and ?k = "''axion_policy_text''"
  let ?tail = "'','' @ quoted ?k @ '':'' @ quoted ?pol @ ''}''"
  have enum: "\<forall>i\<in>set (insns p). opcode_of i \<in> set enumerators"
    using assms(1) by (simp add: valid_opcode_iff)
  have doc: "print_json p = ''{'' @ quoted ''insns'' @ '':['' @ ?body @ '']'' @ ?tail"
    by (simp add: print_json_def)
  have R: "field_re (string_field_re ?k) ?k" by (simp add: field_res)
  have "re_search (string_field_re ?k) (print_json p) = re_search (string_field_re ?k) (?body @ '']'' @ ?tail)"
    using field_skip [OF R, of "''{''"] field_skip_quoted [OF R, of "''insns''" "'':['' @ ?body @ '']'' @ ?tail"]
      field_skip [OF R, of "'':[''"] by (simp add: doc)
  also have "\<dots> = Some ?pol"
    using policy_skip_body [OF R assms(2) enum, of "'']'' @ ?tail"] field_skip [OF R, of "''],''"]
      search_here [OF string_field_here [OF assms(3), of ?k "''}''"]] by simp
  finally have policy: "parse_string_field (print_json p) ?k = Some ?pol" by (simp add: parse_string_field_def)
  have insns: "find_sub ([dquote] @ ''insns'' @ [dquote]) (print_json p) = Some 1"
    by (simp add: doc quoted_def)
  have array: "find_char (CHR ''['') (drop 1 (print_json p)) = Some 8"
    "drop 9 (print_json p) = ''['' @ ?body @ '']'' @ ?tail"
    by (simp_all add: doc quoted_def)
  have close: "close_index (CHR ''['') (CHR '']'') 0 (drop 9 (print_json p)) = Some (Suc (length ?body))"
    using close_index_block [of "CHR ''[''" ?body "CHR '']''" ?tail] json_body_brackets [OF assms(2) enum]
    by (simp add: array(2))
  have "load_objects (put_policy ?pol (new_result TiscJsonV1)) ?body =
      Inr (\<lparr>plr_ok = False, plr_format = TiscJsonV1, plr_program = p, plr_error = []\<rparr>, True)"
    using load_json_body [OF assms(2) enum, of "[]"] by (simp add: put_policy_def new_result_def)
  then show ?thesis
    using assms(2) policy insns array close by (simp add: load_tisc_json_v1_def Let_def)
qed

theorem json_round_trip_witness:
  "load_tisc_json_v1 (print_json \<lparr>insns = [mk_insn LoadImm 0 (- 5) 0, mk_insn Halt 0 0 0], axion_policy_text = ''(tier 1)''\<rparr>) =
     Inr \<lparr>plr_ok = True, plr_format = TiscJsonV1, plr_program =
       \<lparr>insns = [mk_insn LoadImm 0 (- 5) 0, mk_insn Halt 0 0 0], axion_policy_text = ''(tier 1)''\<rparr>, plr_error = []\<rparr>"
  by (rule json_round_trip) (simp_all add: valid_opcode_def)

end
