(* ===== verification/Liveness.thy ===== *)
theory Liveness
  imports Machine_Interface Control_Facts
begin

text \<open>
  What eventually happens: programs without backward jumps end, a fault returns for ever, and
  a counting loop halts for every positive count.
\<close>

section \<open>Programs without backward jumps\<close>

definition jumps :: "opcode \<Rightarrow> bool" where
  "jumps oc \<longleftrightarrow> oc \<in> {Jump, JumpIfZero, JumpIfNotZero, JumpIfNegative, JumpIfPositive}"

text \<open>A jump to its own position or an earlier one goes backward.\<close>

definition goes_back :: "nat \<Rightarrow> insn \<Rightarrow> bool" where
  "goes_back k i \<longleftrightarrow> jumps (opcode_of i) \<and> 0 \<le> sint (arg_a i) \<and> sint (arg_a i) \<le> int k"

definition forward_only :: "program \<Rightarrow> bool" where
  "forward_only p \<longleftrightarrow> (\<forall>k<length (insns p).
     opcode_of (insns p ! k) \<notin> {Call, Ret} \<and> \<not> goes_back k (insns p ! k))"

definition moves_on :: "nat \<Rightarrow> interp \<times> trap option \<Rightarrow> bool" where
  "moves_on pc0 = (\<lambda>(it', r). r = None \<longrightarrow> pc0 < pc (vm it'))"

lemma exec_moves_on:
  assumes "pc (vm it) = pc0" "opcode_of i \<notin> {Call, Ret}" "\<not> goes_back pc0 i"
  shows "outcome (moves_on pc0) (\<lambda>h. True) (exec F i pc0 it)"
proof (cases "jumps (opcode_of i)")
  case True
  with assms have "pc0 < unat (arg_a i)" if "\<not> target_outside it (arg_a i)"
    using that by (auto simp: goes_back_def target_outside_def unat_of_sint_nonneg)
  moreover have "exec F i pc0 it = exec_jump i pc0 it"
    using True by (auto simp: jumps_def exec_def)
  ultimately show ?thesis using assms(1)
    by (auto simp: moves_on_def exec_jump_def check_jump_target_def ending_defs state_defs)
next
  case False
  with assms(2) have "\<not> transfers (opcode_of i)" by (simp add: transfers_def jumps_def)
  from exec_advances [OF this, of it F pc0] show ?thesis
    using assms(1) by (elim outcome_mono) (auto simp: moves_on_def advances_def)
qed

lemma step_moves_on:
  assumes "step F it = Inr (it1, None)" "\<not> halted (vm it)" "forward_only (prog it)"
  shows "prog it1 = prog it \<and> pc (vm it) < length (insns (prog it)) \<and> pc (vm it) < pc (vm it1)"
  using assms(1)
proof (cases rule: step_cases)
  case (run i)
  have "opcode_of i \<notin> {Call, Ret}" "\<not> goes_back (pc (vm it)) i"
    using assms(3) run(3,4) by (simp_all add: forward_only_def)
  from outcome_InrD [OF exec_moves_on [OF begin_step_pc this] run(5)]
    outcome_InrD [OF exec_frame run(5)] run(3)
  show ?thesis by (simp add: moves_on_def frame_kept_def)
qed (use assms(2) in \<open>auto simp: raise_trap_eq\<close>)

text \<open>
  C16: programs without backward jumps, \<open>Call\<close> and \<open>Ret\<close> always end. Freshly loaded and run
  with a bound above the program's length, such a program does not exhaust the bound: unless
  it meets undefined behaviour, it halts or traps, in as many steps as the trace has entries,
  and the reported outcome is that of the last step.
\<close>

theorem forward_program_ends:
  assumes "load_program p it0 = Inr it" "forward_only p" "length (insns p) < n"
  shows "(\<exists>h. run_to_halt F n it = Inl h) \<or>
     (\<exists>it' r. run_to_halt F n it = Inr (it', r) \<and> trace (vm it') \<noteq> [] \<and>
        length (trace (vm it')) \<le> Suc (length (insns p)) \<and>
        te_trap (last (trace (vm it'))) = r \<and> (r = None) = halted (vm it'))"
proof -
  let ?rank = "\<lambda>it. length (insns p) - pc (vm it)"
  have dec: "prog m' = p \<and> (halted (vm m') \<or> ?rank m' < ?rank m)"
    if "prog m = p" "\<not> halted (vm m)" "step F m = Inr (m', None)" for m m'
    using step_moves_on [OF that(3,2)] that(1) assms(2) by auto
  note fresh = load_fresh_machine [OF assms(1)]
  have "?rank it < n" using assms(3) by simp
  have "(\<exists>h. run_to_halt F n it = Inl h) \<or> (\<exists>it' r es. run_to_halt F n it = Inr (it', r) \<and>
      trace (vm it') = trace (vm it) @ es \<and> es \<noteq> [] \<and> length es \<le> Suc (?rank it) \<and>
      te_trap (last es) = r \<and> (r = None \<longleftrightarrow> halted (vm it')))"
    by (rule interpreter.run_ranked [where P = "\<lambda>it. prog it = p" and m = it and rank = ?rank, OF fresh(4,2) \<open>?rank it < n\<close>]) (rule dec)
  then show ?thesis
  proof
    assume "\<exists>it' r es. run_to_halt F n it = Inr (it', r) \<and> trace (vm it') = trace (vm it) @ es \<and>
      es \<noteq> [] \<and> length es \<le> Suc (?rank it) \<and> te_trap (last es) = r \<and> (r = None \<longleftrightarrow> halted (vm it'))"
    then obtain it' r where "run_to_halt F n it = Inr (it', r)" "trace (vm it') \<noteq> []"
      "length (trace (vm it')) \<le> Suc (?rank it)" "te_trap (last (trace (vm it'))) = r"
      "(r = None) = halted (vm it')" using fresh(1) by auto
    moreover have "?rank it = length (insns p)" by (simp add: fresh(3))
    ultimately show ?thesis by metis
  qed (rule disjI1)
qed

definition sample_skip :: "insn list" where
  "sample_skip = [mk_insn Cmp 1 2 0, mk_insn JumpIfZero 3 0 0, mk_insn Trap 0 0 0, mk_insn Pop 0 0 0]"

theorem forward_program_ends_witness:
  "\<exists>it' r. run_to_halt int_fpu 8 (loaded_vm sample_skip) = Inr (it', r) \<and>
     te_trap (last (trace (vm it'))) = r"
proof -
  have fwd: "forward_only (bare_program sample_skip)"
    by (simp add: forward_only_def goes_back_def jumps_def sample_skip_def less_Suc_eq numeral_eq_Suc)
  have no_hazard: "\<exists>x. run_to_halt int_fpu 8 (loaded_vm sample_skip) = Inr x"
    by (simp add: run_eval loaded_defs sample_skip_def ssub_def target_outside_def jump_taken_def)
  have "length (insns (bare_program sample_skip)) < 8" by (simp add: sample_skip_def)
  from forward_program_ends [OF load_bare fwd this, of int_fpu] no_hazard show ?thesis by auto
qed

section \<open>Faults return for ever\<close>

definition verdict :: "step_result \<Rightarrow> hazard + trap option" where
  "verdict m = ebind m (\<lambda>(it, r). Inr r)"

lemma verdict_simps [simp]:
  "verdict (Inr (it, r)) = Inr r" "verdict (Inl h) = Inl h"
  "verdict (ebind m k) = ebind m (\<lambda>x. verdict (k x))"
  "verdict (if b then x else y) = (if b then verdict x else verdict y)"
  "verdict (case z of None \<Rightarrow> x | Some w \<Rightarrow> f w) = (case z of None \<Rightarrow> verdict x | Some w \<Rightarrow> verdict (f w))"
  by (simp_all add: verdict_def ebind_assoc split: option.splits)

text \<open>What an instruction reports does not depend on the records of the past.\<close>

lemma exec_verdict:
  "verdict (exec F i pc0 (it\<lparr>vm := (vm it)\<lparr>trace := tr, axion_log := lg, last_trap_payload := pl,
      gc_cycles := g\<rparr>, preload_trap := pt, steps := n, cur_write_reg := r, cur_write_value := v,
      cur_write_tag := tg\<rparr>)) = verdict (exec F i pc0 it)"
  by (cases "opcode_of i")
    (simp_all add: exec_def handler_defs ending_defs helper_defs state_defs Let_def intern_defs ptr_defs
      target_outside_def guard_kind_def axion_denied_def valid_mem_def tensor_defs ebind_assoc cong: if_cong option.case_cong)

lemma step_verdict:
  assumes "step F it = Inr (it1, Some t)" "preload_trap it = None"
  shows "\<exists>it2. step F it1 = Inr (it2, Some t)"
proof -
  note same = erase_records_eq [OF step_atomic_trap [OF assms(1)]]
  have fields: "halted (vm it1) = halted (vm it)" "pc (vm it1) = pc (vm it)" "prog it1 = prog it"
    using arg_cong [OF same, of "\<lambda>x. halted (vm x)"] arg_cong [OF same, of "\<lambda>x. pc (vm x)"]
      arg_cong [OF same, of prog] by simp_all
  note none = step_trap_preload [OF assms(1)]
  from assms(1) show ?thesis
  proof (cases rule: step_cases)
    case (run i)
    have "erase_records (begin_step it1) = erase_records (begin_step it)"
      using step_atomic_trap [OF assms(1)] by (simp add: erase_begin_step)
    from erase_records_eq [OF this] exec_verdict
    have "verdict (exec F i (pc (vm it)) (begin_step it1)) = verdict (exec F i (pc (vm it)) (begin_step it))"
      by metis
    with run(5) have "verdict (exec F i (pc (vm it)) (begin_step it1)) = Inr (Some t)" by simp
    then obtain it2 where "exec F i (pc (vm it)) (begin_step it1) = Inr (it2, Some t)"
      by (auto simp: verdict_def ebind_eq_Inr)
    with run(1-4) none fields show ?thesis by (auto simp: step_def)
  next
    case past_end
    with none fields show ?thesis by (auto simp: step_def raise_trap_eq)
  qed (use assms(2) in simp_all)
qed

text \<open>\<open>faulting F t n it\<close>: the next step of \<open>it\<close> traps with \<open>t\<close> at position \<open>n\<close>.\<close>

definition faulting :: "'d fpu \<Rightarrow> trap \<Rightarrow> nat \<Rightarrow> interp \<Rightarrow> bool" where
  "faulting F t n it \<longleftrightarrow> preload_trap it = None \<and> pc (vm it) = n \<and> \<not> halted (vm it) \<and>
     (\<exists>it'. step F it = Inr (it', Some t))"

lemma faulting_step:
  assumes "faulting F t n it" "step F it = Inr (it', r)"
  shows "r = Some t \<and> faulting F t n it' \<and> length (trace (vm it')) = Suc (length (trace (vm it)))"
proof -
  from assms have st: "step F it = Inr (it', Some t)" and r: "r = Some t" by (auto simp: faulting_def)
  have "halted (vm it') = halted (vm it)" "pc (vm it') = pc (vm it)"
    using arg_cong [OF step_atomic_trap [OF st], of "\<lambda>x. halted (vm x)"]
      arg_cong [OF step_atomic_trap [OF st], of "\<lambda>x. pc (vm x)"] by (simp_all add: erase_records_def)
  with assms(1) step_verdict [OF st] step_trap_preload [OF st] step_trace_length [OF st] r
  show ?thesis by (simp add: faulting_def)
qed

text \<open>\<open>retries F it k it'\<close>: the host has called \<open>step\<close> \<open>k\<close> more times, whatever it returned.\<close>

inductive retries :: "'d fpu \<Rightarrow> interp \<Rightarrow> nat \<Rightarrow> interp \<Rightarrow> bool" for F it where
  none: "retries F it 0 it"
| again: "retries F it k it1 \<Longrightarrow> step F it1 = Inr (it2, r) \<Longrightarrow> retries F it (Suc k) it2"

lemma faulting_retries:
  "retries F it k it' \<Longrightarrow> faulting F t n it \<Longrightarrow>
     faulting F t n it' \<and> length (trace (vm it')) = length (trace (vm it)) + k"
  by (induction rule: retries.induct) (auto dest: faulting_step)

lemma retries_total: "faulting F t n it \<Longrightarrow> \<exists>it'. retries F it k it'"
proof (induction k)
  case (Suc k)
  then obtain it1 where "retries F it k it1" by blast
  with faulting_retries [OF this Suc.prems] show ?case
    by (auto simp: faulting_def intro: retries.again)
qed (auto intro: retries.none)

text \<open>
  C18: a fault returns for ever. Once an instruction has trapped, the host can call \<open>step\<close>
  any number \<open>k\<close> of further times, each call adds one trace entry, and after them the next
  step, and every run with a positive bound, ends at once with the same trap at the same
  program counter.
\<close>

theorem fault_is_permanent:
  assumes "step F it = Inr (it1, Some t)" "preload_trap it = None"
  shows "(\<exists>it2. retries F it1 k it2) \<and>
     (\<forall>it2. retries F it1 k it2 \<longrightarrow>
        length (trace (vm it2)) = length (trace (vm it1)) + k \<and> pc (vm it2) = pc (vm it) \<and>
        (\<exists>it3. step F it2 = Inr (it3, Some t) \<and> (\<forall>n. run_to_halt F (Suc n) it2 = Inr (it3, Some t))))"
proof -
  have "\<not> halted (vm it)" using assms(1) by (auto simp: step_def split: if_splits)
  with assms have "faulting F t (pc (vm it)) it" by (simp add: faulting_def)
  then have "faulting F t (pc (vm it)) it1" using faulting_step [OF _ assms(1)] by blast
  from retries_total [OF this] faulting_retries [OF _ this] show ?thesis
    by (fastforce simp: faulting_def)
qed

theorem fault_is_permanent_witness:
  "\<exists>it1 it2. step int_fpu (loaded_vm [mk_insn Pop 0 0 0]) = Inr (it1, Some StackFault) \<and>
     retries int_fpu it1 5 it2 \<and> run_to_halt int_fpu (Suc 2) it2 \<noteq> Inr (it1, None) \<and>
     length (trace (vm it2)) = length (trace (vm it1)) + 5"
proof -
  let ?it = "loaded_vm [mk_insn Pop 0 0 0]"
  have "\<exists>it1. step int_fpu ?it = Inr (it1, Some StackFault)"
    by (simp add: run_eval loaded_defs)
  then obtain it1 where st: "step int_fpu ?it = Inr (it1, Some StackFault)" by blast
  have "preload_trap ?it = None" by (simp add: loaded_defs run_eval)
  from fault_is_permanent [OF st this, of 5] obtain it2 it3 where "retries int_fpu it1 5 it2"
    "length (trace (vm it2)) = length (trace (vm it1)) + 5"
    "\<forall>n. run_to_halt int_fpu (Suc n) it2 = Inr (it3, Some StackFault)" by blast
  moreover from this(3) have "run_to_halt int_fpu (Suc 2) it2 \<noteq> Inr (it1, None)"
    by (metis Inr_inject option.distinct(1) prod.inject)
  ultimately show ?thesis using st by blast
qed

section \<open>A counting loop\<close>

definition countdown :: "i64 \<Rightarrow> insn list" where
  "countdown n = [mk_insn LoadImm 0 n 0, mk_insn Dec 0 0 0, mk_insn JumpIfPositive 1 0 0, mk_insn Halt 0 0 0]"

definition counting :: "i64 \<Rightarrow> nat \<Rightarrow> int \<Rightarrow> interp \<Rightarrow> bool" where
  "counting n k w it \<longleftrightarrow> prog it = bare_program (countdown n) \<and> \<not> halted (vm it) \<and>
     preload_trap it = None \<and> pc (vm it) = k \<and> length (registers (vm it)) = 243 \<and>
     length (register_tags (vm it)) = 243 \<and> sint (registers (vm it) ! 0) = w"

lemma counting_executes:
  "counting n k w it \<Longrightarrow> k < 4 \<Longrightarrow> step F it = exec F (countdown n ! k) k (begin_step it)"
  by (simp add: counting_def step_def countdown_def)

lemma counting_start:
  "\<exists>it. step F (loaded_vm (countdown n)) = Inr (it, None) \<and> counting n 1 (sint n) it"
  by (simp add: run_eval loaded_defs countdown_def counting_def)

lemma counting_round:
  assumes "counting n 1 w it" "- (2 ^ 63) < w"
  obtains it1 it2 where "step F it = Inr (it1, None)" "\<not> halted (vm it1)"
    "step F it1 = Inr (it2, None)" "counting n (if 1 < w then 1 else 3) (w - 1) it2"
proof -
  let ?x = "registers (vm it) ! 0"
  have x: "sint ?x = w" "w < 2 ^ 63"
    using assms(1) sint_i64_bounds(2) [of ?x] by (simp_all add: counting_def)
  with assms(2) have dec: "ssub ?x 1 = Inr (?x - 1)" and val: "sint (?x - 1) = w - 1"
    using ssub_Inr [of ?x 1 "?x - 1"] by (simp_all add: ssub_def int64_fits_def)
  have "\<exists>it1. step F it = Inr (it1, None) \<and> counting n 2 (w - 1) it1 \<and>
      flag_positive (flags_of (vm it1)) = (1 < w)"
    using assms(1) dec val counting_executes [OF assms(1), of F]
    by (simp add: countdown_def exec_def exec_dec_def register_defs ending_defs state_defs counting_def)
  then obtain it1 where it1: "step F it = Inr (it1, None)" "counting n 2 (w - 1) it1"
    "flag_positive (flags_of (vm it1)) = (1 < w)" by blast
  have "\<exists>it2. step F it1 = Inr (it2, None) \<and> counting n (if 1 < w then 1 else 3) (w - 1) it2"
    using it1(2,3) counting_executes [OF it1(2), of F]
    by (simp add: countdown_def exec_def exec_jump_def jump_taken_def check_jump_target_def
        target_outside_def ending_defs state_defs counting_def)
  with it1 that show ?thesis by (auto simp: counting_def)
qed

lemma counting_stop:
  assumes "counting n 3 w it"
  shows "\<exists>it'. runs F it 1 (it', None) \<and> sint (registers (vm it') ! 0) = w"
proof -
  have "\<exists>it'. step F it = Inr (it', None) \<and> halted (vm it') \<and> sint (registers (vm it') ! 0) = w"
    using assms counting_executes [OF assms, of F]
    by (simp add: countdown_def exec_def exec_halt_def ending_defs state_defs counting_def)
  then show ?thesis by (auto intro: runs.halts)
qed

lemma counting_runs:
  "counting n 1 w it \<Longrightarrow> - (2 ^ 63) < w \<Longrightarrow>
     \<exists>it'. runs F it (2 * max 1 (nat w) + 1) (it', None) \<and> sint (registers (vm it') ! 0) = min 0 (w - 1)"
proof (induction "nat w" arbitrary: w it rule: less_induct)
  case less
  from counting_round [OF less.prems, of F] obtain it1 it2 where
    s: "step F it = Inr (it1, None)" "\<not> halted (vm it1)" "step F it1 = Inr (it2, None)"
      "counting n (if 1 < w then 1 else 3) (w - 1) it2" .
  have "\<exists>it'. runs F it2 (2 * max 1 (nat w) - 1) (it', None) \<and> sint (registers (vm it') ! 0) = min 0 (w - 1)"
  proof (cases "1 < w")
    case True
    then have "2 * max 1 (nat (w - 1)) + 1 = 2 * max 1 (nat w) - 1" "min 0 (w - 1 - 1) = min 0 (w - 1)"
      by linarith+
    with less.hyps [of "w - 1" it2] s(4) True show ?thesis by auto
  next
    case False
    then have "2 * max 1 (nat w) - 1 = 1" "min 0 (w - 1) = w - 1" by simp_all
    with counting_stop [of n "w - 1" it2 F] s(4) False show ?thesis by auto
  qed
  then obtain it' where it': "runs F it2 (2 * max 1 (nat w) - 1) (it', None)"
    "sint (registers (vm it') ! 0) = min 0 (w - 1)" by blast
  have "\<not> halted (vm it2)" using s(4) by (simp add: counting_def)
  from runs.continues [OF s(1,2) runs.continues [OF s(3) this it'(1)]] it'(2)
  show ?case by (auto simp: numeral_eq_Suc)
qed

text \<open>Before its end a run that ends is ongoing.\<close>

lemma runs_ongoing: "runs F it k res \<Longrightarrow> m < k \<Longrightarrow> \<exists>it'. ongoing F it m it'"
proof (induction arbitrary: m rule: runs.induct)
  case (continues it it1 k res)
  then show ?case by (cases m) (auto simp: ongoing_Suc)
qed auto

text \<open>
  C17: a counting loop halts for every count. The program that loads \<open>n\<close>, decrements it and
  jumps back while it is positive is accepted and takes exactly two steps per round, at least
  one round, and two more: with that bound or a larger one \<open>run_to_halt\<close> succeeds and leaves
  \<open>0\<close> (or \<open>n - 1\<close> when \<open>n\<close> was not positive); with any smaller bound it reports
  \<open>TrapInstruction\<close>. The only exception is the least 64-bit value, whose decrement overflows.
\<close>

theorem countdown_halts:
  assumes "- (2 ^ 63) < sint n"
  shows "\<exists>it'. sint (registers (vm it') ! 0) = min 0 (sint n - 1) \<and>
     (\<forall>m. if 2 * max 1 (nat (sint n)) + 2 \<le> m
       then run_to_halt F m (loaded_vm (countdown n)) = Inr (it', None)
       else \<exists>it2. run_to_halt F m (loaded_vm (countdown n)) = Inr (it2, Some TrapInstruction))"
proof -
  let ?k = "2 * max 1 (nat (sint n)) + 2"
  from counting_start [of F n] obtain it1 where it1: "step F (loaded_vm (countdown n)) = Inr (it1, None)"
    "counting n 1 (sint n) it1" by blast
  from counting_runs [OF it1(2) assms] obtain it' where
    it': "runs F it1 (2 * max 1 (nat (sint n)) + 1) (it', None)"
    "sint (registers (vm it') ! 0) = min 0 (sint n - 1)" by blast
  from it1(2) have "\<not> halted (vm it1)" by (simp add: counting_def)
  from runs.continues [OF it1(1) this it'(1)] have "runs F (loaded_vm (countdown n)) ?k (it', None)" by simp
  from runs_run_to_halt [OF this] runs_ongoing [OF this] it'(2) show ?thesis
    by (metis ongoing_run_to_halt not_le)
qed

theorem countdown_halts_witness:
  "\<exists>it'. run_to_halt int_fpu 100000 (loaded_vm (countdown 49999)) = Inr (it', None) \<and>
     sint (registers (vm it') ! 0) = 0"
proof -
  have n: "sint (49999 :: i64) = 49999" by simp
  then have "- (2 ^ 63) < sint (49999 :: i64)" by simp
  from countdown_halts [OF this, of int_fpu] obtain it' where
    it': "sint (registers (vm it') ! 0) = min 0 (sint (49999 :: i64) - 1)"
      "\<And>m. 2 * max 1 (nat (sint (49999 :: i64))) + 2 \<le> m \<Longrightarrow>
         run_to_halt int_fpu m (loaded_vm (countdown 49999)) = Inr (it', None)" by metis
  have "2 * max 1 (nat (sint (49999 :: i64))) + 2 \<le> (100000 :: nat)" unfolding n by simp
  from it'(2) [OF this] it'(1) n show ?thesis by auto
qed

end
