(* ===== verification/Tensor_Facts.thy ===== *)
theory Tensor_Facts
  imports Allocators
begin

text \<open>
  The integer tensor kernels against their mathematical meaning: \<open>TMatMul\<close> computes the matrix
  product, \<open>TTranspose\<close> the transposed matrix, or the sums overflow.
\<close>

section \<open>Sums of products\<close>

text \<open>All products and all partial sums from \<open>s\<close> on fit 64 bits.\<close>

fun chain_fits :: "int \<Rightarrow> (int \<times> int) list \<Rightarrow> bool" where
  "chain_fits s [] = True"
| "chain_fits s ((x, y) # ps) \<longleftrightarrow>
     int64_fits (x * y) \<and> int64_fits (s + x * y) \<and> chain_fits (s + x * y) ps"

definition sum_products :: "(int \<times> int) list \<Rightarrow> int" where
  "sum_products ps = (\<Sum>(x, y)\<leftarrow>ps. x * y)"

lemma chain_fits_sum: "chain_fits s ps \<Longrightarrow> int64_fits s \<Longrightarrow> int64_fits (s + sum_products ps)"
  by (induction s ps rule: chain_fits.induct) (simp_all add: sum_products_def add.assoc)

lemma smul_sadd:
  "ebind (smul x y) (\<lambda>p. sadd s p) =
     (if int64_fits (sint x * sint y) \<and> int64_fits (sint s + sint x * sint y)
      then Inr (word_of_int (sint s + sint x * sint y)) else Inl SignedOverflow)"
  using sint_mult_fits [of x y] by (simp add: smul_def sadd_def scast_id)

lemma sint_smul_sadd:
  "int64_fits (sint x * sint y) \<Longrightarrow> int64_fits (sint s + sint x * sint y) \<Longrightarrow>
     sint (s + x * y :: i64) = sint s + sint x * sint y"
  by (simp add: sint_mult_fits sint_add_fits)

lemma sum_kernel:
  "efold (\<lambda>s k. ebind (smul (f k) (g k)) (\<lambda>p. sadd s p)) s ks =
     (if chain_fits (sint s) (map (\<lambda>k. (sint (f k), sint (g k))) ks)
      then Inr (word_of_int (sint s + sum_products (map (\<lambda>k. (sint (f k), sint (g k))) ks)))
      else Inl SignedOverflow)"
proof (induction ks arbitrary: s)
  case (Cons k ks)
  then show ?case
    by (simp add: smul_sadd sint_smul_sadd sum_products_def add.assoc)
qed (simp add: sum_products_def)

section \<open>Filling a vector\<close>

text \<open>A loop that computes one value per cell and stores it.\<close>

definition fill :: "('c \<Rightarrow> nat) \<Rightarrow> ('c \<Rightarrow> 'v) \<Rightarrow> 'c list \<Rightarrow> 'v list \<Rightarrow> 'v list" where
  "fill at h cs out = fold (\<lambda>c out. out[at c := h c]) cs out"

lemma fill_length [simp]: "length (fill at h cs out) = length out"
  unfolding fill_def by (induction cs arbitrary: out) simp_all

lemma fill_other: "n \<notin> at ` set cs \<Longrightarrow> fill at h cs out ! n = out ! n"
  unfolding fill_def by (induction cs arbitrary: out) auto

lemma fill_at:
  "inj_on at (set cs) \<Longrightarrow> c \<in> set cs \<Longrightarrow> \<forall>c\<in>set cs. at c < length out \<Longrightarrow> fill at h cs out ! at c = h c"
proof (induction cs arbitrary: out)
  case (Cons d cs)
  have step: "fill at h (d # cs) out = fill at h cs (out[at d := h d])" by (simp add: fill_def)
  show ?case
  proof (cases "c \<in> set cs")
    case True
    with Cons show ?thesis unfolding step by (intro Cons.IH) auto
  next
    case False
    with Cons.prems have "c = d" "at c \<notin> at ` set cs" by (auto dest: inj_onD)
    with Cons.prems(3) show ?thesis unfolding step by (simp add: fill_other)
  qed
qed simp

lemma fill_kernel:
  assumes "\<forall>c\<in>set cs. at c < length out"
    "\<And>c. c \<in> set cs \<Longrightarrow> cell c = (if ok c then Inr (h c) else Inl e)"
  shows "efold (\<lambda>out c. ebind (cell c) (\<lambda>x. vwrite VectorIndex out (at c) x)) out cs =
     (if \<forall>c\<in>set cs. ok c then Inr (fill at h cs out) else Inl e)"
  using assms
proof (induction cs arbitrary: out)
  case (Cons d cs)
  then have "cell d = (if ok d then Inr (h d) else Inl e)" by simp
  with Cons show ?case by (simp add: fill_def)
qed (simp add: fill_def)

text \<open>Two nested loops are one loop over the pairs of their indices.\<close>

definition index_pairs :: "nat \<Rightarrow> nat \<Rightarrow> (nat \<times> nat) list" where
  "index_pairs m n = concat (map (\<lambda>r. map (Pair r) [0..<n]) [0..<m])"

lemma set_index_pairs [simp]: "set (index_pairs m n) = {0..<m} \<times> {0..<n}"
  by (auto simp: index_pairs_def)

lemma efold_cong:
  "(\<And>y x. x \<in> set xs \<Longrightarrow> f y x = g y x) \<Longrightarrow> efold f y xs = efold g y xs"
  by (induction xs arbitrary: y) simp_all

lemma efold_map: "efold f y (map g xs) = efold (\<lambda>y x. f y (g x)) y xs"
  by (induction xs arbitrary: y) simp_all

lemma efold_nested:
  "efold (\<lambda>y r. efold (\<lambda>y c. f y r c) y (cs r)) y rs =
     efold (\<lambda>y (r, c). f y r c) y (concat (map (\<lambda>r. map (Pair r) (cs r)) rs))"
  by (induction rs arbitrary: y) (simp_all add: efold_append efold_map)

lemma efold_pairs:
  "efold (\<lambda>y r. efold (\<lambda>y c. f y r c) y [0..<n]) y [0..<m] = efold (\<lambda>y (r, c). f y r c) y (index_pairs m n)"
  unfolding index_pairs_def by (rule efold_nested)

lemma cell_bound: "r < m \<Longrightarrow> c < n \<Longrightarrow> r * n + c < m * (n :: nat)"
  using mult_le_mono1 [of "Suc r" m n] by simp

lemma cell_inj: "inj_on (\<lambda>(r, c). r * n + c) ({0..<m} \<times> {0..<n :: nat})"
proof (rule inj_onI, clarify)
  fix r c r' c'
  assume h: "r * n + c = r' * n + c'" and in_range: "c \<in> {0..<n}" "c' \<in> {0..<n}"
  then have "0 < n" by simp
  from h in_range have "(r * n + c) div n = (r' * n + c') div n" "(r * n + c) mod n = (r' * n + c') mod n"
    by simp_all
  with in_range \<open>0 < n\<close> show "r = r' \<and> c = c'" by simp
qed

lemma cell_index:
  "r < m \<Longrightarrow> c < n \<Longrightarrow> m * n < 2 ^ 64 \<Longrightarrow> size_add (size_mult r n) c = r * n + c"
  using cell_bound [of r m c n] by (simp add: size_mult_small size_add_small)

section \<open>The kernels\<close>

definition entry_terms :: "i64 list \<Rightarrow> i64 list \<Rightarrow> nat \<Rightarrow> nat \<Rightarrow> nat \<Rightarrow> nat \<Rightarrow> (int \<times> int) list" where
  "entry_terms l r n q i j =
     map (\<lambda>k. (sint (l ! (i * n + k)), sint (r ! (k * q + j)))) [0..<n]"

lemma mat_cell_eq:
  assumes "i < m" "j < q" "length l = m * n" "length r = n * q" "m * n < 2 ^ 64" "n * q < 2 ^ 64"
  shows "mat_cell l r n q i j =
     (if chain_fits 0 (entry_terms l r n q i j) then Inr (word_of_int (sum_products (entry_terms l r n q i j)))
      else Inl SignedOverflow)"
proof -
  have "mat_cell l r n q i j =
     efold (\<lambda>sum k. ebind (smul (l ! (i * n + k)) (r ! (k * q + j))) (\<lambda>p. sadd sum p)) 0 [0..<n]"
    unfolding mat_cell_def
  proof (rule efold_cong)
    fix y k
    assume "k \<in> set [0..<n]"
    then have "k < n" by simp
    with assms show "ebind (vread VectorIndex l (size_add (size_mult i n) k)) (\<lambda>x.
        ebind (vread VectorIndex r (size_add (size_mult k q) j)) (\<lambda>y'. ebind (smul x y') (\<lambda>p. sadd y p))) =
      ebind (smul (l ! (i * n + k)) (r ! (k * q + j))) (\<lambda>p. sadd y p)"
      by (simp add: cell_index cell_bound)
  qed
  then show ?thesis by (simp add: sum_kernel entry_terms_def)
qed

lemma matmul_kernel_eq:
  assumes "length l = m * n" "length r = n * q" "m * n < 2 ^ 64" "n * q < 2 ^ 64"
    and "m * q \<le> (2 ^ 63 - 1) div 8"
  shows "matmul_kernel l r m n q =
     (if \<forall>i<m. \<forall>j<q. chain_fits 0 (entry_terms l r n q i j)
      then Inr (fill (\<lambda>(i, j). i * q + j) (\<lambda>(i, j). word_of_int (sum_products (entry_terms l r n q i j)))
                 (index_pairs m q) (replicate (m * q) 0))
      else Inl SignedOverflow)"
proof -
  let ?at = "\<lambda>(i, j). i * q + j" and ?cell = "\<lambda>(i, j). mat_cell l r n q i j"
  let ?ok = "\<lambda>(i, j). chain_fits 0 (entry_terms l r n q i j)"
  let ?h = "\<lambda>(i, j). word_of_int (sum_products (entry_terms l r n q i j)) :: i64"
  have small: "m * q < 2 ^ 64" using assms(5) by simp
  have cells: "?cell c = (if ?ok c then Inr (?h c) else Inl SignedOverflow)" if "c \<in> set (index_pairs m q)" for c
    using that mat_cell_eq [OF _ _ assms(1-4)] by auto
  have bounds: "\<forall>c\<in>set (index_pairs m q). ?at c < length (replicate (m * q) (0 :: i64))"
    by (auto simp: cell_bound)
  have "matmul_kernel l r m n q =
     efold (\<lambda>out (i, j). ebind (mat_cell l r n q i j) (\<lambda>x. vwrite VectorIndex out (size_add (size_mult i q) j) x))
       (replicate (m * q) 0) (index_pairs m q)"
    using assms(5) small by (simp add: matmul_kernel_def new_vector_def size_mult_small efold_pairs)
  also have "\<dots> = efold (\<lambda>out c. ebind (?cell c) (\<lambda>x. vwrite VectorIndex out (?at c) x))
       (replicate (m * q) 0) (index_pairs m q)"
    by (rule efold_cong) (auto simp: cell_index [OF _ _ small])
  also have "\<dots> = (if \<forall>c\<in>set (index_pairs m q). ?ok c
      then Inr (fill ?at ?h (index_pairs m q) (replicate (m * q) 0)) else Inl SignedOverflow)"
    by (rule fill_kernel [OF bounds cells])
  finally show ?thesis by auto
qed

lemma fill_pairs:
  assumes "i < m" "j < q" "length out = m * q"
  shows "fill (\<lambda>(i, j). i * q + j) h (index_pairs m q) out ! (i * q + j) = h (i, j)"
  using fill_at [of "\<lambda>(i, j). i * q + j" "index_pairs m q" "(i, j)" out h] assms cell_inj [of q m]
  by (auto simp: cell_bound)

section \<open>The instructions\<close>

definition holds_matrix :: "interp \<Rightarrow> i64 \<Rightarrow> nat \<Rightarrow> nat \<Rightarrow> i64 list \<Rightarrow> bool" where
  "holds_matrix it a m n d \<longleftrightarrow> m < 2 ^ 64 \<and> n < 2 ^ 64 \<and> m * n < 2 ^ 64 \<and> length d = m * n \<and>
     register_tags (vm it) ! unat a = TensorHandle \<and>
     tensor_ptr it (registers (vm it) ! unat a) = Some \<lparr>shape = [of_nat m, of_nat n], tdata = d\<rparr>"

definition register_file_ok :: "interp \<Rightarrow> bool" where
  "register_file_ok it \<longleftrightarrow> length (registers (vm it)) = 243 \<and> length (register_tags (vm it)) = 243 \<and>
     length (tensor_pool (vm it)) < 2 ^ 63 - 1"

lemma holds_matrix_begin_step [simp]: "holds_matrix (begin_step it) a m n d = holds_matrix it a m n d"
  by (simp add: holds_matrix_def begin_step_def Let_def ptr_defs)

lemma register_file_ok_begin_step [simp]: "register_file_ok (begin_step it) = register_file_ok it"
  by (simp add: register_file_ok_def begin_step_def Let_def)

text \<open>Storing a result interns the tensor and leaves its handle in the destination.\<close>

lemma commit_tensor_effect:
  assumes "register_file_ok it" "valid_reg (arg_a i)"
    "m < 2 ^ 64" "n < 2 ^ 64" "m * n < 2 ^ 64" "length d = m * n"
  shows "\<exists>it'. commit_tensor i pc0 \<lparr>shape = [of_nat m, of_nat n], tdata = d\<rparr> it = Inr (it', None) \<and>
     holds_matrix it' (arg_a i) m n d"
proof -
  let ?t = "\<lparr>shape = [of_nat m, of_nat n], tdata = d\<rparr>"
  obtain h it1 where i: "intern_tensor ?t it = (h, it1)" by (cases "intern_tensor ?t it")
  have "tensor_ptr it1 h = Some ?t"
    using tensor_pool.resolves [of it ?t] i assms(1) by (simp add: register_file_ok_def)
  moreover have "length (registers (vm it1)) = 243" "length (register_tags (vm it1)) = 243"
    using i assms(1) by (auto simp: intern_defs Let_def register_file_ok_def)
  ultimately show ?thesis
    using assms(3-6) valid_reg_less [OF assms(2)]
    by (simp add: commit_tensor_def i ending_defs state_defs holds_matrix_def ptr_defs)
qed

lemma with_tensors_matrices:
  assumes "holds_matrix it (arg_b i) m n l" "holds_matrix it (arg_c i) n' q r" "register_file_ok it"
    "valid_reg (arg_b i)" "valid_reg (arg_c i)"
  shows "with_tensors i pc0 it k =
     k \<lparr>shape = [of_nat m, of_nat n], tdata = l\<rparr> \<lparr>shape = [of_nat n', of_nat q], tdata = r\<rparr>"
  using assms valid_reg_less [OF assms(4)] valid_reg_less [OF assms(5)]
  by (simp add: with_tensors_def holds_matrix_def register_file_ok_def)

lemma sint_entry:
  assumes "chain_fits 0 (entry_terms l r n q i j)"
  shows "sint (word_of_int (sum_products (entry_terms l r n q i j)) :: i64) =
     (\<Sum>k<n. sint (l ! (i * n + k)) * sint (r ! (k * q + j)))"
proof -
  have "int64_fits (sum_products (entry_terms l r n q i j))"
    using chain_fits_sum [OF assms] by (simp add: int64_fits_def)
  then show ?thesis
    by (simp add: sint_of_int_fits) (simp add: sum_products_def entry_terms_def interv_sum_list_conv_sum_set_nat
        atLeast0LessThan comp_def)
qed

text \<open>
  C25: \<open>TMatMul\<close> is the matrix product. When its operands name an \<open>m\<close> by \<open>n\<close> and an \<open>n\<close> by
  \<open>q\<close> matrix in row-major order, the step either meets a signed overflow, exactly when some
  product or partial sum of an entry does not fit 64 bits, or it succeeds and the destination
  holds a fresh handle of the \<open>m\<close> by \<open>q\<close> matrix whose entries are the exact sums of products.
\<close>

theorem matmul_is_matrix_product:
  assumes "executes it (mk_insn TMatMul a b c)" "register_file_ok it"
    and "valid_reg a" "valid_reg b" "valid_reg c"
    and "holds_matrix it b m n l" "holds_matrix it c n q r" "m * q \<le> (2 ^ 63 - 1) div 8"
  shows "if \<forall>i<m. \<forall>j<q. chain_fits 0 (entry_terms l r n q i j)
     then \<exists>it' out. step F it = Inr (it', None) \<and> holds_matrix it' a m q out \<and>
        (\<forall>i<m. \<forall>j<q. sint (out ! (i * q + j)) = (\<Sum>k<n. sint (l ! (i * n + k)) * sint (r ! (k * q + j))))
     else step F it = Inl SignedOverflow"
proof -
  let ?i = "mk_insn TMatMul a b c" and ?it = "begin_step it"
  let ?out = "fill (\<lambda>(i, j). i * q + j) (\<lambda>(i, j). word_of_int (sum_products (entry_terms l r n q i j)))
      (index_pairs m q) (replicate (m * q) 0) :: i64 list"
  have dims: "length l = m * n" "length r = n * q" "m * n < 2 ^ 64" "n * q < 2 ^ 64"
    "m < 2 ^ 64" "n < 2 ^ 64" "q < 2 ^ 64"
    using assms(6,7) by (simp_all add: holds_matrix_def)
  have "step F it = exec_tmatmul ?i (pc (vm it)) ?it"
    using step_executes [OF assms(1)] by (simp add: exec_def)
  also have "\<dots> = ebind (matmul_kernel l r m n q) (\<lambda>out.
      commit_tensor ?i (pc (vm it)) \<lparr>shape = [of_nat m, of_nat q], tdata = out\<rparr> ?it)"
    using assms(2-7) dims
    by (simp add: exec_tmatmul_def with_tensors_matrices [of ?it ?i m n l n q r] unat_of_nat_small size_mult_small)
  finally have st: "step F it = (if \<forall>i<m. \<forall>j<q. chain_fits 0 (entry_terms l r n q i j)
      then commit_tensor ?i (pc (vm it)) \<lparr>shape = [of_nat m, of_nat q], tdata = ?out\<rparr> ?it
      else Inl SignedOverflow)"
    by (simp only: matmul_kernel_eq [OF dims(1-4) assms(8)] ebind_if ebind_Inr ebind_Inl)
  have "m * q < 2 ^ 64" using assms(8) by simp
  with commit_tensor_effect [of ?it ?i m q ?out "pc (vm it)"] assms(2,3) dims
  obtain it' where "commit_tensor ?i (pc (vm it)) \<lparr>shape = [of_nat m, of_nat q], tdata = ?out\<rparr> ?it = Inr (it', None)"
    "holds_matrix it' a m q ?out" by auto
  with st show ?thesis by (auto simp: fill_pairs sint_entry)
qed

text \<open>A host that has stored a tensor and its handle, as the test programs do.\<close>

definition tensor_machine :: "interp" where
  "tensor_machine = upd_vm (\<lambda>s. s\<lparr>tensor_pool := [\<lparr>shape = [2, 2], tdata = [1, 2, 3, 4]\<rparr>],
      registers := (registers s)[1 := 1], register_tags := (register_tags s)[1 := TensorHandle]\<rparr>)
     (loaded_vm [mk_insn TMatMul 0 1 1])"

theorem matmul_is_matrix_product_witness:
  "\<exists>it' out. step int_fpu tensor_machine = Inr (it', None) \<and> holds_matrix it' 0 2 2 out \<and> sint (out ! 2) = 15"
proof -
  have ex: "executes tensor_machine (mk_insn TMatMul 0 1 1)"
    by (simp add: executes_def tensor_machine_def loaded_defs validate_program_None insn_ok_eval)
  have ok: "register_file_ok tensor_machine" "valid_reg 0" "valid_reg 1"
    by (simp_all add: register_file_ok_def tensor_machine_def loaded_defs valid_reg_def)
  have h: "holds_matrix tensor_machine 1 2 2 [1, 2, 3, 4]"
    by (simp add: holds_matrix_def tensor_machine_def loaded_defs ptr_defs pool_ptr_def)
  have terms: "entry_terms [1, 2, 3, 4] [1, 2, 3, 4] 2 2 i j =
      [(sint ([1, 2, 3, 4 :: i64] ! (i * 2)), sint ([1, 2, 3, 4 :: i64] ! j)),
       (sint ([1, 2, 3, 4 :: i64] ! (i * 2 + 1)), sint ([1, 2, 3, 4 :: i64] ! (2 + j)))]" for i j
    by (simp add: entry_terms_def upt_rec)
  have fits: "\<forall>i<2. \<forall>j<2. chain_fits 0 (entry_terms [1, 2, 3, 4] [1, 2, 3, 4] 2 2 i j)"
    unfolding terms by (simp add: less_Suc_eq numeral_eq_Suc [of "num.Bit0 num.One"] int64_fits_def)
  have small: "(2 :: nat) * 2 \<le> (2 ^ 63 - 1) div 8" by simp
  from matmul_is_matrix_product [OF ex ok(1,2,3,3) h h small, of int_fpu] fits obtain it' out where
    res: "step int_fpu tensor_machine = Inr (it', None)" "holds_matrix it' 0 2 2 out"
      "\<forall>i<2. \<forall>j<2. sint (out ! (i * 2 + j)) =
         (\<Sum>k<2. sint ([1, 2, 3, 4 :: i64] ! (i * 2 + k)) * sint ([1, 2, 3, 4 :: i64] ! (k * 2 + j)))"
    by auto
  from res(3) [rule_format, of 1 0] have "sint (out ! 2) = 15"
    by (simp add: lessThan_Suc numeral_eq_Suc)
  with res(1,2) show ?thesis by blast
qed

end
