(* ===== verification/Hash_Facts.thy ===== *)
theory Hash_Facts
  imports Machine_Interface Control_Facts Summary
begin

text \<open>
  The state hash: every mixing step is invertible, so a change of a single byte of a register,
  a memory cell, the program counter or the halt bit changes the hash; and the words that are
  hashed determine the observable state.
\<close>

unbundle bit_operations_syntax

section \<open>Mixing is invertible\<close>

definition fnv_prime_inverse :: u64 where
  "fnv_prime_inverse = 14886173955864302971"

lemma fnv_prime_invertible: "fnv_prime * fnv_prime_inverse = 1"
  by (simp add: fnv_prime_def fnv_prime_inverse_def)

lemma mult_prime_cancel: "x * fnv_prime * fnv_prime_inverse = x"
  by (simp add: mult.assoc fnv_prime_invertible)

lemma mult_prime_inj: "x * fnv_prime = y * fnv_prime \<longleftrightarrow> x = y"
  by (metis mult_prime_cancel)

lemma xor_cancel: "(x XOR b) XOR b = (x :: u64)"
  by (simp add: xor.assoc)

lemma xor_right_inj: "x XOR b = y XOR b \<longleftrightarrow> x = (y :: u64)"
  by (metis xor_cancel)

lemma mix_byte_state: "mix_byte b h = mix_byte b h' \<longleftrightarrow> h = h'"
  by (simp add: mix_byte_def mult_prime_inj xor_right_inj)

lemma mix_byte_input: "mix_byte b h = mix_byte b' h \<longleftrightarrow> b = b'"
  using xor_right_inj [of b h b'] by (simp add: mix_byte_def mult_prime_inj xor.commute)

lemma fold_mix_byte: "fold (\<lambda>i. mix_byte (f i)) is h = fold (\<lambda>i. mix_byte (f i)) is h' \<longleftrightarrow> h = h'"
  by (induction "is" arbitrary: h h') (simp_all add: mix_byte_state)

lemma mix_u64_state: "mix_u64 v h = mix_u64 v h' \<longleftrightarrow> h = h'"
  unfolding mix_u64_def by (rule fold_mix_byte)

lemma fold_mix_u64: "fold mix_u64 ws h = fold mix_u64 ws h' \<longleftrightarrow> h = h'"
  by (induction ws arbitrary: h h') (simp_all add: mix_u64_state)

text \<open>Two words that differ in exactly one of their eight bytes.\<close>

definition one_byte_apart :: "u64 \<Rightarrow> u64 \<Rightarrow> bool" where
  "one_byte_apart v v' \<longleftrightarrow> (\<exists>i<8. byte_of v i \<noteq> byte_of v' i \<and> (\<forall>j<8. j \<noteq> i \<longrightarrow> byte_of v j = byte_of v' j))"

lemma mix_u64_apart:
  assumes "one_byte_apart v v'"
  shows "mix_u64 v h \<noteq> mix_u64 v' h"
proof -
  from assms obtain i where i: "i < 8" "byte_of v i \<noteq> byte_of v' i"
    and same: "\<And>j. j < 8 \<Longrightarrow> j \<noteq> i \<Longrightarrow> byte_of v j = byte_of v' j"
    by (auto simp: one_byte_apart_def)
  have bytes: "[0..<8] = [0..<i] @ i # [Suc i..<8]"
    using i(1) upt_add_eq_append [of 0 i "8 - i"] upt_conv_Cons [of i 8] by simp
  let ?low = "fold (\<lambda>j. mix_byte (byte_of v' j)) [0..<i] h"
  have low: "fold (\<lambda>j. mix_byte (byte_of v j)) [0..<i] h = ?low"
    using i(1) by (intro fold_cong) (auto simp: same)
  have high: "fold (\<lambda>j. mix_byte (byte_of v j)) [Suc i..<8] x = fold (\<lambda>j. mix_byte (byte_of v' j)) [Suc i..<8] x" for x
    by (intro fold_cong) (auto simp: same)
  show ?thesis
    unfolding mix_u64_def bytes using i(2) by (simp add: low high fold_mix_byte mix_byte_input)
qed

lemma hash_apart:
  "one_byte_apart v v' \<Longrightarrow> state_words s = us @ v # ws \<Longrightarrow> state_words s' = us @ v' # ws \<Longrightarrow>
     state_hash s \<noteq> state_hash s'"
  by (simp add: state_hash_def fold_mix_u64 mix_u64_apart)

lemma halt_bit_apart: "one_byte_apart (if b then 1 else 0) (if \<not> b then 1 else 0)"
  unfolding one_byte_apart_def by (rule exI [of _ 0]) (simp add: byte_of_def less_Suc_eq numeral_eq_Suc)

text \<open>The word at one index of a list that the hash reads, and a different one in its place.\<close>

lemma hash_update_apart:
  assumes "k < length xs" "one_byte_apart (xs ! k) v"
    and "state_words s = us @ xs @ ws" "state_words s' = us @ xs[k := v] @ ws"
  shows "state_hash s' \<noteq> state_hash s"
  using hash_apart [OF assms(2), of s "us @ take k xs" "drop (Suc k) xs @ ws" s'] assms(3,4)
    id_take_nth_drop [OF assms(1)] upd_conv_take_nth_drop [OF assms(1), of v]
  by (metis append.assoc append_Cons)

text \<open>
  C24: no single byte escapes the hash. Changing exactly one byte of a register, of a memory
  cell or of the program counter, or the halt bit, and nothing else, changes \<open>state_hash\<close>.
\<close>

theorem hash_separates:
  "(k < length (registers s) \<longrightarrow> one_byte_apart (registers s ! k) v \<longrightarrow>
      state_hash (s\<lparr>registers := (registers s)[k := v]\<rparr>) \<noteq> state_hash s) \<and>
   (a < length (memory s) \<longrightarrow> one_byte_apart (memory s ! a) v \<longrightarrow>
      state_hash (s\<lparr>memory := (memory s)[a := v]\<rparr>) \<noteq> state_hash s) \<and>
   (one_byte_apart (of_nat (pc s)) (of_nat n) \<longrightarrow> state_hash (s\<lparr>pc := n\<rparr>) \<noteq> state_hash s) \<and>
   state_hash (s\<lparr>halted := \<not> halted s\<rparr>) \<noteq> state_hash s"
proof (intro conjI impI)
  let ?rest = "[of_nat (length (trace s))] @ concat (map entry_words (trace s)) @
     payload_words (last_trap_payload s) @ policy_words (policy_of s)"
  let ?head = "[of_nat (pc s), if halted s then 1 else 0, of_nat (gc_cycles s)] :: u64 list"
  show "state_hash (s\<lparr>registers := (registers s)[k := v]\<rparr>) \<noteq> state_hash s"
    if "k < length (registers s)" "one_byte_apart (registers s ! k) v"
    using that by (rule hash_update_apart [where us = ?head and ws = "memory s @ ?rest"]) (simp_all add: state_words_def)
  show "state_hash (s\<lparr>memory := (memory s)[a := v]\<rparr>) \<noteq> state_hash s"
    if "a < length (memory s)" "one_byte_apart (memory s ! a) v"
    using that by (rule hash_update_apart [where us = "?head @ registers s" and ws = ?rest]) (simp_all add: state_words_def)
  show "state_hash (s\<lparr>pc := n\<rparr>) \<noteq> state_hash s" if "one_byte_apart (of_nat (pc s)) (of_nat n)"
    by (rule hash_update_apart [where k = 0 and xs = "take 1 (state_words s)" and us = "[]" and v = "of_nat n"
        and ws = "drop 1 (state_words s)"]) (use that in \<open>simp_all add: state_words_def\<close>)
  show "state_hash (s\<lparr>halted := \<not> halted s\<rparr>) \<noteq> state_hash s"
    by (rule hash_update_apart [where k = 1 and xs = "take 2 (state_words s)" and us = "[]"
        and v = "if \<not> halted s then 1 else 0" and ws = "drop 2 (state_words s)"])
      (use halt_bit_apart [of "halted s"] in \<open>simp_all add: state_words_def\<close>)
qed

theorem hash_separates_witness:
  "state_hash (default_state\<lparr>registers := (registers default_state)[7 := 1]\<rparr>) \<noteq> state_hash default_state"
proof -
  have "7 < length (registers default_state)" "one_byte_apart (registers default_state ! 7) 1"
    using halt_bit_apart [of False] by (simp_all add: default_state_def register_count_def)
  with hash_separates [of 7 default_state 1] show ?thesis by blast
qed

section \<open>The hashed words determine the observables\<close>

definition observables :: "state \<Rightarrow> _" where
  "observables s = (pc s, halted s, gc_cycles s, registers s, memory s, trace s, last_trap_payload s, policy_of s)"

definition entry_ok :: "trace_entry \<Rightarrow> bool" where
  "entry_ok e \<longleftrightarrow> te_pc e < 2 ^ 64 \<and> te_opcode e \<in> set enumerators \<and> te_trap e \<noteq> Some NoTrap \<and>
     (case te_write_reg e of
        None \<Rightarrow> te_write_value e = None \<and> te_write_tag e = None
      | Some k \<Rightarrow> k + 1 < 2 ^ 64 \<and> te_write_value e \<noteq> None \<and> te_write_tag e \<noteq> None)"

definition payload_ok :: "trap_payload \<Rightarrow> bool" where
  "payload_ok p \<longleftrightarrow> tp_pc p < 2 ^ 64 \<and> tp_opcode p \<in> set enumerators \<and> length (tp_detail p) < 2 ^ 64"

definition hashable :: "state \<Rightarrow> bool" where
  "hashable s \<longleftrightarrow> pc s < 2 ^ 64 \<and> gc_cycles s < 2 ^ 64 \<and> length (trace s) < 2 ^ 64 \<and>
     (\<forall>e\<in>set (trace s). entry_ok e) \<and> (\<forall>p. last_trap_payload s = Some p \<longrightarrow> payload_ok p) \<and>
     (\<forall>p. policy_of s = Some p \<longrightarrow> - (2 ^ 31) \<le> tier p \<and> tier p < 2 ^ 31)"

lemma of_nat_word_inj: "m < 2 ^ 64 \<Longrightarrow> n < 2 ^ 64 \<Longrightarrow> (of_nat m :: u64) = of_nat n \<longleftrightarrow> m = n"
  by (metis unat_of_nat_small)

lemma unat_opcode_word: "unat (opcode_word oc) = unat (opcode_byte oc)"
proof -
  have "unat (opcode_byte oc) < 2 ^ 64"
    using unsigned_less [where 'a = nat, of "opcode_byte oc"] by simp
  then show ?thesis by (simp add: opcode_word_def unsigned_ucast_eq take_bit_nat_eq_self)
qed

lemma opcode_word_inj:
  "x \<in> set enumerators \<Longrightarrow> y \<in> set enumerators \<Longrightarrow> opcode_word x = opcode_word y \<longleftrightarrow> x = y"
  by (metis opcode_of_byte_opcode_byte unat_opcode_word unsigned_word_eqI)

lemma trap_word_inj: "trap_word t = trap_word t' \<longleftrightarrow> t = t'"
  by (cases t; cases t') (simp_all add: trap_word_def)

lemma trap_word_zero: "trap_word t = 0 \<longleftrightarrow> t = NoTrap"
  by (cases t) (simp_all add: trap_word_def)

lemma tag_word_inj: "(of_nat (tag_code t) :: u64) = of_nat (tag_code t') \<longleftrightarrow> t = t'"
  by (cases t; cases t') simp_all

lemma segment_word_inj: "(of_nat (segment_code g) :: u64) = of_nat (segment_code g') \<longleftrightarrow> g = g'"
  by (cases g; cases g') simp_all

lemma char_word_inj: "(of_nat (code x) :: u64) = of_nat (code y) \<longleftrightarrow> x = y"
proof -
  have "code c < 2 ^ 64" for c by (rule less_trans [OF nat_of_char_less_256]) simp
  from of_nat_word_inj [OF this this] show ?thesis by simp
qed

lemma reg_word:
  "k + 1 < 2 ^ 64 \<Longrightarrow> (of_nat (k + 1) :: u64) \<noteq> 0"
  "k + 1 < 2 ^ 64 \<Longrightarrow> k' + 1 < 2 ^ 64 \<Longrightarrow> (of_nat (k + 1) :: u64) = of_nat (k' + 1) \<longleftrightarrow> k = k'"
  using of_nat_word_inj [of "k + 1" 0] of_nat_word_inj [of "k + 1" "k' + 1"] by simp_all

lemma entry_words_inj:
  assumes "entry_ok e" "entry_ok e'" "entry_words e = entry_words e'"
  shows "e = e'"
proof -
  have ws: "te_pc e = te_pc e'" "te_opcode e = te_opcode e'"
    "opt_word (\<lambda>k. of_nat (k + 1)) (te_write_reg e) = opt_word (\<lambda>k. of_nat (k + 1)) (te_write_reg e')"
    "opt_word id (te_write_value e) = opt_word id (te_write_value e')"
    "opt_word (\<lambda>t. of_nat (tag_code t) + 1) (te_write_tag e) = opt_word (\<lambda>t. of_nat (tag_code t) + 1) (te_write_tag e')"
    "opt_word trap_word (te_trap e) = opt_word trap_word (te_trap e')"
    using assms by (simp_all add: entry_words_def entry_ok_def of_nat_word_inj opcode_word_inj)
  have "te_write_reg e = te_write_reg e'"
    using ws(3) assms(1,2) reg_word by (auto simp: opt_word_def entry_ok_def simp del: of_nat_add of_nat_Suc split: option.splits)
  moreover from this ws(4,5) assms(1,2) have "te_write_value e = te_write_value e'" "te_write_tag e = te_write_tag e'"
    by (auto simp: opt_word_def entry_ok_def tag_word_inj split: option.splits)
  moreover have "te_trap e = te_trap e'"
    using ws(6) assms(1,2) by (auto simp: opt_word_def entry_ok_def trap_word_inj trap_word_zero dest: sym split: option.splits)
  ultimately show ?thesis using ws(1,2) by simp
qed

lemma map_words_inj: "map (\<lambda>ch. of_nat (code ch) :: u64) s = map (\<lambda>ch. of_nat (code ch)) s' \<longleftrightarrow> s = s'"
  by (rule inj_map_eq_map) (simp add: inj_def char_word_inj)

lemma concat_words_inj:
  fixes f :: "'x \<Rightarrow> 'w list"
  assumes "\<And>x. length (f x) = n"
  shows "length xs = length ys \<Longrightarrow> concat (map f xs) @ r = concat (map f ys) @ r' \<Longrightarrow> map f xs = map f ys \<and> r = r'"
proof (induction xs ys rule: list_induct2)
  case (Cons x xs y ys)
  from Cons.prems have "f x @ (concat (map f xs) @ r) = f y @ (concat (map f ys) @ r')" by simp
  then have "f x = f y" "concat (map f xs) @ r = concat (map f ys) @ r'"
    using assms [of x] assms [of y] by (simp_all add: append_eq_append_conv)
  with Cons.IH show ?case by simp
qed simp

lemma payload_words_inj:
  assumes "\<forall>p. po = Some p \<longrightarrow> payload_ok p" "\<forall>p. po' = Some p \<longrightarrow> payload_ok p"
    and "payload_words po @ r = payload_words po' @ r'"
  shows "po = po' \<and> r = r'"
proof (cases "po = None \<or> po' = None")
  case True
  with assms(3) show ?thesis by (auto simp: payload_words_def split: option.splits)
next
  case False
  then obtain p p' where po: "po = Some p" "po' = Some p'" by auto
  with assms(1,2) have ok: "payload_ok p" "payload_ok p'" by simp_all
  with assms(3) po have len: "length (tp_detail p) = length (tp_detail p')"
    by (simp add: payload_words_def payload_ok_def of_nat_word_inj)
  with assms(3) po ok have "tp_detail p = tp_detail p'" "r = r'"
    by (simp_all add: payload_words_def append_eq_append_conv map_words_inj)
  with assms(3) po ok len show ?thesis
    by (simp add: payload_words_def payload_ok_def of_nat_word_inj opcode_word_inj trap_word_inj segment_word_inj)
qed

lemma policy_words_inj:
  assumes "\<forall>p. po = Some p \<longrightarrow> - (2 ^ 31) \<le> tier p \<and> tier p < 2 ^ 31"
    "\<forall>p. po' = Some p \<longrightarrow> - (2 ^ 31) \<le> tier p \<and> tier p < 2 ^ 31"
    "policy_words po = policy_words po'"
  shows "po = po'"
proof -
  have tier: "sint (word_of_int (tier p) :: i64) = tier p" if "- (2 ^ 31) \<le> tier p \<and> tier p < 2 ^ 31" for p :: policy
    using that by (intro sint_of_int_fits) (simp add: int64_fits_def)
  from assms show ?thesis
    by (cases po; cases po') (auto simp: policy_words_def dest: arg_cong [where f = sint] simp: tier)
qed

lemma state_words_inj:
  assumes "hashable s" "hashable s'" "length (registers s) = length (registers s')"
    "length (memory s) = length (memory s')" "state_words s = state_words s'"
  shows "observables s = observables s'"
proof -
  let ?tail = "\<lambda>s. payload_words (last_trap_payload s) @ policy_words (policy_of s)"
  have head: "pc s = pc s'" "halted s = halted s'" "gc_cycles s = gc_cycles s'"
    using assms(1,2,5) by (simp_all add: state_words_def hashable_def of_nat_word_inj split: if_splits)
  have arrays: "registers s = registers s'" "memory s = memory s'"
    using assms(3-5) by (simp_all add: state_words_def append_eq_append_conv)
  then have traces: "length (trace s) = length (trace s')"
    "concat (map entry_words (trace s)) @ ?tail s = concat (map entry_words (trace s')) @ ?tail s'"
    using assms(1,2,5) by (simp_all add: state_words_def hashable_def of_nat_word_inj)
  have "length (entry_words e) = 6" for e by (simp add: entry_words_def)
  from concat_words_inj [of entry_words, OF this traces] have
    entries: "map entry_words (trace s) = map entry_words (trace s')" and tails: "?tail s = ?tail s'" by simp_all
  have "trace s = trace s'"
  proof (rule nth_equalityI [OF traces(1)])
    fix k
    assume k: "k < length (trace s)"
    with entries traces(1) have "entry_words (trace s ! k) = entry_words (trace s' ! k)" by (metis nth_map)
    moreover have "entry_ok (trace s ! k)" "entry_ok (trace s' ! k)"
      using k traces(1) assms(1,2) by (simp_all add: hashable_def)
    ultimately show "trace s ! k = trace s' ! k" by (intro entry_words_inj)
  qed
  moreover from tails payload_words_inj [of "last_trap_payload s" "last_trap_payload s'"] assms(1,2)
  have "last_trap_payload s = last_trap_payload s'" "policy_words (policy_of s) = policy_words (policy_of s')"
    by (simp_all add: hashable_def)
  moreover from this(2) assms(1,2) have "policy_of s = policy_of s'"
    by (intro policy_words_inj) (simp_all add: hashable_def)
  ultimately show ?thesis using head arrays by (simp add: observables_def)
qed

section \<open>Runs produce hashable states\<close>

definition writes_ok :: "interp \<Rightarrow> bool" where
  "writes_ok it \<longleftrightarrow> (case cur_write_reg it of
       None \<Rightarrow> cur_write_value it = None \<and> cur_write_tag it = None
     | Some k \<Rightarrow> k < 243 \<and> cur_write_value it \<noteq> None \<and> cur_write_tag it \<noteq> None)"

definition records_write :: "interp \<Rightarrow> interp \<times> trap option \<Rightarrow> bool" where
  "records_write it = (\<lambda>(it', r). writes_ok it' \<and> (\<exists>e. trace (vm it') = trace (vm it) @ [e] \<and>
     te_write_reg e = cur_write_reg it' \<and> te_write_value e = cur_write_value it' \<and>
     te_write_tag e = cur_write_tag it'))"

lemma exec_records_write:
  assumes "length (registers (vm it)) = 243" "writes_ok it"
  shows "outcome (records_write it) (\<lambda>h. True) (exec F i pc0 it)"
  using assms
  by - (rule exec_by_handler,
    simp_all add: records_write_def writes_ok_def handler_defs outcome_rules ending_defs
      helper_defs state_defs Let_def intern_defs split: option.splits)

lemma raise_trap_records_write:
  "writes_ok it \<Longrightarrow> outcome (records_write it) (\<lambda>h. True) (raise_trap t oc pc0 seg d it)"
  by (auto simp: records_write_def raise_trap_eq writes_ok_def split: option.splits)

lemma writes_ok_begin_step [simp]: "writes_ok (begin_step it)"
  by (simp add: writes_ok_def)

lemma step_records_write:
  assumes "step F it = Inr (it', r)" "\<not> halted (vm it)" "writes_ok it" "length (registers (vm it)) = 243"
  shows "records_write it (it', r)"
  using assms(1)
proof (cases rule: step_cases)
  case (preload t)
  from outcome_InrD [OF raise_trap_records_write preload(3)] assms(3) show ?thesis by simp
next
  case past_end
  from outcome_InrD [OF raise_trap_records_write past_end(4)] assms(3) show ?thesis by simp
next
  case (run i)
  have "length (registers (vm (begin_step it))) = 243" using assms(4) by simp
  from outcome_InrD [OF exec_records_write [OF this writes_ok_begin_step] run(5)]
  show ?thesis by (simp add: records_write_def)
qed (use assms(2) in simp)

definition payload_from :: "interp \<Rightarrow> nat \<Rightarrow> opcode \<Rightarrow> interp \<times> trap option \<Rightarrow> bool" where
  "payload_from it pc0 oc = (\<lambda>(it', r). \<forall>p. last_trap_payload (vm it') = Some p \<longrightarrow>
     last_trap_payload (vm it) = Some p \<or> tp_pc p = pc0 \<and> tp_opcode p = oc \<and> length (tp_detail p) < 64)"

lemma exec_payload_from: "outcome (payload_from it pc0 (opcode_of i)) (\<lambda>h. True) (exec F i pc0 it)"
  by (rule exec_by_handler)
    (simp_all add: payload_from_def handler_defs outcome_rules ending_defs
      helper_defs state_defs Let_def intern_defs split: option.splits)

lemma raise_trap_payload_from:
  "length d < 64 \<Longrightarrow> outcome (payload_from it pc0 oc) (\<lambda>h. True) (raise_trap t oc pc0 seg d it)"
  by (simp add: payload_from_def raise_trap_eq)

lemma begin_step_payload [simp]: "last_trap_payload (vm (begin_step it)) = last_trap_payload (vm it)"
  by (simp add: begin_step_def Let_def)

lemma step_payload_from:
  assumes "step F it = Inr (it', r)"
  shows "payload_from it (pc (vm it)) (current_opcode it) (it', r)"
  using assms
proof (cases rule: step_cases)
  case stopped
  then show ?thesis by (simp add: payload_from_def)
next
  case (preload t)
  from outcome_InrD [OF raise_trap_payload_from preload(3)] show ?thesis by simp
next
  case past_end
  from outcome_InrD [OF raise_trap_payload_from past_end(4)] past_end(3) show ?thesis
    by (simp add: current_opcode_def)
next
  case (run i)
  from outcome_InrD [OF exec_payload_from run(5)] run(3,4) show ?thesis
    by (simp add: payload_from_def current_opcode_def)
qed

text \<open>The invariant of a run of program \<open>p\<close>.\<close>

definition hash_inv :: "program \<Rightarrow> interp \<Rightarrow> bool" where
  "hash_inv p it \<longleftrightarrow> prog it = p \<and> vm_wf it \<and> control_in (length (insns p)) it \<and> writes_ok it \<and>
     preload_trap it \<noteq> Some NoTrap \<and> gc_counted it \<and> steps it \<le> length (trace (vm it)) \<and>
     (\<forall>e\<in>set (trace (vm it)). entry_ok e) \<and>
     (\<forall>pl. last_trap_payload (vm it) = Some pl \<longrightarrow> payload_ok pl) \<and>
     (\<forall>po. policy_of (vm it) = Some po \<longrightarrow> - (2 ^ 31) \<le> tier po \<and> tier po < 2 ^ 31)"

lemma current_opcode_enumerated:
  "\<forall>i\<in>set (insns (prog it)). opcode_of i \<in> set enumerators \<Longrightarrow> current_opcode it \<in> set enumerators"
  by (simp add: current_opcode_def enumerators_def)

lemma step_hash_inv:
  assumes "step F it = Inr (it', r)" "hash_inv p it" "length (insns p) < max_program"
    "\<forall>i\<in>set (insns p). opcode_of i \<in> set enumerators"
  shows "hash_inv p it'"
proof (cases "halted (vm it)")
  case True
  with assms(1,2) show ?thesis by (simp add: step_def)
next
  case False
  note st = assms(1)
  have inv: "prog it = p" "vm_wf it" "control_in (length (insns p)) it" "writes_ok it" "preload_trap it \<noteq> Some NoTrap"
    using assms(2) by (simp_all add: hash_inv_def)
  have regs: "length (registers (vm it)) = 243" using inv(2) by (simp add: vm_wf_def Let_def)
  have pc: "pc (vm it) < 2 ^ 64" using inv(3) assms(3) by (simp add: control_in_def max_program_def)
  have oc: "current_opcode it \<in> set enumerators"
    using assms(4) inv(1) by (intro current_opcode_enumerated) simp
  from step_traced [OF st False] obtain e where
    e: "trace (vm it') = trace (vm it) @ [e]" "te_pc e = pc (vm it)" "te_opcode e = current_opcode it" "te_trap e = r"
    by (auto simp: traced_def)
  from step_records_write [OF st False inv(4) regs] e(1) have w: "writes_ok it'"
    "te_write_reg e = cur_write_reg it'" "te_write_value e = cur_write_value it'" "te_write_tag e = cur_write_tag it'"
    by (auto simp: records_write_def)
  have "r \<noteq> Some NoTrap" using step_not_NoTrap [OF _ inv(5)] st by blast
  with e w pc oc have entry: "entry_ok e" by (auto simp: entry_ok_def writes_ok_def split: option.splits)
  have payload: "payload_ok pl" if "last_trap_payload (vm it') = Some pl" for pl
    using step_payload_from [OF st] that assms(2) pc oc
    by (auto simp: payload_from_def payload_ok_def hash_inv_def)
  have "preload_trap it' \<noteq> Some NoTrap" using step_preload [OF st] inv(5) by auto
  moreover have "steps it' \<le> length (trace (vm it'))"
    using step_steps [OF st] assms(2) e(1) by (simp add: hash_inv_def)
  moreover have "gc_counted it'" using step_gc_counted [OF st] assms(2) by (simp add: hash_inv_def)
  moreover have "control_in (length (insns p)) it'" using step_control_in [OF st] inv(1,3) by simp
  ultimately show ?thesis
    using assms(2) step_vm_wf [OF st inv(2)] e(1) entry w(1) payload step_policy [OF st] by (simp add: hash_inv_def)
qed

lemma load_policy_range:
  assumes "load_program p it0 = Inr it" "policy_of (vm it) = Some po"
  shows "- (2 ^ 31) \<le> tier po \<and> tier po < 2 ^ 31"
  using assms
  by (auto simp: load_program_def load_program_image_def parse_policy_def ebind_eq_Inr stoi_def Let_def default_state_def
      split: option.splits if_splits prod.splits)

lemma load_hash_inv:
  assumes "load_program p make_interpreter_vm = Inr it" "length (insns p) < max_program"
  shows "hash_inv p it"
proof -
  note fresh = load_fresh_machine [OF assms(1)]
  have "writes_ok it" "last_trap_payload (vm it) = None"
    by (rule load_program_Inr [OF assms(1)]; simp add: make_interpreter_vm_def writes_ok_def default_state_def)+
  moreover have "control_in (length (insns p)) it"
    using fresh(3) load_control [OF assms(1)] by (simp add: control_in_def)
  ultimately show ?thesis
    using fresh load_vm_wf [OF assms] load_policy_range [OF assms(1)]
    by (auto simp: hash_inv_def gc_counted_def validate_program_eval split: if_splits)
qed

lemma hash_inv_hashable:
  assumes "hash_inv p it" "length (insns p) < max_program" "length (trace (vm it)) < 2 ^ 64"
  shows "hashable (vm it)"
proof -
  have "gc_cycles (vm it) \<le> steps it" using assms(1) by (simp add: hash_inv_def gc_counted_def)
  with assms show ?thesis
    by (auto simp: hashable_def hash_inv_def control_in_def max_program_def)
qed

lemma run_hash_inv:
  assumes "load_program p make_interpreter_vm = Inr it" "length (insns p) < max_program"
    "\<forall>i\<in>set (insns p). opcode_of i \<in> set enumerators" "run_to_halt F n it = Inr (it', r)" "n < 2 ^ 64"
  shows "hashable (vm it') \<and> length (registers (vm it')) = 243 \<and> length (memory (vm it')) = length (insns p) + 1536"
proof -
  have inv: "hash_inv p it'"
    using assms(4) load_hash_inv [OF assms(1,2)] step_hash_inv [OF _ _ assms(2,3)]
    by (rule run_to_halt_invariant)
  have "length (trace (vm it')) \<le> n"
    using interpreter.run_trace [OF assms(4)] load_fresh_machine [OF assms(1)] by auto
  with hash_inv_hashable [OF inv assms(2)] assms(5) inv show ?thesis
    by (auto simp: hash_inv_def vm_wf_def Let_def)
qed

text \<open>
  C23: the hash reads the whole observable state and nothing else. Take any two runs of fresh
  objects on programs of equal length with enumerated opcodes. The words that \<open>state_hash\<close>
  mixes are equal exactly when program counter, halt bit, collection counter, registers,
  memory, the whole trace, the trap payload and the policy are equal: no two different
  observable states are hashed as the same sequence of words.
\<close>

theorem hash_input_exact:
  assumes "load_program p make_interpreter_vm = Inr x" "load_program q make_interpreter_vm = Inr y"
    and "length (insns p) < max_program" "length (insns q) = length (insns p)"
    and "\<forall>i\<in>set (insns p @ insns q). opcode_of i \<in> set enumerators"
    and "run_to_halt F n x = Inr (x', r)" "run_to_halt F m y = Inr (y', r')" "n < 2 ^ 64" "m < 2 ^ 64"
  shows "state_words (vm x') = state_words (vm y') \<longleftrightarrow> observables (vm x') = observables (vm y')"
proof
  have hx: "hashable (vm x') \<and> length (registers (vm x')) = 243 \<and> length (memory (vm x')) = length (insns p) + 1536"
    using assms(3,5) by (intro run_hash_inv [OF assms(1) _ _ assms(6,8)]) simp_all
  have hy: "hashable (vm y') \<and> length (registers (vm y')) = 243 \<and> length (memory (vm y')) = length (insns q) + 1536"
    using assms(3-5) by (intro run_hash_inv [OF assms(2) _ _ assms(7,9)]) simp_all
  assume "state_words (vm x') = state_words (vm y')"
  with hx hy assms(4) state_words_inj show "observables (vm x') = observables (vm y')" by simp
next
  assume "observables (vm x') = observables (vm y')"
  then show "state_words (vm x') = state_words (vm y')" by (simp add: observables_def state_words_def)
qed

text \<open>Two programs that differ in an immediate operand.\<close>

definition sample_immediate :: "i64 \<Rightarrow> insn list" where
  "sample_immediate v = [mk_insn LoadImm 0 v 0, mk_insn Halt 0 0 0]"

lemma sample_immediate_run:
  "\<exists>it. run_to_halt int_fpu 9 (loaded_vm (sample_immediate v)) = Inr (it, None) \<and> registers (vm it) ! 0 = v"
  by (simp add: run_eval loaded_defs sample_immediate_def)

theorem hash_input_exact_witness:
  "\<exists>x y. run_to_halt int_fpu 9 (loaded_vm (sample_immediate 5)) = Inr (x, None) \<and>
     run_to_halt int_fpu 9 (loaded_vm (sample_immediate 6)) = Inr (y, None) \<and> state_words (vm x) \<noteq> state_words (vm y)"
proof -
  obtain x where x: "run_to_halt int_fpu 9 (loaded_vm (sample_immediate 5)) = Inr (x, None)" "registers (vm x) ! 0 = 5"
    using sample_immediate_run by blast
  obtain y where y: "run_to_halt int_fpu 9 (loaded_vm (sample_immediate 6)) = Inr (y, None)" "registers (vm y) ! 0 = 6"
    using sample_immediate_run by blast
  have "registers (vm x) \<noteq> registers (vm y)" using x(2) y(2) by auto
  then have "observables (vm x) \<noteq> observables (vm y)" by (simp add: observables_def)
  moreover have "length (insns (bare_program (sample_immediate 5))) < max_program"
    "length (insns (bare_program (sample_immediate 6))) = length (insns (bare_program (sample_immediate 5)))"
    "\<forall>i\<in>set (insns (bare_program (sample_immediate 5)) @ insns (bare_program (sample_immediate 6))).
       opcode_of i \<in> set enumerators" "(9 :: nat) < 2 ^ 64"
    by (simp_all add: sample_immediate_def max_program_def enumerators_def)
  note hash_input_exact [OF load_bare load_bare this(1-3) x(1) y(1) this(4,4)]
  ultimately show ?thesis using x(1) y(1) by blast
qed

end
