(* ===== verification/Spec2Isabelle.thy ===== *)
theory Spec2Isabelle
  imports Boundary Value_Facts Api_Facts Cli_Facts Text_Format Json_Format Liveness Tensor_Facts Hash_Facts
begin

text \<open>
  The T81 virtual machine in Isabelle/HOL.

  THE PROGRAM. A host, the C interface (\<open>src/vm/c_api.cpp\<close>) or the command line runner
  (\<open>src/vm/main.cpp\<close>), reads a program file with \<open>load_program_from_file\<close>
  (\<open>src/vm/program_io.cpp\<close>) and gives the program to an interpreter object
  (\<open>src/vm/vm.cpp\<close>, behind the interface \<open>IVirtualMachine\<close> of \<open>include/t81/vm/vm.hpp\<close>).
  \<open>load_program\<close> lays out guest memory and reads the policy (\<open>src/vm/loader.cpp\<close>) and runs
  the validator (\<open>src/vm/validator.cpp\<close>), whose verdict becomes a pending trap. \<open>step\<close>
  executes one instruction and appends one trace entry; \<open>run_to_halt\<close> repeats it up to a
  bound. Afterwards the host reads the state, its trace, and the summary with the state hash
  (\<open>src/vm/summary.cpp\<close>).

  THE MODEL. A machine is the record \<open>interp\<close>: the fields of class \<open>Interpreter\<close>, with the
  record \<open>state\<close> for the struct \<open>State\<close> in \<open>vm\<close>. A handler of type \<open>step_result\<close> returns
  \<open>Inr (it, None)\<close> or \<open>Inr (it, Some t)\<close> for the two cases of \<open>std::expected\<close>, and \<open>Inl h\<close>
  where the C++ code would run into the hazard \<open>h\<close>: an index outside an array or vector, a
  signed overflow, or an exception nothing catches. So undefined behaviour is a value, and
  \<open>validated_steps_are_safe\<close> can say which of it remains. 64-bit integers are words; \<open>size_t\<close>
  sums and products that may wrap are \<open>size_add\<close> and \<open>size_mult\<close>; other sizes are naturals,
  below \<open>2 ^ 59\<close> (\<open>max_program\<close>), since a vector of 32-byte instructions cannot be longer.
  \<^item> Prelude: 64-bit words, hazards, sequencing (\<open>ebind\<close>, \<open>efold\<close>, \<open>emap\<close>), checked
    arithmetic and vector accesses.
  \<^item> Tisc, State: \<open>tisc/opcodes.hpp\<close>, \<open>tisc/program.hpp\<close>, \<open>vm/state.hpp\<close>, \<open>vm/traps.hpp\<close>.
    A byte that is no opcode is the constructor \<open>IllegalOpcode\<close>. Opcodes are an instance of
    \<open>equal\<close> and \<open>linorder\<close>, ordered by their bytes.
  \<^item> Validator, Loader: \<open>validator.cpp\<close>, \<open>loader.cpp\<close>.
  \<^item> Interpreter: the private helpers of the class. Exec_Scalar, Exec_Control, Exec_Memory,
    Handle_Pool, Exec_Values and Exec_Tensor: one definition per group of case labels of the
    switch in \<open>step\<close>. VM: the switch itself (\<open>exec\<close>), \<open>step\<close>, \<open>run_to_halt\<close>,
    \<open>load_program\<close>, \<open>set_register\<close>.
  \<^item> Cxx_Text: the text functions of the standard library the sources call, with a
    backtracking matcher for the fragment of ECMAScript expressions they use. Program_IO:
    \<open>program_io.cpp\<close>. Summary: \<open>summary.cpp\<close>. C_Api: \<open>c_api.cpp\<close>. Cli: \<open>main.cpp\<close>.
  Parameters are the floating point of the platform (\<open>fpu\<close>; \<open>int_fpu\<close> is an instance for
  closed examples only, no property speaks about values computed with it) and the file system
  (a map from paths to contents).

  INTERFACES. Three locales state what one part relies on in another.
  \<^item> \<open>handle_pool\<close> (Handle_Pool): a handle resolves to the value it was issued for as long as
    the pool lives. Interpreted by the option, result, enum and tensor pools.
  \<^item> \<open>block_region\<close> (Allocators): allocated blocks tile a region from its base. Interpreted by
    the guest heap.
  \<^item> \<open>virtual_machine\<close> (Machine_Interface): the contract of \<open>step\<close>, \<open>run_to_halt\<close> and the
    trace the clients see; run outcomes, resumption and a ranking rule for termination are
    proved in it. Interpreted by the interpreter; the C interface and the runner use it.

  THE PROPERTIES.
  \<^item> Step_Logic, Step_Facts, Run_Facts: a weakest-precondition calculus for handlers; a rule
    that reduces a statement about the switch to one per handler; the trace entry, frame and
    atomicity of one step; \<open>run_to_halt\<close> against the relations \<open>runs\<close> and \<open>ongoing\<close>, which
    have no bound.
  \<^item> Safety: the well-formedness of machines, its preservation, the machines a host can reach
    (\<open>reach\<close>), and memory safety of validated programs.
  \<^item> Execution: the canonical trace, atomic traps (a trap clears a pending verdict of the
    validator and changes no other state of the guest), \<open>run_to_halt\<close> exactly, the collection
    counter against the instructions the trace records (\<open>executed_entries\<close>), replay of the
    trace, independence of an object's history.
  \<^item> Memory_Facts, Allocators, Scalar_Facts, Control_Facts, Value_Facts, Tensor_Facts: the
    instructions against specifications of their own: an abstract stack of blocks for the heap,
    exact integer arithmetic, three-valued logic, signed comparison, return addresses, the
    tier-0 policy, tagged handles, the matrix product.
  \<^item> Liveness: programs without backward jumps end within their length, a fault is permanent,
    a counting loop halts for every count after a known number of steps. The bounds are exact
    or one above the program's length, so no theorem rests on fuel.
  \<^item> Text_Facts, Text_Format, Json_Format: opcode names, and printers for the two file formats
    with proofs that the loaders read back what they print. \<open>Text V1\<close> carries all 81 opcodes,
    though \<open>SPEC.md\<close> 3A.1 lists only eight of them as supported.
  \<^item> Hash_Facts: the mixing steps of the hash are invertible, so no single changed byte is
    missed, and the hashed words determine the observable state.
  \<^item> Api_Facts, Cli_Facts: statuses, running in slices, exit status, parity of the two modes.
  \<^item> Boundary: where the code does not keep what it promises: the unchecked source of the unary
    instructions, the push behind the stack segment after a frame was freed at a stack
    pointer that \<open>Pop\<close> had moved, a rejected program that runs on retry, and the write of the
    earlier run's last step in its trace entry. \<open>step_status_ambiguous\<close> in
    Api_Facts shows a fault that the C interface reports with the status of a halt.
  Witnesses run concrete programs (Samples) through the model by rewriting.

  NOT MODELLED. \<open>t81vm_destroy\<close> and allocation failure (they have no result the model could
  show); the stack depth and the complexity limits of \<open>std::regex\<close>, which may throw on very
  long inputs; the values of the floating-point kernels beyond the parameter; \<open>size_t\<close>
  counters (trace length, steps) beyond \<open>2 ^ 64\<close>. The Python harness, the scripts and the
  C++ tests under \<open>src/tests\<close> and \<open>src/scripts\<close> exercise the parts above and add no
  behaviour.
\<close>

end
